theory Spec2Isabelle
  imports Complex_Main "HOL-Library.Signed_Division"
begin

section \<open>The 2D scan simulator (\<open>scan_simulator_2d.cpp\<close>)\<close>

text \<open>
  The simulator is the C++ class \<open>ScanSimulator2D\<close>: a table of sines, cosines and
  cotangents over a discretised turn, a distance field over a grid, and a ray marcher that
  walks each beam through the distance field and then tests the beam against one square
  opponent.

  Numbers. A C++ \<open>double\<close> is modelled by a \<open>real\<close>, and its arithmetic by the exact
  one, with three exceptions, where what the machine does with a number that is not a real
  decides what the program returns. The quotients of the cotangent table are a type of
  their own, \<open>slope\<close>, with the infinite quotient in it; the quotient of an intersection
  point is no point at all where its denominator is \<open>0\<close>; and the subtraction of the
  back-off loop is a parameter of the loop, so that what is proved of the loop holds for
  the rounded subtraction of the machine as for the exact one. The two remaining
  divisions by a member, \<open>field_of_view / (num_beams - 1)\<close> and the one inside \<open>fmod\<close>, are
  HOL's; they are by zero for one beam and for a table without slots. A C++ \<open>int\<close> is an
  \<open>int\<close> with the 32-bit conversions written out where the code converts; a \<open>size_t\<close> is a
  \<open>nat\<close> with the 64-bit arithmetic written out where the code computes with it.

  Effects. Member functions take the object and return it updated. A loop that may run
  forever returns an \<open>option\<close>, \<open>None\<close> standing for "does not return"; an access outside
  a vector is a \<open>fault\<close>.
\<close>

subsection \<open>Data\<close>

text \<open>\<open>Pose2D\<close> (fields \<open>x\<close>, \<open>y\<close>, \<open>theta\<close> in the source).\<close>

record Pose2D =
  pose_x :: real
  pose_y :: real
  pose_theta :: real

text \<open>
  A slot of the cotangent table: a number, or the infinity that the division of \<open>1\<close> by
  \<open>0\<close> gives.
\<close>

datatype slope = Finite real | Infinite

text \<open>
  The members of \<open>ScanSimulator2D\<close>. The random generator \<open>std::mt19937\<close> is its state,
  a number; the distribution \<open>std::normal_distribution\<close> is the function that draws one
  sample and advances the generator. The class is declared in \<open>scan_simulator_2d.hpp\<close>;
  the types of the members are those of the values this file assigns to them: \<open>height\<close>
  and \<open>width\<close> are the \<open>size_t\<close> parameters of \<open>set_map\<close>.
\<close>

record ScanSimulator2D =
  num_beams :: int
  field_of_view :: real
  scan_std_dev :: real
  scan_max_range :: real
  cube_width :: real
  ray_tracing_epsilon :: real
  theta_discretization :: int
  angle_increment :: real
  theta_index_increment :: real
  sines :: "real list"
  cosines :: "real list"
  arctanes :: "slope list"
  threshold :: real
  scan_output :: "real list"
  noise_generator :: nat
  noise_dist :: "nat \<Rightarrow> real \<times> nat"
  flag_can_see_opponent :: bool
  can_see_opponent :: bool
  height :: nat
  width :: nat
  resolution :: real
  origin :: Pose2D
  origin_c :: real
  origin_s :: real
  dt :: "real list"

text \<open>Reading or writing a vector outside its bounds.\<close>

datatype fault =
  Table_index_out_of_range
  | Grid_index_out_of_range
  | Buffer_index_out_of_range

subsection \<open>Conversions and library functions\<close>

text \<open>Conversion of a \<open>double\<close> to an integer drops the fraction (towards zero).\<close>

definition trunc_real :: "real \<Rightarrow> int" where
  "trunc_real r = (if 0 \<le> r then \<lfloor>r\<rfloor> else \<lceil>r\<rceil>)"

text \<open>
  Conversion of a \<open>double\<close> to \<open>int\<close>. Outside the 32-bit range C++ leaves the result
  undefined; the value here is the one the x86 conversion instruction gives.
\<close>

definition int_of_double :: "real \<Rightarrow> int" where
  "int_of_double r =
     (let z = trunc_real r in if - (2 ^ 31) \<le> z \<and> z < 2 ^ 31 then z else - (2 ^ 31))"

text \<open>Conversion of an \<open>int\<close> to \<open>size_t\<close>, and of a \<open>size_t\<close> back to \<open>int\<close>.\<close>

definition size_t_of_int :: "int \<Rightarrow> int" where
  "size_t_of_int z = z mod 2 ^ 64"

definition int_of_size_t :: "int \<Rightarrow> int" where
  "int_of_size_t z = (z + 2 ^ 31) mod 2 ^ 32 - 2 ^ 31"

text \<open>
  \<open>std::fmod\<close>: the remainder of \<open>a / b\<close> with the quotient truncated, so that the result
  has the sign of \<open>a\<close>. (For \<open>b = 0\<close> the machine gives NaN; the properties below are
  about \<open>b > 0\<close>.)
\<close>

definition fmod :: "real \<Rightarrow> real \<Rightarrow> real" where
  "fmod a b = a - of_int (trunc_real (a / b)) * b"

subsection \<open>The constructor\<close>

text \<open>
  The guard of line 70, \<open>theta != 0 or theta != M_PI or theta != 2 * M_PI\<close>.
\<close>

definition cot_guard :: "real \<Rightarrow> bool" where
  "cot_guard th = (th \<noteq> 0 \<or> th \<noteq> pi \<or> th \<noteq> 2 * pi)"

text \<open>The angle of table slot \<open>i\<close> (line 57).\<close>

definition slot_theta :: "int \<Rightarrow> nat \<Rightarrow> real" where
  "slot_theta td i = (2 * pi * real i) / real_of_int td"

text \<open>
  \<open>1 / std::tan(theta)\<close> (line 71). Where the sine of \<open>theta\<close> is \<open>0\<close> the tangent is \<open>0\<close>
  and the division gives infinity. Elsewhere it is the quotient of the cosine by the sine;
  that is HOL's \<open>1 / tan theta\<close> also where the cosine is \<open>0\<close>, the tangent infinite and the
  quotient \<open>0\<close>. (The machine's \<open>theta\<close> is the double nearest to the angle. It is a
  multiple of \<open>pi\<close> only at slot \<open>0\<close>, where the quotient is infinite; at the slots of \<open>pi\<close>
  and \<open>2 pi\<close> the tangent is of magnitude \<open>1e-16\<close> and the quotient a number of magnitude
  above \<open>1e15\<close>.)
\<close>

definition cotangent :: "real \<Rightarrow> slope" where
  "cotangent theta = (if sin theta = 0 then Infinite else Finite (1 / tan theta))"

text \<open>
  The loop of lines 55 to 73 on \<open>arctanes\<close>: the vector is created with every slot \<open>0\<close>,
  and the body assigns slot \<open>i\<close> under the guard. With the vector the model returns the
  slots the assignment was executed for, in order, which the program does not keep.
\<close>

definition arctanes_loop :: "int \<Rightarrow> slope list \<times> nat list" where
  "arctanes_loop td =
     foldl (\<lambda>(v, assigned) i.
              let theta = slot_theta td i
              in if cot_guard theta then (v[i := cotangent theta], assigned @ [i])
                 else (v, assigned))
       (replicate (nat (td + 1)) (Finite 0), []) [0 ..< nat (td + 1)]"

text \<open>
  The constructor writes the members below and leaves the others (the map and the two
  visibility flags) as they are in the storage \<open>raw\<close> it is given. \<open>seed\<close> is what
  \<open>std::random_device\<close> returns and \<open>normal\<close> the distribution built from the standard
  deviation.
\<close>

definition ScanSimulator2D ::
  "int \<Rightarrow> real \<Rightarrow> real \<Rightarrow> real \<Rightarrow> real \<Rightarrow> real \<Rightarrow> int \<Rightarrow> nat \<Rightarrow> (real \<Rightarrow> nat \<Rightarrow> real \<times> nat)
     \<Rightarrow> ScanSimulator2D \<Rightarrow> ScanSimulator2D" where
  "ScanSimulator2D num_beams' field_of_view' scan_std_dev' scan_max_range' cube_width'
       ray_tracing_epsilon' theta_discretization' seed normal raw =
     (let angle_increment' = field_of_view' / real_of_int (num_beams' - 1);
          slots = [0 ..< nat (theta_discretization' + 1)]
      in raw\<lparr>
        num_beams := num_beams',
        field_of_view := field_of_view',
        scan_std_dev := scan_std_dev',
        scan_max_range := scan_max_range',
        cube_width := cube_width',
        ray_tracing_epsilon := ray_tracing_epsilon',
        theta_discretization := theta_discretization',
        angle_increment := angle_increment',
        theta_index_increment :=
          real_of_int theta_discretization' * angle_increment' / (2 * pi),
        sines := map (\<lambda>i. sin (slot_theta theta_discretization' i)) slots,
        cosines := map (\<lambda>i. cos (slot_theta theta_discretization' i)) slots,
        arctanes := fst (arctanes_loop theta_discretization'),
        threshold := 5,
        scan_output := replicate (nat num_beams') 0,
        noise_generator := seed,
        noise_dist := normal scan_std_dev'\<rparr>)"

subsection \<open>The grid: coordinate transform and distance field\<close>

text \<open>\<open>row_col_to_cell\<close>: \<open>row * width + col\<close>, computed in \<open>size_t\<close>, returned as \<open>int\<close>.\<close>

definition row_col_to_cell :: "ScanSimulator2D \<Rightarrow> int \<Rightarrow> int \<Rightarrow> int" where
  "row_col_to_cell S row col =
     int_of_size_t ((size_t_of_int row * int (width S) + size_t_of_int col) mod 2 ^ 64)"

text \<open>\<open>xy_to_row_col\<close>; the result is the pair \<open>(row, col)\<close> it writes.\<close>

definition xy_to_row_col :: "ScanSimulator2D \<Rightarrow> real \<Rightarrow> real \<Rightarrow> int \<times> int" where
  "xy_to_row_col S x y =
     (let x_trans = x - pose_x (origin S);
          y_trans = y - pose_y (origin S);
          x_rot = x_trans * origin_c S + y_trans * origin_s S;
          y_rot = - x_trans * origin_s S + y_trans * origin_c S
      in if x_rot < 0 \<or> x_rot \<ge> real (width S) * resolution S
            \<or> y_rot < 0 \<or> y_rot \<ge> real (height S) * resolution S
         then (- 1, - 1)
         else (int_of_double (of_int \<lfloor>y_rot / resolution S\<rfloor>),
               int_of_double (of_int \<lfloor>x_rot / resolution S\<rfloor>)))"

definition xy_to_cell :: "ScanSimulator2D \<Rightarrow> real \<Rightarrow> real \<Rightarrow> int" where
  "xy_to_cell S x y = (case xy_to_row_col S x y of (row, col) \<Rightarrow> row_col_to_cell S row col)"

text \<open>\<open>distance_transform\<close>: the distance field at a world point.\<close>

definition distance_transform :: "ScanSimulator2D \<Rightarrow> real \<Rightarrow> real \<Rightarrow> fault + real" where
  "distance_transform S x y =
     (let cell = xy_to_cell S x y
      in if cell < 0 then Inr 0
         else if nat cell < length (dt S) then Inr (dt S ! nat cell)
         else Inl Grid_index_out_of_range)"

text \<open>
  \<open>set_map\<close>, the overload that replaces the whole map. \<open>distance_2d\<close> is the
  distance-transform routine of \<open>distance_transform.hpp\<close>, which is not part of this file:
  it is a parameter.
\<close>

definition threshold_map :: "real list \<Rightarrow> real \<Rightarrow> real list" where
  "threshold_map occupancy free_threshold =
     map (\<lambda>v. if 0 \<le> v \<and> v \<le> free_threshold then 99999 else 0) occupancy"

definition set_map ::
  "(real list \<Rightarrow> nat \<Rightarrow> nat \<Rightarrow> real \<Rightarrow> real list) \<Rightarrow> ScanSimulator2D \<Rightarrow> real list \<Rightarrow> nat \<Rightarrow> nat
     \<Rightarrow> real \<Rightarrow> Pose2D \<Rightarrow> real \<Rightarrow> ScanSimulator2D" where
  "set_map distance_2d S occupancy height' width' resolution' origin' free_threshold =
     S\<lparr>height := height',
       width := width',
       resolution := resolution',
       origin := origin',
       origin_c := cos (pose_theta origin'),
       origin_s := sin (pose_theta origin'),
       dt := distance_2d (threshold_map occupancy free_threshold) width' height' resolution'\<rparr>"

subsection \<open>The ray marcher\<close>

text \<open>
  The two loops of \<open>trace_ray\<close> ask the distance field through the member function
  \<open>distance_transform\<close> of the object; here they take that function as \<open>query\<close>, and
  \<open>trace_ray\<close> passes \<open>distance_transform S\<close>.

  The step back of lines 175 and 176, \<open>x -= 0.01 * c\<close>, in exact arithmetic. The machine
  rounds the product and the difference: when \<open>0.01 * c\<close> is small beside \<open>x\<close> (a table
  value \<open>c\<close> of magnitude \<open>1e-16\<close> stands where the exact sine or cosine is \<open>0\<close>) the
  machine's result is \<open>x\<close> itself. Whether the inner loop ends depends on the points the
  step back visits, so the loops take the step back as a parameter, \<open>retreat\<close>, and
  \<open>step_back\<close> is the exact one.
\<close>

definition step_back :: "real \<Rightarrow> real \<Rightarrow> real" where
  "step_back v u = v - 0.01 * u"

text \<open>
  The inner loop (lines 171 to 178): while the distance is \<open>0\<close>, step back by \<open>0.01\<close>
  along the beam and ask again. It returns the point reached and the accumulated \<open>error\<close>;
  it may not return.
\<close>

partial_function (option) back_off ::
  "(real \<Rightarrow> real \<Rightarrow> real) \<Rightarrow> (real \<Rightarrow> real \<Rightarrow> fault + real) \<Rightarrow> real \<Rightarrow> real \<Rightarrow> real \<Rightarrow> real
     \<Rightarrow> real \<Rightarrow> real \<Rightarrow> (fault + real \<times> real \<times> real) option" where
  "back_off retreat query c s x y error distance_to_nearest =
     (if distance_to_nearest = 0
      then (case query (retreat x c) (retreat y s) of
              Inl e \<Rightarrow> Some (Inl e)
            | Inr d \<Rightarrow> back_off retreat query c s (retreat x c) (retreat y s) (error + 0.01) d)
      else Some (Inr (x, y, error)))"

text \<open>
  The outer loop (lines 146 to 183): while the distance is not \<open>0\<close>, move by it along the
  beam and add the distance found there; on the first \<open>0\<close> run the inner loop, subtract
  its \<open>error\<close> and leave. It returns the end point and \<open>total_distance\<close>.
\<close>

partial_function (option) march ::
  "(real \<Rightarrow> real \<Rightarrow> real) \<Rightarrow> (real \<Rightarrow> real \<Rightarrow> fault + real) \<Rightarrow> real \<Rightarrow> real \<Rightarrow> real \<Rightarrow> real
     \<Rightarrow> real \<Rightarrow> real \<Rightarrow> (fault + real \<times> real \<times> real) option" where
  "march retreat query c s x y distance_to_nearest total_distance =
     (if distance_to_nearest \<noteq> 0
      then (case query (x + distance_to_nearest * c) (y + distance_to_nearest * s) of
              Inl e \<Rightarrow> Some (Inl e)
            | Inr d \<Rightarrow>
                if d = 0
                then (case back_off retreat query c s (x + distance_to_nearest * c)
                             (y + distance_to_nearest * s) 0 d of
                        None \<Rightarrow> None
                      | Some (Inl e) \<Rightarrow> Some (Inl e)
                      | Some (Inr (x', y', error)) \<Rightarrow>
                          Some (Inr (x', y', total_distance + d - error)))
                else march retreat query c s (x + distance_to_nearest * c)
                       (y + distance_to_nearest * s) d (total_distance + d))
      else Some (Inr (x, y, total_distance)))"

text \<open>
  Lines 142 to 183: the first query and the loop, for a given step back; and with the exact
  one, as \<open>trace_ray\<close> below has it.
\<close>

definition ray_march_with ::
  "(real \<Rightarrow> real \<Rightarrow> real) \<Rightarrow> (real \<Rightarrow> real \<Rightarrow> fault + real) \<Rightarrow> real \<Rightarrow> real \<Rightarrow> real \<Rightarrow> real
     \<Rightarrow> (fault + real \<times> real \<times> real) option" where
  "ray_march_with retreat query c s x y =
     (case query x y of
        Inl e \<Rightarrow> Some (Inl e)
      | Inr d \<Rightarrow> march retreat query c s x y d d)"

definition ray_march ::
  "(real \<Rightarrow> real \<Rightarrow> fault + real) \<Rightarrow> real \<Rightarrow> real \<Rightarrow> real \<Rightarrow> real
     \<Rightarrow> (fault + real \<times> real \<times> real) option" where
  "ray_march query c s x y = ray_march_with step_back query c s x y"

subsection \<open>The opponent\<close>

text \<open>
  One corner of the opponent's square (lines 193 to 205): the corner at \<open>n\<close> eighths of
  a turn from the opponent's heading, as \<open>(x, y)\<close>.
\<close>

definition corner :: "real \<Rightarrow> real \<Rightarrow> real \<Rightarrow> real \<Rightarrow> real \<Rightarrow> real \<times> real" where
  "corner cube_width' n opponent_X opponent_Y opponent_theta =
     (let center_to_corner = sqrt 2 * cube_width' / 2
      in (center_to_corner * cos (n * pi / 4 + opponent_theta) + opponent_X,
          center_to_corner * sin (n * pi / 4 + opponent_theta) + opponent_Y))"

text \<open>The test of lines 216 and 256: the table index of a beam along the x axis.\<close>

definition axis_beam :: "ScanSimulator2D \<Rightarrow> int \<Rightarrow> bool" where
  "axis_beam S theta_index' =
     (theta_index' = 0 \<or> theta_index' = theta_discretization S sdiv 2
        \<or> theta_index' = theta_discretization S)"

text \<open>
  Lines 188 and 216 to 226: the beam \<open>x = k y + b\<close> through the end point \<open>(x, y)\<close> has the
  four corners strictly on one side, so that \<open>trace_ray\<close> returns the marched distance.

  For the infinite slope the machine computes with infinities. \<open>k * y\<close> is \<open>+\<infinity>\<close> for
  \<open>y > 0\<close>, \<open>-\<infinity>\<close> for \<open>y < 0\<close> and NaN for \<open>y = 0\<close>, so \<open>b = x - k * y\<close> is the infinity of the
  opposite sign, or NaN; \<open>k * y1 + b\<close> is the infinity of \<open>k * y1\<close> when \<open>b\<close> is the same one,
  and NaN when \<open>b\<close> is the other one or NaN; and a comparison with NaN is false. So all
  four are greater than the corners' \<open>x\<close> exactly when all are \<open>+\<infinity>\<close>, and smaller exactly
  when all are \<open>-\<infinity>\<close>.
\<close>

definition beam_misses ::
  "ScanSimulator2D \<Rightarrow> int \<Rightarrow> slope \<Rightarrow> real \<Rightarrow> real \<Rightarrow> real
     \<Rightarrow> real \<Rightarrow> real \<Rightarrow> real \<Rightarrow> real \<Rightarrow> real \<Rightarrow> real \<Rightarrow> real \<Rightarrow> real \<Rightarrow> bool" where
  "beam_misses S theta_index' k x y original_y x1 y1 x2 y2 x3 y3 x4 y4 =
     (if axis_beam S theta_index'
      then (y1 > original_y \<and> y2 > original_y \<and> y3 > original_y \<and> y4 > original_y)
             \<or> (y1 < original_y \<and> y2 < original_y \<and> y3 < original_y \<and> y4 < original_y)
      else (case k of
              Finite k \<Rightarrow>
                (let b = x - k * y
                 in (k * y1 + b > x1 \<and> k * y2 + b > x2 \<and> k * y3 + b > x3 \<and> k * y4 + b > x4)
                      \<or> (k * y1 + b < x1 \<and> k * y2 + b < x2 \<and> k * y3 + b < x3
                            \<and> k * y4 + b < x4))
            | Infinite \<Rightarrow>
                (y < 0 \<and> y1 > 0 \<and> y2 > 0 \<and> y3 > 0 \<and> y4 > 0)
                  \<or> (y > 0 \<and> y1 < 0 \<and> y2 < 0 \<and> y3 < 0 \<and> y4 < 0)))"

text \<open>
  Lines 262 to 272: where the beam through the end point \<open>(x, y)\<close> meets the line through
  two corners, as \<open>(y, x)\<close>. Where the denominator is \<open>0\<close> (the line is parallel to the beam)
  the machine's quotient is an infinity or NaN, and for the infinite slope numerator and
  denominator are infinities or NaN and the quotient NaN; the filter of lines 284 to 287
  lets none of them pass. Then there is no point.
\<close>

definition intersection_point ::
  "slope \<Rightarrow> real \<Rightarrow> real \<Rightarrow> real \<times> real \<Rightarrow> real \<times> real \<Rightarrow> (real \<times> real) option" where
  "intersection_point k x y p q =
     (case (p, q) of ((x1, y1), (x2, y2)) \<Rightarrow>
        (case k of
           Infinite \<Rightarrow> None
         | Finite k \<Rightarrow>
             (let b = x - k * y
              in if k * y2 - k * y1 - x2 + x1 = 0 then None
                 else
                   (let iy = (y2 * x1 - y2 * b + y1 * b - y1 * x2) / (k * y2 - k * y1 - x2 + x1)
                    in Some (iy, k * iy + b)))))"

text \<open>
  The filter of lines 284 to 292 for one coordinate: \<open>v\<close> lies between \<open>p0\<close> and \<open>p1\<close>, up
  to \<open>ray_tracing_epsilon\<close>.
\<close>

definition between_eps :: "real \<Rightarrow> real \<Rightarrow> real \<Rightarrow> real \<Rightarrow> bool" where
  "between_eps eps p0 p1 v =
     ((p0 + eps \<ge> v \<and> v \<ge> p1 - eps) \<or> (p0 - eps \<le> v \<and> v \<le> p1 + eps))"

text \<open>
  Lines 278 to 299: the loop over the four edges. \<open>points\<close> holds \<open>[y, y', x, x']\<close> of each
  edge and \<open>array\<close> the \<open>(y, x)\<close> of each intersection point, where there is one.
\<close>

definition scan_to_square ::
  "ScanSimulator2D \<Rightarrow> real \<Rightarrow> real \<Rightarrow> real list list \<Rightarrow> (real \<times> real) option list \<Rightarrow> real" where
  "scan_to_square S original_x original_y points array =
     foldl (\<lambda>acc i.
        case array ! i of
          None \<Rightarrow> acc
        | Some (iy, ix) \<Rightarrow>
            if between_eps (ray_tracing_epsilon S) (points ! i ! 0) (points ! i ! 1) iy
            then if between_eps (ray_tracing_epsilon S) (points ! i ! 2) (points ! i ! 3) ix
                 then min acc (sqrt ((original_x - ix) ^ 2 + (original_y - iy) ^ 2))
                 else acc
            else acc)
       (scan_max_range S) [0, 1, 2, 3]"

text \<open>
  Lines 188 to 302: what \<open>trace_ray\<close> does once the marcher has returned the end point
  \<open>(x, y)\<close> and \<open>total_distance\<close>. The result is the range and the updated object.
\<close>

definition opponent_range ::
  "ScanSimulator2D \<Rightarrow> int \<Rightarrow> slope \<Rightarrow> real \<Rightarrow> real \<Rightarrow> real \<Rightarrow> real \<Rightarrow> real \<Rightarrow> real \<Rightarrow> real \<Rightarrow> real
     \<Rightarrow> real \<times> ScanSimulator2D" where
  "opponent_range S theta_index' k original_x original_y x y total_distance
       opponent_X opponent_Y opponent_theta =
     (let p1 = corner (cube_width S) 1 opponent_X opponent_Y opponent_theta;
          p2 = corner (cube_width S) 3 opponent_X opponent_Y opponent_theta;
          p3 = corner (cube_width S) 5 opponent_X opponent_Y opponent_theta;
          p4 = corner (cube_width S) 7 opponent_X opponent_Y opponent_theta;
          x1 = fst p1; y1 = snd p1; x2 = fst p2; y2 = snd p2;
          x3 = fst p3; y3 = snd p3; x4 = fst p4; y4 = snd p4;
          points = [[y1, y2, x1, x2], [y2, y3, x2, x3], [y3, y4, x3, x4], [y4, y1, x4, x1]]
      in if beam_misses S theta_index' k x y original_y x1 y1 x2 y2 x3 y3 x4 y4
         then (min total_distance (scan_max_range S), S)
         else
           (let this_to_opponent =
                  sqrt ((original_x - opponent_X) ^ 2 + (original_y - opponent_Y) ^ 2)
            in if this_to_opponent < total_distance
               then
                 (let obstacle_to_opponent = sqrt ((x - opponent_X) ^ 2 + (y - opponent_Y) ^ 2)
                  in if obstacle_to_opponent < total_distance
                     then
                       (let S' = (if flag_can_see_opponent S \<and> this_to_opponent < threshold S
                                  then S\<lparr>can_see_opponent := True, flag_can_see_opponent := False\<rparr>
                                  else S)
                        in if axis_beam S theta_index'
                           then (min (this_to_opponent - cube_width S / 2) (scan_max_range S), S')
                           else
                             (let array = [intersection_point k x y (x1, y1) (x2, y2),
                                           intersection_point k x y (x2, y2) (x3, y3),
                                           intersection_point k x y (x3, y3) (x4, y4),
                                           intersection_point k x y (x4, y4) (x1, y1)]
                              in (scan_to_square S original_x original_y points array, S')))
                     else (min total_distance (scan_max_range S), S))
               else (min total_distance (scan_max_range S), S)))"

subsection \<open>\<open>trace_ray\<close>\<close>

text \<open>Line 130: the table index of a beam, \<open>theta_index + 0.5\<close> converted to \<open>int\<close>.\<close>

definition table_index :: "real \<Rightarrow> int" where
  "table_index theta_index = int_of_double (theta_index + 0.5)"

text \<open>An index is inside the three tables.\<close>

definition in_tables :: "ScanSimulator2D \<Rightarrow> int \<Rightarrow> bool" where
  "in_tables S i =
     (0 \<le> i \<and> nat i < length (sines S) \<and> nat i < length (cosines S)
        \<and> nat i < length (arctanes S))"

definition trace_ray ::
  "ScanSimulator2D \<Rightarrow> real \<Rightarrow> real \<Rightarrow> real \<Rightarrow> real \<Rightarrow> real \<Rightarrow> real
     \<Rightarrow> (fault + real \<times> ScanSimulator2D) option" where
  "trace_ray S x y theta_index opponent_X opponent_Y opponent_theta =
     (let theta_index' = table_index theta_index
      in if \<not> in_tables S theta_index' then Some (Inl Table_index_out_of_range)
         else
           (let s = sines S ! nat theta_index';
                c = cosines S ! nat theta_index';
                k = arctanes S ! nat theta_index'
            in case ray_march (distance_transform S) c s x y of
                 None \<Rightarrow> None
               | Some (Inl e) \<Rightarrow> Some (Inl e)
               | Some (Inr (x', y', total_distance)) \<Rightarrow>
                   Some (Inr (opponent_range S theta_index' k x y x' y' total_distance
                                opponent_X opponent_Y opponent_theta))))"

subsection \<open>\<open>scan\<close>\<close>

text \<open>Lines 121 and 122: the index is brought below \<open>theta_discretization\<close> by subtraction.\<close>

partial_function (option) wrap_index :: "real \<Rightarrow> real \<Rightarrow> real option" where
  "wrap_index td theta_index =
     (if theta_index \<ge> td then wrap_index td (theta_index - td) else Some theta_index)"

text \<open>
  Lines 108 to 123: the loop over the beams, with \<open>n\<close> beams still to do and \<open>i\<close> the
  next one. \<open>scan_data\<close> is the buffer the ranges are written to.
\<close>

fun scan_beams ::
  "nat \<Rightarrow> ScanSimulator2D \<Rightarrow> Pose2D \<Rightarrow> Pose2D \<Rightarrow> nat \<Rightarrow> real \<Rightarrow> real list
     \<Rightarrow> (fault + real list \<times> ScanSimulator2D) option" where
  "scan_beams 0 S pose opponent_pose i theta_index scan_data = Some (Inr (scan_data, S))"
| "scan_beams (Suc n) S pose opponent_pose i theta_index scan_data =
     (case trace_ray S (pose_x pose) (pose_y pose) theta_index
             (pose_x opponent_pose) (pose_y opponent_pose) (pose_theta opponent_pose) of
        None \<Rightarrow> None
      | Some (Inl e) \<Rightarrow> Some (Inl e)
      | Some (Inr (r, S1)) \<Rightarrow>
          if i \<ge> length scan_data then Some (Inl Buffer_index_out_of_range)
          else
            (let (r', S2) =
                   (if scan_std_dev S1 > 0
                    then (case noise_dist S1 (noise_generator S1) of
                            (z, g) \<Rightarrow> (r + z, S1\<lparr>noise_generator := g\<rparr>))
                    else (r, S1))
             in case wrap_index (real_of_int (theta_discretization S2))
                       (theta_index + theta_index_increment S2) of
                  None \<Rightarrow> None
                | Some theta_index' \<Rightarrow>
                    scan_beams n S2 pose opponent_pose (Suc i) theta_index'
                      (scan_data[i := r'])))"

text \<open>
  Lines 98 to 104: the index of the first beam, in exact arithmetic. (On the machine the
  product of line 98 is infinite for a heading of magnitude beyond about \<open>1e308\<close> divided
  by \<open>theta_discretization\<close>; then \<open>fmod\<close> gives NaN and there is no index.)
\<close>

definition start_index :: "ScanSimulator2D \<Rightarrow> Pose2D \<Rightarrow> real" where
  "start_index S pose =
     (let theta_index = real_of_int (theta_discretization S)
                          * (pose_theta pose - field_of_view S / 2) / (2 * pi);
          theta_index = fmod theta_index (real_of_int (theta_discretization S))
      in if theta_index < 0 then theta_index + real_of_int (theta_discretization S)
         else theta_index)"

text \<open>
  The overload of \<open>scan\<close> that writes into the caller's buffer (lines 91 to 124). It
  takes no flag and writes neither of the two visibility members itself.
\<close>

definition scan_into ::
  "ScanSimulator2D \<Rightarrow> Pose2D \<Rightarrow> Pose2D \<Rightarrow> real list
     \<Rightarrow> (fault + real list \<times> ScanSimulator2D) option" where
  "scan_into S pose opponent_pose scan_data =
     scan_beams (nat (num_beams S)) S pose opponent_pose 0 (start_index S pose) scan_data"

text \<open>
  The overload of \<open>scan\<close> that takes the flag (lines 79 to 89): it sets the two
  visibility members, scans into \<open>scan_output\<close> and returns a copy of it.
\<close>

definition scan ::
  "ScanSimulator2D \<Rightarrow> Pose2D \<Rightarrow> Pose2D \<Rightarrow> bool \<Rightarrow> (fault + real list \<times> ScanSimulator2D) option" where
  "scan S pose opponent_pose flag =
     (let S1 = S\<lparr>flag_can_see_opponent := flag, can_see_opponent := False\<rparr>
      in case scan_into S1 pose opponent_pose (scan_output S1) of
           None \<Rightarrow> None
         | Some (Inl e) \<Rightarrow> Some (Inl e)
         | Some (Inr (scan_data, S2)) \<Rightarrow> Some (Inr (scan_data, S2\<lparr>scan_output := scan_data\<rparr>)))"

definition see_opponent :: "ScanSimulator2D \<Rightarrow> bool" where
  "see_opponent S = can_see_opponent S"

subsection \<open>The coordinate transform as the specification words it\<close>

text \<open>
  This definition follows the specification, not the code: translate by the grid origin's
  position, rotate by the negative of the origin's heading, and give no cell outside
  \<open>[0, width \<sqdot> resolution) \<times> [0, height \<sqdot> resolution)\<close>; inside, the row, the column and the
  cell index \<open>row \<sqdot> width + col\<close>.
\<close>

definition coordinate_transform_spec ::
  "ScanSimulator2D \<Rightarrow> real \<Rightarrow> real \<Rightarrow> (int \<times> int \<times> int) option" where
  "coordinate_transform_spec S x y =
     (let a = - pose_theta (origin S);
          x_t = x - pose_x (origin S);
          y_t = y - pose_y (origin S);
          x_rot = x_t * cos a - y_t * sin a;
          y_rot = x_t * sin a + y_t * cos a
      in if 0 \<le> x_rot \<and> x_rot < real (width S) * resolution S
            \<and> 0 \<le> y_rot \<and> y_rot < real (height S) * resolution S
         then Some (\<lfloor>y_rot / resolution S\<rfloor>, \<lfloor>x_rot / resolution S\<rfloor>,
                    \<lfloor>y_rot / resolution S\<rfloor> * int (width S) + \<lfloor>x_rot / resolution S\<rfloor>)
         else None)"

subsection \<open>Notions used to state the properties\<close>

text \<open>
  The grid coordinates of a world point, as \<open>xy_to_row_col\<close> computes them (lines 320 to
  330), and the test of line 333 that the point is inside the map.
\<close>

definition x_rot :: "ScanSimulator2D \<Rightarrow> real \<Rightarrow> real \<Rightarrow> real" where
  "x_rot S x y = (x - pose_x (origin S)) * origin_c S + (y - pose_y (origin S)) * origin_s S"

definition y_rot :: "ScanSimulator2D \<Rightarrow> real \<Rightarrow> real \<Rightarrow> real" where
  "y_rot S x y = - (x - pose_x (origin S)) * origin_s S + (y - pose_y (origin S)) * origin_c S"

definition in_map :: "ScanSimulator2D \<Rightarrow> real \<Rightarrow> real \<Rightarrow> bool" where
  "in_map S x y =
     (0 \<le> x_rot S x y \<and> x_rot S x y < real (width S) * resolution S
        \<and> 0 \<le> y_rot S x y \<and> y_rot S x y < real (height S) * resolution S)"

text \<open>
  The grid fits the \<open>int\<close> that indexes it, and the distance field has one value for each
  cell.
\<close>

definition grid_fits :: "ScanSimulator2D \<Rightarrow> bool" where
  "grid_fits S =
     (int (width S) < 2 ^ 31 \<and> int (width S) * int (height S) < 2 ^ 31
        \<and> length (dt S) = width S * height S)"

text \<open>The value the distance field holds at a world point, \<open>0\<close> outside the map.\<close>

definition field_at :: "ScanSimulator2D \<Rightarrow> real \<Rightarrow> real \<Rightarrow> real" where
  "field_at S x y =
     (if in_map S x y
      then dt S ! nat (\<lfloor>y_rot S x y / resolution S\<rfloor> * int (width S)
                         + \<lfloor>x_rot S x y / resolution S\<rfloor>)
      else 0)"

subsection \<open>A small arena\<close>

text \<open>
  Storage before the constructor has run: every member zero or empty.
\<close>

definition blank :: ScanSimulator2D where
  "blank = \<lparr>num_beams = 0, field_of_view = 0, scan_std_dev = 0, scan_max_range = 0,
     cube_width = 0, ray_tracing_epsilon = 0, theta_discretization = 0, angle_increment = 0,
     theta_index_increment = 0, sines = [], cosines = [], arctanes = [], threshold = 0,
     scan_output = [], noise_generator = 0, noise_dist = (\<lambda>g. (0, g)),
     flag_can_see_opponent = False, can_see_opponent = False, height = 0, width = 0,
     resolution = 0, origin = \<lparr>pose_x = 0, pose_y = 0, pose_theta = 0\<rparr>,
     origin_c = 0, origin_s = 0, dt = []\<rparr>"

text \<open>
  The distance field of a grid of five by five cells of side \<open>1\<close> whose border cells are
  occupied: the distance of each cell to the nearest border cell, row by row.
\<close>

definition arena_dt :: "real list" where
  "arena_dt = [0, 0, 0, 0, 0,
               0, 1, 1, 1, 0,
               0, 1, 2, 1, 0,
               0, 1, 1, 1, 0,
               0, 0, 0, 0, 0]"

text \<open>
  A simulator of two beams over a quarter turn, without noise, with range \<open>10\<close>, an opponent
  of side \<open>1\<close> and a table of four slots to the turn, holding that grid at the origin
  with heading \<open>0\<close>. A sample of the distribution is \<open>1\<close> and advances the generator by one.
\<close>

definition arena :: ScanSimulator2D where
  "arena = (ScanSimulator2D 2 (pi / 2) 0 10 1 (1 / 10000) 4 0 (\<lambda>sd g. (1, Suc g)) blank)
     \<lparr>height := 5, width := 5, resolution := 1,
      origin := \<lparr>pose_x = 0, pose_y = 0, pose_theta = 0\<rparr>,
      origin_c := cos 0, origin_s := sin 0, dt := arena_dt\<rparr>"

text \<open>The pose of the sensor in the examples: heading \<open>0\<close> at \<open>(2.005, 2.005)\<close>.\<close>

definition sensor :: Pose2D where
  "sensor = \<lparr>pose_x = 401 / 200, pose_y = 401 / 200, pose_theta = 0\<rparr>"

text \<open>
  Four poses of the opponent, all with heading \<open>0\<close>: on the first beam between the sensor
  and the wall; in a corner, off both beams; so near that the sensor is inside its square;
  and on the second beam between the sensor and the wall.
\<close>

definition opponent_near :: Pose2D where
  "opponent_near = \<lparr>pose_x = 3, pose_y = 401 / 200, pose_theta = 0\<rparr>"

definition opponent_far :: Pose2D where
  "opponent_far = \<lparr>pose_x = 1 / 2, pose_y = 1 / 2, pose_theta = 0\<rparr>"

definition opponent_inside :: Pose2D where
  "opponent_inside = \<lparr>pose_x = 451 / 200, pose_y = 401 / 200, pose_theta = 0\<rparr>"

definition opponent_ahead :: Pose2D where
  "opponent_ahead = \<lparr>pose_x = 401 / 200, pose_y = 16 / 5, pose_theta = 0\<rparr>"

text \<open>
  A finer grid: one row of three cells of side \<open>0.004\<close>, the middle one free and the other
  two occupied, with the distance field of that row. Everything else is as in the arena.
\<close>

definition strip :: ScanSimulator2D where
  "strip = arena\<lparr>height := 1, width := 3, resolution := 1 / 250, dt := [0, 1 / 250, 0]\<rparr>"

text \<open>
  A step back with the one effect of the machine's rounding that matters to the back-off
  loop: a decrement of magnitude below \<open>2\<^sup>-\<^sup>5\<^sup>4\<close> of the coordinate is less than half a
  unit in its last place, and the difference rounds to the coordinate itself. Elsewhere
  the step is the exact one.
\<close>

definition rounded_step_back :: "real \<Rightarrow> real \<Rightarrow> real" where
  "rounded_step_back v u = (if \<bar>0.01 * u\<bar> * 2 ^ 54 < \<bar>v\<bar> then v else v - 0.01 * u)"

text \<open>
  A coarser one: one row of two cells of side \<open>0.025\<close>, the left one free and the right
  one occupied, with the distance field of that row; and a sensor in the free cell,
  \<open>0.003\<close> from the occupied one, with heading \<open>0\<close>.
\<close>

definition wall :: ScanSimulator2D where
  "wall = arena\<lparr>height := 1, width := 2, resolution := 1 / 40, dt := [1 / 40, 0]\<rparr>"

definition wall_sensor :: Pose2D where
  "wall_sensor = \<lparr>pose_x = 11 / 500, pose_y = 1 / 80, pose_theta = 0\<rparr>"

text \<open>
  The arena with a simulator whose field of view is \<open>- pi\<close>: its two beams are half a turn
  apart, the second clockwise from the first. The sensor stands where it stood, with
  heading \<open>- pi / 2\<close>.
\<close>

definition arena_reversed :: ScanSimulator2D where
  "arena_reversed =
     (ScanSimulator2D 2 (- pi) 0 10 1 (1 / 10000) 4 0 (\<lambda>sd g. (1, Suc g)) blank)
     \<lparr>height := 5, width := 5, resolution := 1,
      origin := \<lparr>pose_x = 0, pose_y = 0, pose_theta = 0\<rparr>,
      origin_c := cos 0, origin_s := sin 0, dt := arena_dt\<rparr>"

definition sensor_turned :: Pose2D where
  "sensor_turned = \<lparr>pose_x = 401 / 200, pose_y = 401 / 200, pose_theta = - pi / 2\<rparr>"

text \<open>
  A corridor: one row of sixteen cells of side \<open>1\<close> whose two end cells are occupied, with
  the distance field of that row. The simulator has two beams over a sixteenth of a turn,
  which the table of four slots both rounds to \<open>+x\<close> for a sensor of heading \<open>0\<close>. The sensor
  stands near the left end and the opponent in the middle, further from the sensor than the
  threshold \<open>5\<close>.
\<close>

definition corridor_dt :: "real list" where
  "corridor_dt = [0, 1, 2, 3, 4, 5, 6, 7, 7, 6, 5, 4, 3, 2, 1, 0]"

definition corridor :: ScanSimulator2D where
  "corridor = (ScanSimulator2D 2 (pi / 8) 0 10 1 (1 / 10000) 4 0 (\<lambda>sd g. (1, Suc g)) blank)
     \<lparr>height := 1, width := 16, resolution := 1,
      origin := \<lparr>pose_x = 0, pose_y = 0, pose_theta = 0\<rparr>,
      origin_c := cos 0, origin_s := sin 0, dt := corridor_dt\<rparr>"

definition corridor_sensor :: Pose2D where
  "corridor_sensor = \<lparr>pose_x = 201 / 200, pose_y = 1 / 2, pose_theta = 0\<rparr>"

definition opponent_distant :: Pose2D where
  "opponent_distant = \<lparr>pose_x = 8, pose_y = 1 / 2, pose_theta = 0\<rparr>"

text \<open>
  The conjunction of the tests of lines 216 to 247 under which \<open>trace_ray\<close> reaches line
  250: the beam does not miss the opponent, and the opponent's centre is nearer than
  \<open>total_distance\<close> both to the start \<open>(original_x, original_y)\<close> and to the end \<open>(x, y)\<close>
  of the beam.
\<close>

definition beam_meets_opponent ::
  "ScanSimulator2D \<Rightarrow> int \<Rightarrow> slope \<Rightarrow> real \<Rightarrow> real \<Rightarrow> real \<Rightarrow> real \<Rightarrow> real \<Rightarrow> real \<Rightarrow> real \<Rightarrow> real
     \<Rightarrow> bool" where
  "beam_meets_opponent S theta_index' k original_x original_y x y total_distance
       opponent_X opponent_Y opponent_theta =
     (\<not> beam_misses S theta_index' k x y original_y
          (fst (corner (cube_width S) 1 opponent_X opponent_Y opponent_theta))
          (snd (corner (cube_width S) 1 opponent_X opponent_Y opponent_theta))
          (fst (corner (cube_width S) 3 opponent_X opponent_Y opponent_theta))
          (snd (corner (cube_width S) 3 opponent_X opponent_Y opponent_theta))
          (fst (corner (cube_width S) 5 opponent_X opponent_Y opponent_theta))
          (snd (corner (cube_width S) 5 opponent_X opponent_Y opponent_theta))
          (fst (corner (cube_width S) 7 opponent_X opponent_Y opponent_theta))
          (snd (corner (cube_width S) 7 opponent_X opponent_Y opponent_theta))
      \<and> sqrt ((original_x - opponent_X) ^ 2 + (original_y - opponent_Y) ^ 2) < total_distance
      \<and> sqrt ((x - opponent_X) ^ 2 + (y - opponent_Y) ^ 2) < total_distance)"

text \<open>
  The same for a call of \<open>trace_ray\<close>: the index is inside the tables, the marcher returns,
  and the beam it returns meets the opponent.
\<close>

definition ray_meets_opponent ::
  "ScanSimulator2D \<Rightarrow> real \<Rightarrow> real \<Rightarrow> real \<Rightarrow> real \<Rightarrow> real \<Rightarrow> real \<Rightarrow> bool" where
  "ray_meets_opponent S x y theta_index opponent_X opponent_Y opponent_theta =
     (let i = table_index theta_index
      in in_tables S i \<and>
         (case ray_march (distance_transform S) (cosines S ! nat i) (sines S ! nat i) x y of
            Some (Inr (x', y', total_distance)) \<Rightarrow>
              beam_meets_opponent S i (arctanes S ! nat i) x y x' y' total_distance
                opponent_X opponent_Y opponent_theta
          | _ \<Rightarrow> False))"

text \<open>
  What a scan reads and never writes: the object with its output buffer, its random
  generator and its two visibility members blanked. Two objects with the same \<open>fixed_part\<close> have
  the same configuration, the same tables and the same map.
\<close>

definition fixed_part :: "ScanSimulator2D \<Rightarrow> ScanSimulator2D" where
  "fixed_part S = S\<lparr>scan_output := [], noise_generator := 0, noise_dist := (\<lambda>g. (0, g)),
               flag_can_see_opponent := False, can_see_opponent := False\<rparr>"

text \<open>
  The index \<open>theta_index\<close> with which the loop of \<open>scan\<close> calls \<open>trace_ray\<close> for beam \<open>j\<close>,
  when it starts from \<open>theta_index\<close> at beam \<open>0\<close> (lines 117 to 122, repeated \<open>j\<close> times).
\<close>

fun beam_theta :: "ScanSimulator2D \<Rightarrow> real \<Rightarrow> nat \<Rightarrow> real option" where
  "beam_theta S theta_index 0 = Some theta_index"
| "beam_theta S theta_index (Suc j) =
     (case wrap_index (real_of_int (theta_discretization S))
             (theta_index + theta_index_increment S) of
        None \<Rightarrow> None
      | Some theta_index' \<Rightarrow> beam_theta S theta_index' j)"

text \<open>The ranges a scan returns, without the object.\<close>

definition ranges_of ::
  "(fault + real list \<times> ScanSimulator2D) option \<Rightarrow> (fault + real list) option" where
  "ranges_of r = map_option (map_sum id fst) r"

text \<open>
  The angle cache as the constructor leaves it for a positive \<open>theta_discretization\<close> that
  leaves room for \<open>theta_discretization + 1\<close> in an \<open>int\<close>, and a step per beam that is not
  negative: three tables of \<open>theta_discretization + 1\<close> slots.
\<close>

definition angle_cache_ok :: "ScanSimulator2D \<Rightarrow> bool" where
  "angle_cache_ok S =
     (0 < theta_discretization S \<and> theta_discretization S < 2 ^ 31 - 1
        \<and> 0 \<le> theta_index_increment S
        \<and> length (sines S) = nat (theta_discretization S + 1)
        \<and> length (cosines S) = nat (theta_discretization S + 1)
        \<and> length (arctanes S) = nat (theta_discretization S + 1))"

text \<open>
  The outer loop of the marcher without its correction (lines 146 to 162): it moves along
  the beam by the distance found, adds the next one, and ends at the first point where
  the query is \<open>0\<close>. It returns that point and \<open>total_distance\<close>. \<open>reach\<close> is the first
  query followed by it.
\<close>

partial_function (option) advance ::
  "(real \<Rightarrow> real \<Rightarrow> fault + real) \<Rightarrow> real \<Rightarrow> real \<Rightarrow> real \<Rightarrow> real \<Rightarrow> real \<Rightarrow> real
     \<Rightarrow> (fault + real \<times> real \<times> real) option" where
  "advance query c s x y distance_to_nearest total_distance =
     (if distance_to_nearest \<noteq> 0
      then (case query (x + distance_to_nearest * c) (y + distance_to_nearest * s) of
              Inl e \<Rightarrow> Some (Inl e)
            | Inr d \<Rightarrow> advance query c s (x + distance_to_nearest * c)
                       (y + distance_to_nearest * s) d (total_distance + d))
      else Some (Inr (x, y, total_distance)))"

definition reach ::
  "(real \<Rightarrow> real \<Rightarrow> fault + real) \<Rightarrow> real \<Rightarrow> real \<Rightarrow> real \<Rightarrow> real
     \<Rightarrow> (fault + real \<times> real \<times> real) option" where
  "reach query c s x y =
     (case query x y of
        Inl e \<Rightarrow> Some (Inl e)
      | Inr d \<Rightarrow> advance query c s x y d d)"

text \<open>
  The point at which the back-off loop started at \<open>(x, y)\<close> asks its \<open>n\<close>-th query: \<open>n\<close>
  steps back from \<open>(x, y)\<close>.
\<close>

fun back_point :: "(real \<Rightarrow> real \<Rightarrow> real) \<Rightarrow> real \<Rightarrow> real \<Rightarrow> real \<Rightarrow> real \<Rightarrow> nat \<Rightarrow> real \<times> real" where
  "back_point retreat c s x y 0 = (x, y)"
| "back_point retreat c s x y (Suc n) = back_point retreat c s (retreat x c) (retreat y s) n"

text \<open>The value of the distance field at a point given as a pair.\<close>

definition field_at_point :: "ScanSimulator2D \<Rightarrow> real \<times> real \<Rightarrow> real" where
  "field_at_point S p = field_at S (fst p) (snd p)"

text \<open>
  The states of an object from its first call of the overload of \<open>scan\<close> that takes the
  flag: the state that call returns, whatever the state before it, and every state that a
  later call of either overload of \<open>scan\<close> or of \<open>set_map\<close> returns. (The second overload
  of \<open>set_map\<close>, lines 355 to 364, is not modelled; of the members it writes only \<open>dt\<close>.)
  The constructor writes neither of the two visibility members: before that first call
  they hold what their declaration in the header, which is not among the sources, gives
  them.
\<close>

inductive scanned :: "ScanSimulator2D \<Rightarrow> bool" where
  scan_returned:
    "scan S pose opponent_pose flag = Some (Inr (out, S')) \<Longrightarrow> scanned S'"
| scan_into_returned:
    "scanned S \<Longrightarrow> scan_into S pose opponent_pose scan_data = Some (Inr (out, S'))
       \<Longrightarrow> scanned S'"
| set_map_returned:
    "scanned S \<Longrightarrow>
       scanned (set_map distance_2d S occupancy height' width' resolution' origin' free_threshold)"
| values_replaced:
    "scanned S \<Longrightarrow> scanned (S\<lparr>dt := values\<rparr>)"
section \<open>Properties\<close>

subsection \<open>Conversions\<close>

lemma trunc_real_of_int: "trunc_real (of_int z) = z"
  by (simp add: trunc_real_def)

lemma int_of_double_of_int:
  "- (2 ^ 31) \<le> z \<Longrightarrow> z < 2 ^ 31 \<Longrightarrow> int_of_double (of_int z) = z"
  by (simp add: int_of_double_def trunc_real_of_int Let_def)

lemma row_col_to_cell_in_range:
  assumes "0 \<le> row" "row < int (height S)" "0 \<le> col" "col < int (width S)"
    and "int (width S) * int (height S) < 2 ^ 31"
  shows "row_col_to_cell S row col = row * int (width S) + col"
    and "0 \<le> row * int (width S) + col"
    and "row * int (width S) + col < int (width S) * int (height S)"
proof -
  let ?w = "int (width S)" and ?h = "int (height S)"
  show nonneg: "0 \<le> row * ?w + col" using assms by simp
  have "row * ?w + col \<le> (?h - 1) * ?w + col"
    using assms by (intro add_right_mono mult_right_mono) auto
  also have "\<dots> < ?h * ?w" using assms by (simp add: algebra_simps)
  finally show lt: "row * ?w + col < ?w * ?h" by (simp add: mult.commute)
  have b: "row * ?w + col < 2147483648" using lt assms(5) by simp
  have "row * 1 \<le> row * ?w" using assms by (intro mult_left_mono) auto
  then have r: "row < 2147483648" using b assms by linarith
  have "0 \<le> row * ?w" using assms by simp
  then have c: "col < 2147483648" using b by linarith
  show "row_col_to_cell S row col = row * ?w + col"
    using nonneg b r c assms by (simp add: row_col_to_cell_def size_t_of_int_def int_of_size_t_def)
qed

lemma row_col_to_cell_sentinel:
  assumes "int (width S) < 2 ^ 31"
  shows "row_col_to_cell S (- 1) (- 1) = - int (width S) - 1"
proof -
  let ?w = "int (width S)"
  have w: "0 \<le> ?w" "?w < 2147483648" using assms by simp_all
  have m1: "size_t_of_int (- 1) = 18446744073709551615"
    by (simp add: size_t_of_int_def)
  have "(18446744073709551615 * ?w + 18446744073709551615) mod 18446744073709551616
          = 18446744073709551615 - ?w"
    by (rule int_mod_pos_eq [where q = "?w"]) (use w in simp_all)
  moreover have "(18446744073709551615 - ?w + 2147483648) mod 4294967296 = 2147483647 - ?w"
    by (rule int_mod_pos_eq [where q = 4294967296]) (use w in simp_all)
  ultimately show ?thesis
    by (simp add: row_col_to_cell_def m1 int_of_size_t_def)
qed


subsection \<open>The constructor's tables\<close>

lemma cot_guard_vacuous: "cot_guard th"
  using pi_gt_zero by (auto simp: cot_guard_def)

text \<open>The loop over the slots, by induction on the number of slots done.\<close>

lemma arctanes_loop_prefix:
  "m \<le> n \<Longrightarrow>
   foldl (\<lambda>(v, assigned) i.
            let theta = slot_theta td i
            in if cot_guard theta then (v[i := cotangent theta], assigned @ [i])
               else (v, assigned))
     (replicate n (Finite 0), []) [0 ..< m]
   = (map (\<lambda>i. cotangent (slot_theta td i)) [0 ..< m] @ replicate (n - m) (Finite 0), [0 ..< m])"
proof (induction m)
  case 0
  show ?case by simp
next
  case (Suc m)
  then have m: "m < n" by simp
  let ?done = "map (\<lambda>i. cotangent (slot_theta td i)) [0 ..< m]"
  have e: "n - m = Suc (n - Suc m)" using m by arith
  have r: "replicate (n - m) (Finite 0) = Finite 0 # replicate (n - Suc m) (Finite 0)"
    by (subst e) (rule replicate_Suc)
  have "(?done @ replicate (n - m) (Finite 0))[m := cotangent (slot_theta td m)]
          = ?done @ cotangent (slot_theta td m) # replicate (n - Suc m) (Finite 0)"
    unfolding r by (simp add: list_update_append)
  with Suc.IH m show ?case
    by (simp add: cot_guard_vacuous Let_def)
qed

lemma arctanes_loop_eq:
  "arctanes_loop td
     = (map (\<lambda>i. cotangent (slot_theta td i)) [0 ..< nat (td + 1)], [0 ..< nat (td + 1)])"
  unfolding arctanes_loop_def by (simp add: arctanes_loop_prefix)

lemma arctanes_ctor:
  "arctanes (ScanSimulator2D nb fov sd mr cw eps td seed normal raw)
     = map (\<lambda>i. cotangent (slot_theta td i)) [0 ..< nat (td + 1)]"
  by (simp add: ScanSimulator2D_def Let_def arctanes_loop_eq)

subsection \<open>The coordinate transform and the distance field\<close>

lemma floor_div_in_range:
  fixes v res :: real and n :: nat
  assumes "0 \<le> v" "v < real n * res"
  shows "0 < res" and "0 \<le> \<lfloor>v / res\<rfloor>" and "\<lfloor>v / res\<rfloor> < int n"
proof -
  show res: "0 < res"
  proof (rule ccontr)
    assume "\<not> 0 < res"
    then have "real n * res \<le> 0" by (simp add: mult_nonneg_nonpos)
    with assms show False by linarith
  qed
  show "0 \<le> \<lfloor>v / res\<rfloor>" using assms(1) res by simp
  have "v / res < real n" using assms(2) res by (simp add: pos_divide_less_eq)
  then show "\<lfloor>v / res\<rfloor> < int n" by (simp add: floor_less_iff)
qed

lemma xy_to_row_col_eq:
  "xy_to_row_col S x y =
     (if in_map S x y
      then (int_of_double (of_int \<lfloor>y_rot S x y / resolution S\<rfloor>),
            int_of_double (of_int \<lfloor>x_rot S x y / resolution S\<rfloor>))
      else (- 1, - 1))"
  unfolding xy_to_row_col_def Let_def in_map_def x_rot_def y_rot_def
  by (simp add: not_less not_le)

lemma outside_map:
  assumes "int (width S) < 2 ^ 31" "\<not> in_map S x y"
  shows "xy_to_row_col S x y = (- 1, - 1)" and "xy_to_cell S x y = - int (width S) - 1"
  using assms row_col_to_cell_sentinel [OF assms(1)]
  by (simp_all add: xy_to_row_col_eq xy_to_cell_def)

lemma inside_map:
  assumes "int (width S) < 2 ^ 31" "int (width S) * int (height S) < 2 ^ 31" "in_map S x y"
  defines "row \<equiv> \<lfloor>y_rot S x y / resolution S\<rfloor>" and "col \<equiv> \<lfloor>x_rot S x y / resolution S\<rfloor>"
  shows "xy_to_row_col S x y = (row, col)"
    and "xy_to_cell S x y = row * int (width S) + col"
    and "0 \<le> row * int (width S) + col"
    and "row * int (width S) + col < int (width S) * int (height S)"
    and "0 \<le> row" and "0 \<le> col" and "0 < resolution S"
proof -
  from assms(3) have xr: "0 \<le> x_rot S x y" "x_rot S x y < real (width S) * resolution S"
    and yr: "0 \<le> y_rot S x y" "y_rot S x y < real (height S) * resolution S"
    by (simp_all add: in_map_def)
  show "0 < resolution S" by (rule floor_div_in_range(1) [OF xr])
  have col: "0 \<le> col" "col < int (width S)"
    unfolding col_def using floor_div_in_range(2,3) [OF xr] by simp_all
  have row: "0 \<le> row" "row < int (height S)"
    unfolding row_def using floor_div_in_range(2,3) [OF yr] by simp_all
  show "0 \<le> row" "0 \<le> col" by fact+
  note cell = row_col_to_cell_in_range [OF row col assms(2)]
  show "0 \<le> row * int (width S) + col"
    and "row * int (width S) + col < int (width S) * int (height S)" by (rule cell)+
  have "1 \<le> int (width S)" using col by linarith
  then have "row * 1 \<le> row * int (width S)" using row by (intro mult_left_mono)
  then have "row < 2 ^ 31" using cell(3) assms(2) col by linarith
  then have r: "int_of_double (of_int row) = row"
    using row by (intro int_of_double_of_int) auto
  have "col < 2 ^ 31" using col assms(1) by linarith
  then have c: "int_of_double (of_int col) = col"
    using col by (intro int_of_double_of_int) auto
  show rc: "xy_to_row_col S x y = (row, col)"
    using assms(3) r c by (simp add: xy_to_row_col_eq row_def col_def)
  show "xy_to_cell S x y = row * int (width S) + col"
    using cell(1) by (simp add: xy_to_cell_def rc)
qed

lemma distance_transform_field:
  assumes "grid_fits S"
  shows "distance_transform S x y = Inr (field_at S x y)"
proof -
  from assms have w: "int (width S) < 2 ^ 31" and wh: "int (width S) * int (height S) < 2 ^ 31"
    and len: "length (dt S) = width S * height S"
    by (simp_all add: grid_fits_def)
  show ?thesis
  proof (cases "in_map S x y")
    case False
    then show ?thesis
      using outside_map(2) [OF w False] by (simp add: distance_transform_def field_at_def)
  next
    case True
    note i = inside_map [OF w wh True]
    have "nat (xy_to_cell S x y) < length (dt S)"
      using i(2,3,4) len by (simp add: nat_less_iff)
    then show ?thesis
      using True i(2,3) by (simp add: distance_transform_def field_at_def)
  qed
qed

lemma spec_transform_eq:
  assumes "origin_c S = cos (pose_theta (origin S))" "origin_s S = sin (pose_theta (origin S))"
  shows "coordinate_transform_spec S x y =
      (if in_map S x y
       then Some (\<lfloor>y_rot S x y / resolution S\<rfloor>, \<lfloor>x_rot S x y / resolution S\<rfloor>,
            \<lfloor>y_rot S x y / resolution S\<rfloor> * int (width S) + \<lfloor>x_rot S x y / resolution S\<rfloor>)
       else None)"
proof -
  have xs: "(x - pose_x (origin S)) * cos (- pose_theta (origin S))
              - (y - pose_y (origin S)) * sin (- pose_theta (origin S)) = x_rot S x y"
    by (simp add: x_rot_def assms)
  have ys: "(x - pose_x (origin S)) * sin (- pose_theta (origin S))
              + (y - pose_y (origin S)) * cos (- pose_theta (origin S)) = y_rot S x y"
    by (simp add: y_rot_def assms algebra_simps)
  show ?thesis
    unfolding coordinate_transform_spec_def Let_def xs ys in_map_def by simp
qed

subsection \<open>The arena, evaluated\<close>

lemma upt5: "[0 ..< (5::nat)] = [0, 1, 2, 3, 4]"
  by (simp add: upt_rec)

lemma slot4: "slot_theta 4 0 = 0" "slot_theta 4 1 = pi / 2" "slot_theta 4 (Suc 0) = pi / 2" "slot_theta 4 2 = pi"
  "slot_theta 4 3 = 3 / 2 * pi" "slot_theta 4 4 = 2 * pi"
  by (simp_all add: slot_theta_def)

lemma sin_cos_3pi2: "sin (3 * pi / 2) = - 1" "cos (3 * pi / 2) = 0"
  using sin_3over2_pi cos_3over2_pi by simp_all

lemma arena_tables:
  "sines arena = [0, 1, 0, - 1, 0]"
  "cosines arena = [1, 0, - 1, 0, 1]"
  "arctanes arena = [Infinite, Finite 0, Infinite, Finite 0, Infinite]"
  by (simp_all add: arena_def ScanSimulator2D_def Let_def upt5 slot4 arctanes_loop_eq
      cotangent_def sin_cos_3pi2 tan_def)

lemma arena_fields:
  "num_beams arena = 2" "field_of_view arena = pi / 2" "scan_std_dev arena = 0"
  "scan_max_range arena = 10" "cube_width arena = 1" "ray_tracing_epsilon arena = 1 / 10000"
  "theta_discretization arena = 4" "theta_index_increment arena = 1" "threshold arena = 5"
  "scan_output arena = [0, 0]" "height arena = 5" "width arena = 5" "resolution arena = 1"
  "pose_x (origin arena) = 0" "pose_y (origin arena) = 0" "pose_theta (origin arena) = 0"
  "origin_c arena = 1" "origin_s arena = 0" "dt arena = arena_dt"
  "flag_can_see_opponent arena = False" "can_see_opponent arena = False"
  "noise_generator arena = 0"
  by (simp_all add: arena_def ScanSimulator2D_def Let_def blank_def numeral_2_eq_2)

lemma arena_grid_fits: "grid_fits arena"
  by (simp add: grid_fits_def arena_fields arena_dt_def)

lemma arena_query: "distance_transform arena = (\<lambda>x y. Inr (field_at arena x y))"
  by (intro ext) (rule distance_transform_field [OF arena_grid_fits])

lemma arena_field:
  "field_at arena x y =
     (if 0 \<le> x \<and> x < 5 \<and> 0 \<le> y \<and> y < 5 then arena_dt ! nat (\<lfloor>y\<rfloor> * 5 + \<lfloor>x\<rfloor>) else 0)"
  by (simp add: field_at_def in_map_def x_rot_def y_rot_def arena_fields)

subsection \<open>The cotangent table\<close>

text \<open>
  Claim C9. In the construction of the angle cache the guard around the cotangent is
  always true, so the assignment of line 71 is executed for every slot \<open>i\<close> from \<open>0\<close> to
  \<open>theta_discretization\<close>, and the slot holds \<open>1 / tan theta\<close>: the quotient
  \<open>cos theta / sin theta\<close> where the sine is not \<open>0\<close>, and at the multiples of \<open>pi\<close>, where it
  is \<open>0\<close>, the infinity that the division gives, not the \<open>0\<close> the vector was created with.
\<close>

theorem cotangent_always_computed:
  "(\<forall>theta. cot_guard theta)
   \<and> snd (arctanes_loop td) = [0 ..< nat (td + 1)]
   \<and> (\<forall>i. int i \<le> td \<longrightarrow>
        arctanes (ScanSimulator2D nb fov sd mr cw eps td seed normal raw) ! i
          = cotangent (slot_theta td i)
        \<and> (sin (slot_theta td i) \<noteq> 0 \<longrightarrow>
             arctanes (ScanSimulator2D nb fov sd mr cw eps td seed normal raw) ! i
               = Finite (cos (slot_theta td i) / sin (slot_theta td i)))
        \<and> (sin (slot_theta td i) = 0 \<longrightarrow>
             arctanes (ScanSimulator2D nb fov sd mr cw eps td seed normal raw) ! i = Infinite))"
proof (intro conjI allI impI)
  show "snd (arctanes_loop td) = [0 ..< nat (td + 1)]"
    by (simp add: arctanes_loop_eq)
next
  fix i assume "int i \<le> td"
  then have "i < nat (td + 1)" by linarith
  then show a: "arctanes (ScanSimulator2D nb fov sd mr cw eps td seed normal raw) ! i
               = cotangent (slot_theta td i)"
    by (simp add: arctanes_ctor)
  show "arctanes (ScanSimulator2D nb fov sd mr cw eps td seed normal raw) ! i
          = Finite (cos (slot_theta td i) / sin (slot_theta td i))"
    if "sin (slot_theta td i) \<noteq> 0"
    unfolding a using that by (simp add: cotangent_def tan_def)
  show "arctanes (ScanSimulator2D nb fov sd mr cw eps td seed normal raw) ! i = Infinite"
    if "sin (slot_theta td i) = 0"
    unfolding a using that by (simp add: cotangent_def)
qed (rule cot_guard_vacuous)

theorem cotangent_always_computed_witness:
  "cot_guard pi \<and> snd (arctanes_loop 4) = [0, 1, 2, 3, 4]
   \<and> int 2 \<le> 4 \<and> sin (slot_theta 4 2) = 0
   \<and> arctanes (ScanSimulator2D 2 (pi / 2) 0 10 1 (1 / 10000) 4 0 (\<lambda>sd g. (1, Suc g)) blank) ! 2
       = Infinite
   \<and> int 1 \<le> 4 \<and> sin (slot_theta 4 1) = 1
   \<and> arctanes (ScanSimulator2D 2 (pi / 2) 0 10 1 (1 / 10000) 4 0 (\<lambda>sd g. (1, Suc g)) blank) ! 1
       = Finite 0"
  using cotangent_always_computed [where td = 4 and nb = 2 and fov = "pi / 2" and sd = 0 and mr = 10
      and cw = 1 and eps = "1 / 10000" and seed = 0 and normal = "\<lambda>sd g. (1, Suc g)"
      and raw = blank]
  by (simp add: slot4 upt5 cotangent_def)

text \<open>
  Claim C7. For every world point the coordinate transform translates by the grid origin's
  position and rotates by the negative of the origin's heading; outside
  \<open>[0, width \<sqdot> resolution) \<times> [0, height \<sqdot> resolution)\<close> it returns the invalid sentinel (row and
  column \<open>-1\<close>, a negative cell), and inside it returns the column \<open>floor (x_rot / resolution)\<close>,
  the row \<open>floor (y_rot / resolution)\<close> and the cell \<open>row \<sqdot> width + col\<close>. The cached cosine and
  sine are those of the origin's heading, as \<open>set_map\<close> leaves them, and the grid is small
  enough for its cells to be numbered by an \<open>int\<close>.
\<close>

theorem coordinate_transform_refines_spec:
  assumes "origin_c S = cos (pose_theta (origin S))" "origin_s S = sin (pose_theta (origin S))"
    and "int (width S) < 2 ^ 31" "int (width S) * int (height S) < 2 ^ 31"
  shows "case coordinate_transform_spec S x y of
           None \<Rightarrow> xy_to_row_col S x y = (- 1, - 1) \<and> xy_to_cell S x y < 0
         | Some (row, col, cell) \<Rightarrow> xy_to_row_col S x y = (row, col) \<and> xy_to_cell S x y = cell"
proof (cases "in_map S x y")
  case True
  then show ?thesis
    using inside_map(1,2) [OF assms(3,4) True]
    by (simp add: spec_transform_eq [OF assms(1,2)])
next
  case False
  then show ?thesis
    using outside_map [OF assms(3) False]
    by (simp add: spec_transform_eq [OF assms(1,2)])
qed

theorem coordinate_transform_refines_spec_witness:
  "coordinate_transform_spec arena (5 / 2) (5 / 2) = Some (2, 2, 12)
   \<and> xy_to_row_col arena (5 / 2) (5 / 2) = (2, 2) \<and> xy_to_cell arena (5 / 2) (5 / 2) = 12
   \<and> coordinate_transform_spec arena (11 / 2) (5 / 2) = None
   \<and> xy_to_row_col arena (11 / 2) (5 / 2) = (- 1, - 1) \<and> xy_to_cell arena (11 / 2) (5 / 2) < 0"
proof -
  have a: "coordinate_transform_spec arena (5 / 2) (5 / 2) = Some (2, 2, 12)"
    and b: "coordinate_transform_spec arena (11 / 2) (5 / 2) = None"
    by (simp_all add: coordinate_transform_spec_def Let_def arena_fields)
  have h: "origin_c arena = cos (pose_theta (origin arena))"
    "origin_s arena = sin (pose_theta (origin arena))"
    "int (width arena) < 2 ^ 31" "int (width arena) * int (height arena) < 2 ^ 31"
    by (simp_all add: arena_fields)
  show ?thesis
    using coordinate_transform_refines_spec [OF h, of "5 / 2" "5 / 2"]
      coordinate_transform_refines_spec [OF h, of "11 / 2" "5 / 2"]
    by (simp add: a b)
qed



subsection \<open>The opponent\<close>

lemma cos_sin_quarters:
  "cos (3 * pi / 4) = - (sqrt 2 / 2)" "sin (3 * pi / 4) = sqrt 2 / 2"
  "cos (5 * pi / 4) = - (sqrt 2 / 2)" "sin (5 * pi / 4) = - (sqrt 2 / 2)"
  "cos (7 * pi / 4) = sqrt 2 / 2" "sin (7 * pi / 4) = - (sqrt 2 / 2)"
proof -
  have a: "3 * pi / 4 = pi - pi / 4" and b: "5 * pi / 4 = pi / 4 + pi"
    and c: "7 * pi / 4 = - (pi / 4) + 2 * pi"
    by simp_all
  show "cos (3 * pi / 4) = - (sqrt 2 / 2)"
    by (subst a, subst cos_pi_minus) (simp add: cos_45)
  show "sin (3 * pi / 4) = sqrt 2 / 2"
    by (subst a, subst sin_pi_minus) (simp add: sin_45)
  show "cos (5 * pi / 4) = - (sqrt 2 / 2)"
    by (subst b, subst cos_periodic_pi) (simp add: cos_45)
  show "sin (5 * pi / 4) = - (sqrt 2 / 2)"
    by (subst b, subst sin_periodic_pi) (simp add: sin_45)
  show "cos (7 * pi / 4) = sqrt 2 / 2"
    by (subst c, subst cos_periodic) (simp add: cos_45)
  show "sin (7 * pi / 4) = - (sqrt 2 / 2)"
    by (subst c, subst sin_periodic) (simp add: sin_45)
qed

lemma corner_heading_0:
  "corner w 1 oX oY 0 = (w / 2 + oX, w / 2 + oY)"
  "corner w 3 oX oY 0 = (- w / 2 + oX, w / 2 + oY)"
  "corner w 5 oX oY 0 = (- w / 2 + oX, - w / 2 + oY)"
  "corner w 7 oX oY 0 = (w / 2 + oX, - w / 2 + oY)"
  by (simp_all add: corner_def Let_def cos_sin_quarters cos_45 sin_45)

lemma opponent_range_cases:
  "opponent_range S i k ox oy x y tot oX oY oT =
     (if beam_meets_opponent S i k ox oy x y tot oX oY oT
      then (fst (opponent_range S i k ox oy x y tot oX oY oT),
            if flag_can_see_opponent S \<and> sqrt ((ox - oX) ^ 2 + (oy - oY) ^ 2) < threshold S
            then S\<lparr>can_see_opponent := True, flag_can_see_opponent := False\<rparr> else S)
      else (min tot (scan_max_range S), S))"
  by (simp add: opponent_range_def beam_meets_opponent_def Let_def)

lemma trace_ray_cases:
  assumes "in_tables S (table_index th)"
    and "ray_march (distance_transform S) (cosines S ! nat (table_index th)) (sines S ! nat (table_index th)) x y
           = Some (Inr (x', y', tot))"
  shows "trace_ray S x y th oX oY oT =
     Some (Inr (opponent_range S (table_index th) (arctanes S ! nat (table_index th)) x y x' y' tot oX oY oT))"
  using assms by (simp add: trace_ray_def Let_def)

lemma arena_in_tables: "in_tables arena i \<longleftrightarrow> 0 \<le> i \<and> i \<le> 4"
  by (auto simp: in_tables_def arena_tables)

lemma table_index_nonneg: "0 \<le> t \<Longrightarrow> t < 2 ^ 31 - 1 \<Longrightarrow> table_index t = \<lfloor>t + 1 / 2\<rfloor>"
  by (simp add: table_index_def int_of_double_def trunc_real_def Let_def floor_less_iff le_floor_iff)

lemma march_x: "ray_march (distance_transform arena) 1 0 (401 / 200) (401 / 200)
   = Some (Inr (799 / 200, 401 / 200, 199 / 100))"
  by (simp add: ray_march_def ray_march_with_def step_back_def arena_query arena_field
      arena_dt_def march.simps back_off.simps)

lemma table_index_0: "table_index 0 = 0"
  by (simp add: table_index_nonneg)

text \<open>
  Claim C4. The opponent's result replaces the marched range only when both ordering
  conditions hold, the distance from the start to the opponent's centre below
  \<open>total_distance\<close> and the distance from the marched end point to the opponent's centre
  below \<open>total_distance\<close>; when either fails \<open>trace_ray\<close> returns
  \<open>min total_distance scan_max_range\<close>, and leaves the object as it is.
\<close>

theorem opponent_needs_both_orderings:
  assumes "in_tables S (table_index theta_index)"
    and "ray_march (distance_transform S) (cosines S ! nat (table_index theta_index))
           (sines S ! nat (table_index theta_index)) x y = Some (Inr (x', y', tot))"
    and "\<not> (sqrt ((x - opponent_X) ^ 2 + (y - opponent_Y) ^ 2) < tot
            \<and> sqrt ((x' - opponent_X) ^ 2 + (y' - opponent_Y) ^ 2) < tot)"
  shows "trace_ray S x y theta_index opponent_X opponent_Y opponent_theta
           = Some (Inr (min tot (scan_max_range S), S))"
proof -
  have "\<not> beam_meets_opponent S (table_index theta_index)
            (arctanes S ! nat (table_index theta_index)) x y x' y' tot
            opponent_X opponent_Y opponent_theta"
    using assms(3) by (auto simp: beam_meets_opponent_def)
  then show ?thesis
    by (simp add: trace_ray_cases [OF assms(1,2)] opponent_range_cases)
qed

theorem opponent_needs_both_orderings_witness:
  "trace_ray arena (401 / 200) (401 / 200) 0 1 (401 / 200) 0 = Some (Inr (199 / 100, arena))"
proof -
  have d1: "sqrt ((401 / 200 - 1) ^ 2 + (401 / 200 - 401 / 200) ^ 2) = 201 / 200"
    by (rule real_sqrt_unique) (simp_all add: power2_eq_square)
  have d2: "sqrt ((799 / 200 - 1) ^ 2 + (401 / 200 - 401 / 200) ^ 2) = 599 / 200"
    by (rule real_sqrt_unique) (simp_all add: power2_eq_square)
  show ?thesis
    using opponent_needs_both_orderings [of arena 0 "401/200" "401/200" "799/200" "401/200" "199/100" 1 "401/200" 0]
    by (simp add: table_index_0 arena_in_tables arena_tables march_x d1 d2 arena_fields)
qed

subsection \<open>What a scan reads and what it writes\<close>

lemma fixed_fields:
  assumes "fixed_part S1 = fixed_part S2"
  shows "num_beams S1 = num_beams S2" "field_of_view S1 = field_of_view S2"
    "scan_std_dev S1 = scan_std_dev S2" "scan_max_range S1 = scan_max_range S2"
    "cube_width S1 = cube_width S2" "ray_tracing_epsilon S1 = ray_tracing_epsilon S2"
    "theta_discretization S1 = theta_discretization S2"
    "theta_index_increment S1 = theta_index_increment S2"
    "sines S1 = sines S2" "cosines S1 = cosines S2" "arctanes S1 = arctanes S2"
    "threshold S1 = threshold S2" "height S1 = height S2" "width S1 = width S2"
    "resolution S1 = resolution S2" "origin S1 = origin S2" "origin_c S1 = origin_c S2"
    "origin_s S1 = origin_s S2" "dt S1 = dt S2"
proof -
  have f: "\<And>sel :: ScanSimulator2D \<Rightarrow> 'a. sel (fixed_part S1) = sel (fixed_part S2)"
    using assms by simp
  show "num_beams S1 = num_beams S2" using f [of num_beams] by (simp add: fixed_part_def)
  show "field_of_view S1 = field_of_view S2" using f [of field_of_view] by (simp add: fixed_part_def)
  show "scan_std_dev S1 = scan_std_dev S2" using f [of scan_std_dev] by (simp add: fixed_part_def)
  show "scan_max_range S1 = scan_max_range S2" using f [of scan_max_range] by (simp add: fixed_part_def)
  show "cube_width S1 = cube_width S2" using f [of cube_width] by (simp add: fixed_part_def)
  show "ray_tracing_epsilon S1 = ray_tracing_epsilon S2"
    using f [of ray_tracing_epsilon] by (simp add: fixed_part_def)
  show "theta_discretization S1 = theta_discretization S2"
    using f [of theta_discretization] by (simp add: fixed_part_def)
  show "theta_index_increment S1 = theta_index_increment S2"
    using f [of theta_index_increment] by (simp add: fixed_part_def)
  show "sines S1 = sines S2" using f [of sines] by (simp add: fixed_part_def)
  show "cosines S1 = cosines S2" using f [of cosines] by (simp add: fixed_part_def)
  show "arctanes S1 = arctanes S2" using f [of arctanes] by (simp add: fixed_part_def)
  show "threshold S1 = threshold S2" using f [of threshold] by (simp add: fixed_part_def)
  show "height S1 = height S2" using f [of height] by (simp add: fixed_part_def)
  show "width S1 = width S2" using f [of width] by (simp add: fixed_part_def)
  show "resolution S1 = resolution S2" using f [of resolution] by (simp add: fixed_part_def)
  show "origin S1 = origin S2" using f [of origin] by (simp add: fixed_part_def)
  show "origin_c S1 = origin_c S2" using f [of origin_c] by (simp add: fixed_part_def)
  show "origin_s S1 = origin_s S2" using f [of origin_s] by (simp add: fixed_part_def)
  show "dt S1 = dt S2" using f [of dt] by (simp add: fixed_part_def)
qed

lemma fixed_updates [simp]:
  "fixed_part (S\<lparr>can_see_opponent := a\<rparr>) = fixed_part S"
  "fixed_part (S\<lparr>flag_can_see_opponent := b\<rparr>) = fixed_part S"
  "fixed_part (S\<lparr>noise_generator := g\<rparr>) = fixed_part S"
  "fixed_part (S\<lparr>scan_output := d\<rparr>) = fixed_part S"
  "fixed_part (S\<lparr>can_see_opponent := a, flag_can_see_opponent := b\<rparr>) = fixed_part S"
  by (simp_all add: fixed_part_def)

lemma fixed_distance_transform:
  assumes "fixed_part S1 = fixed_part S2"
  shows "distance_transform S1 = distance_transform S2"
  unfolding distance_transform_def xy_to_cell_def xy_to_row_col_def row_col_to_cell_def
    fixed_fields [OF assms]
  by (rule refl)

lemma fixed_in_tables:
  assumes "fixed_part S1 = fixed_part S2"
  shows "in_tables S1 i = in_tables S2 i"
  unfolding in_tables_def fixed_fields [OF assms] by (rule refl)

lemma fixed_beam_meets:
  assumes "fixed_part S1 = fixed_part S2"
  shows "beam_meets_opponent S1 i k ox oy x y tot oX oY oT
       = beam_meets_opponent S2 i k ox oy x y tot oX oY oT"
  unfolding beam_meets_opponent_def beam_misses_def axis_beam_def fixed_fields [OF assms]
  by (rule refl)

lemma fixed_ray_meets:
  assumes "fixed_part S1 = fixed_part S2"
  shows "ray_meets_opponent S1 x y th oX oY oT = ray_meets_opponent S2 x y th oX oY oT"
  unfolding ray_meets_opponent_def fixed_in_tables [OF assms]
    fixed_distance_transform [OF assms] fixed_beam_meets [OF assms] fixed_fields [OF assms]
  by (rule refl)

lemma fixed_opponent_range:
  assumes "fixed_part S1 = fixed_part S2"
  shows "fst (opponent_range S1 i k ox oy x y tot oX oY oT)
       = fst (opponent_range S2 i k ox oy x y tot oX oY oT)"
proof -
  have m: "\<And>x1 y1 x2 y2 x3 y3 x4 y4. beam_misses S1 i k x y oy x1 y1 x2 y2 x3 y3 x4 y4
      = beam_misses S2 i k x y oy x1 y1 x2 y2 x3 y3 x4 y4"
    unfolding beam_misses_def axis_beam_def fixed_fields [OF assms] by (rule refl)
  have a: "axis_beam S1 i = axis_beam S2 i"
    unfolding axis_beam_def fixed_fields [OF assms] by (rule refl)
  have q: "\<And>p r. scan_to_square S1 ox oy p r = scan_to_square S2 ox oy p r"
    unfolding scan_to_square_def fixed_fields [OF assms] by (rule refl)
  show ?thesis
    unfolding opponent_range_def Let_def m a q fixed_fields [OF assms]
    by (simp only: if_distrib [of fst] fst_conv)
qed

lemma fixed_opponent_range_state:
  "fixed_part (snd (opponent_range S i k ox oy x y tot oX oY oT)) = fixed_part S"
  unfolding opponent_range_def Let_def
  by (simp only: if_distrib [of snd] if_distrib [of fixed_part] snd_conv fixed_updates if_cancel)

lemma fixed_beam_theta:
  assumes "fixed_part S1 = fixed_part S2"
  shows "beam_theta S1 th j = beam_theta S2 th j"
  by (induction j arbitrary: th) (simp_all add: fixed_fields [OF assms] split: option.splits)

subsection \<open>The visibility members through a scan\<close>

lemma trace_ray_state:
  assumes "trace_ray S x y th oX oY oT = Some (Inr (r, S'))"
  shows "S' = (if ray_meets_opponent S x y th oX oY oT \<and> flag_can_see_opponent S
                  \<and> sqrt ((x - oX) ^ 2 + (y - oY) ^ 2) < threshold S
               then S\<lparr>can_see_opponent := True, flag_can_see_opponent := False\<rparr> else S)"
proof -
  let ?i = "table_index th"
  from assms have it: "in_tables S ?i"
    by (auto simp: trace_ray_def Let_def split: if_splits)
  from assms it obtain x' y' tot where
    m: "ray_march (distance_transform S) (cosines S ! nat ?i) (sines S ! nat ?i) x y
          = Some (Inr (x', y', tot))"
    by (auto simp: trace_ray_def Let_def split: option.splits sum.splits)
  have "(r, S') = opponent_range S ?i (arctanes S ! nat ?i) x y x' y' tot oX oY oT"
    using assms by (simp add: trace_ray_cases [OF it m])
  then have "S' = snd (opponent_range S ?i (arctanes S ! nat ?i) x y x' y' tot oX oY oT)"
    by (metis snd_conv)
  also have "\<dots> = (if beam_meets_opponent S ?i (arctanes S ! nat ?i) x y x' y' tot oX oY oT
                     then if flag_can_see_opponent S
                             \<and> sqrt ((x - oX) ^ 2 + (y - oY) ^ 2) < threshold S
                          then S\<lparr>can_see_opponent := True, flag_can_see_opponent := False\<rparr>
                          else S
                     else S)"
    by (subst opponent_range_cases) simp
  finally show ?thesis
    using it m by (simp add: ray_meets_opponent_def Let_def)
qed

lemma trace_ray_fixed:
  assumes "trace_ray S x y th oX oY oT = Some (Inr (r, S'))"
  shows "fixed_part S' = fixed_part S" "scan_output S' = scan_output S"
    "noise_generator S' = noise_generator S" "noise_dist S' = noise_dist S"
  unfolding trace_ray_state [OF assms] by simp_all

text \<open>One turn of the loop of \<open>scan\<close>, taken apart.\<close>

lemma scan_beams_Suc_Inr:
  assumes "scan_beams (Suc n) S pose opp i th data = Some (Inr (out, S'))"
  obtains r S1 S2 r' th' where
    "trace_ray S (pose_x pose) (pose_y pose) th (pose_x opp) (pose_y opp) (pose_theta opp)
       = Some (Inr (r, S1))"
    "i < length data"
    "S2 = (if scan_std_dev S1 > 0
           then S1\<lparr>noise_generator := snd (noise_dist S1 (noise_generator S1))\<rparr> else S1)"
    "r' = (if scan_std_dev S1 > 0 then r + fst (noise_dist S1 (noise_generator S1)) else r)"
    "wrap_index (real_of_int (theta_discretization S)) (th + theta_index_increment S) = Some th'"
    "scan_beams n S2 pose opp (Suc i) th' (data[i := r']) = Some (Inr (out, S'))"
    "fixed_part S2 = fixed_part S"
proof -
  from assms obtain r S1 where
    t: "trace_ray S (pose_x pose) (pose_y pose) th (pose_x opp) (pose_y opp) (pose_theta opp)
          = Some (Inr (r, S1))"
    by (auto split: option.splits sum.splits)
  define S2 where "S2 = (if scan_std_dev S1 > 0
           then S1\<lparr>noise_generator := snd (noise_dist S1 (noise_generator S1))\<rparr> else S1)"
  define r' where "r' = (if scan_std_dev S1 > 0 then r + fst (noise_dist S1 (noise_generator S1)) else r)"
  have f2: "fixed_part S2 = fixed_part S"
    using trace_ray_fixed(1) [OF t] by (simp add: S2_def)
  have noise: "(if scan_std_dev S1 > 0
                    then (case noise_dist S1 (noise_generator S1) of
                            (z, g) \<Rightarrow> (r + z, S1\<lparr>noise_generator := g\<rparr>))
                    else (r, S1)) = (r', S2)"
    by (simp add: S2_def r'_def split: prod.splits)
  from assms have len: "i < length data"
    by (auto simp: t split: if_splits)
  from assms obtain th' where
    w: "wrap_index (real_of_int (theta_discretization S2)) (th + theta_index_increment S2) = Some th'"
    and rest: "scan_beams n S2 pose opp (Suc i) th' (data[i := r']) = Some (Inr (out, S'))"
    using len by (auto simp: t noise split: option.splits)
  from w have "wrap_index (real_of_int (theta_discretization S)) (th + theta_index_increment S) = Some th'"
    by (simp add: fixed_fields [OF f2])
  then show thesis
    using that t len S2_def r'_def rest f2 by blast
qed

lemma scan_beams_visibility:
  assumes "scan_beams n S pose opp i th data = Some (Inr (out, S'))"
  defines "d \<equiv> sqrt ((pose_x pose - pose_x opp) ^ 2 + (pose_y pose - pose_y opp) ^ 2)"
  defines "hit \<equiv> \<lambda>S th n. \<exists>j<n. \<exists>t. beam_theta S th j = Some t
     \<and> ray_meets_opponent S (pose_x pose) (pose_y pose) t (pose_x opp) (pose_y opp) (pose_theta opp)"
  shows "can_see_opponent S' \<longleftrightarrow>
           can_see_opponent S \<or> (flag_can_see_opponent S \<and> d < threshold S \<and> hit S th n)"
    and "flag_can_see_opponent S' \<longleftrightarrow>
           flag_can_see_opponent S \<and> \<not> (d < threshold S \<and> hit S th n)"
    and "fixed_part S' = fixed_part S"
  using assms(1) unfolding atomize_conj
proof (induction n arbitrary: S i th data)
  case 0
  then show ?case by (simp add: hit_def)
next
  case (Suc n)
  from Suc.prems obtain r S1 S2 r' th' where
    t: "trace_ray S (pose_x pose) (pose_y pose) th (pose_x opp) (pose_y opp) (pose_theta opp)
       = Some (Inr (r, S1))"
    and S2: "S2 = (if scan_std_dev S1 > 0
           then S1\<lparr>noise_generator := snd (noise_dist S1 (noise_generator S1))\<rparr> else S1)"
    and w: "wrap_index (real_of_int (theta_discretization S)) (th + theta_index_increment S) = Some th'"
    and rest: "scan_beams n S2 pose opp (Suc i) th' (data[i := r']) = Some (Inr (out, S'))"
    and f2: "fixed_part S2 = fixed_part S"
    by (rule scan_beams_Suc_Inr)
  note IH = Suc.IH [OF rest]
  let ?h0 = "ray_meets_opponent S (pose_x pose) (pose_y pose) th (pose_x opp) (pose_y opp) (pose_theta opp)"
  have S1: "S1 = (if ?h0 \<and> flag_can_see_opponent S \<and> d < threshold S
               then S\<lparr>can_see_opponent := True, flag_can_see_opponent := False\<rparr> else S)"
    using trace_ray_state [OF t] by (simp add: d_def)
  have c2: "can_see_opponent S2 = can_see_opponent S1"
    and g2: "flag_can_see_opponent S2 = flag_can_see_opponent S1"
    by (simp_all add: S2)
  have hit2: "hit S2 th' n = hit S th' n"
    unfolding hit_def fixed_beam_theta [OF f2] fixed_ray_meets [OF f2] by (rule refl)
  have hitS: "hit S th (Suc n) \<longleftrightarrow> ?h0 \<or> hit S th' n"
  proof
    assume "hit S th (Suc n)"
    then obtain j t where j: "j < Suc n" "beam_theta S th j = Some t"
      "ray_meets_opponent S (pose_x pose) (pose_y pose) t (pose_x opp) (pose_y opp) (pose_theta opp)"
      by (auto simp: hit_def)
    show "?h0 \<or> hit S th' n"
    proof (cases j)
      case 0
      with j show ?thesis by simp
    next
      case (Suc j')
      with j w have "j' < n" "beam_theta S th' j' = Some t" by simp_all
      with j(3) show ?thesis by (auto simp: hit_def)
    qed
  next
    assume "?h0 \<or> hit S th' n"
    then show "hit S th (Suc n)"
    proof
      assume ?h0
      then have "beam_theta S th 0 = Some th \<and> ?h0" by simp
      then show ?thesis unfolding hit_def by blast
    next
      assume "hit S th' n"
      then obtain j t where j: "j < n" "beam_theta S th' j = Some t"
        "ray_meets_opponent S (pose_x pose) (pose_y pose) t (pose_x opp) (pose_y opp) (pose_theta opp)"
        by (auto simp: hit_def)
      then have "Suc j < Suc n" "beam_theta S th (Suc j) = Some t" using w by simp_all
      with j(3) show ?thesis unfolding hit_def by blast
    qed
  qed
  have th2: "threshold S2 = threshold S" by (rule fixed_fields [OF f2])
  show ?case
    using IH unfolding c2 g2 hit2 th2 hitS
    by (auto simp: S1 f2 split: if_splits)
qed

subsection \<open>Two beams in the arena\<close>

text \<open>
  The sensor stands at \<open>(2.005, 2.005)\<close> with heading \<open>0\<close>. Its first beam has index \<open>3.5\<close>,
  table slot \<open>4\<close>, and runs along \<open>+x\<close>; its second has index \<open>0.5\<close>, table slot \<open>1\<close>, and runs
  along \<open>+y\<close>. Each marches \<open>2\<close> to the wall and steps back once.
\<close>

lemma start_index_sensor: "start_index arena sensor = 7 / 2"
  by (simp add: sensor_def start_index_def Let_def arena_fields fmod_def trunc_real_def ceiling_def)

lemma table_index_beams: "table_index (7 / 2) = 4" "table_index (1 / 2) = 1"
  by (simp_all add: table_index_nonneg)

lemma march_y: "ray_march (distance_transform arena) 0 1 (401 / 200) (401 / 200)
   = Some (Inr (401 / 200, 799 / 200, 199 / 100))"
  by (simp add: ray_march_def ray_march_with_def step_back_def arena_query arena_field
      arena_dt_def march.simps back_off.simps)

lemma wrap_beams: "wrap_index 4 (9 / 2) = Some (1 / 2)" "wrap_index 4 (3 / 2) = Some (3 / 2)"
  by (simp_all add: wrap_index.simps)

lemma trace_ray_x:
  assumes "fixed_part S = fixed_part arena"
  shows "trace_ray S (401 / 200) (401 / 200) (7 / 2) oX oY oT =
     Some (Inr (opponent_range S 4 Infinite (401 / 200) (401 / 200) (799 / 200) (401 / 200) (199 / 100)
                  oX oY oT))"
  by (simp add: trace_ray_def Let_def table_index_beams in_tables_def
      fixed_distance_transform [OF assms] fixed_fields [OF assms] arena_tables march_x)

lemma trace_ray_y:
  assumes "fixed_part S = fixed_part arena"
  shows "trace_ray S (401 / 200) (401 / 200) (1 / 2) oX oY oT =
     Some (Inr (opponent_range S 1 (Finite 0) (401 / 200) (401 / 200) (401 / 200) (799 / 200) (199 / 100)
                  oX oY oT))"
  by (simp add: trace_ray_def Let_def table_index_beams in_tables_def
      fixed_distance_transform [OF assms] fixed_fields [OF assms] arena_tables march_y)

text \<open>The scan of these two beams, for any object that has the arena's fixed part.\<close>

lemma scan_into_sensor:
  assumes "fixed_part S = fixed_part arena"
  shows "scan_into S sensor opp [a, b] =
    (let r0 = opponent_range S 4 Infinite (401 / 200) (401 / 200) (799 / 200) (401 / 200) (199 / 100)
                (pose_x opp) (pose_y opp) (pose_theta opp);
         r1 = opponent_range (snd r0) 1 (Finite 0) (401 / 200) (401 / 200) (401 / 200) (799 / 200)
                (199 / 100) (pose_x opp) (pose_y opp) (pose_theta opp)
     in Some (Inr ([fst r0, fst r1], snd r1)))"
proof -
  let ?r0 = "opponent_range S 4 Infinite (401 / 200) (401 / 200) (799 / 200) (401 / 200) (199 / 100)
                (pose_x opp) (pose_y opp) (pose_theta opp)"
  let ?r1 = "opponent_range (snd ?r0) 1 (Finite 0) (401 / 200) (401 / 200) (401 / 200) (799 / 200)
                (199 / 100) (pose_x opp) (pose_y opp) (pose_theta opp)"
  have f0: "fixed_part (snd ?r0) = fixed_part arena"
    using assms by (simp only: fixed_opponent_range_state)
  have f1: "fixed_part (snd ?r1) = fixed_part arena"
    using f0 by (simp only: fixed_opponent_range_state)
  have si: "start_index S sensor = 7 / 2"
    using start_index_sensor
    by (simp only: start_index_def fixed_fields [OF assms])
  have two: "nat (num_beams S) = Suc (Suc 0)"
    by (simp add: fixed_fields [OF assms] arena_fields)
  note s = fixed_fields [OF assms] and s0 = fixed_fields [OF f0] and s1 = fixed_fields [OF f1]
  have step0: "scan_beams (Suc (Suc 0)) S sensor opp 0 (7 / 2) [a, b]
      = scan_beams (Suc 0) (snd ?r0) sensor opp (Suc 0) (1 / 2) [fst ?r0, b]"
    apply (subst scan_beams.simps)
    apply (simp add: sensor_def trace_ray_x [OF assms] split_beta s0 arena_fields wrap_beams)
    done
  have step1: "scan_beams (Suc 0) (snd ?r0) sensor opp (Suc 0) (1 / 2) [fst ?r0, b]
      = Some (Inr ([fst ?r0, fst ?r1], snd ?r1))"
    apply (subst scan_beams.simps)
    apply (simp add: sensor_def trace_ray_y [OF f0] split_beta s1 arena_fields wrap_beams)
    done
  show ?thesis
    unfolding scan_into_def two si step0 step1 Let_def by (rule refl)
qed

lemma sqrt_rat: "0 \<le> b \<Longrightarrow> a = b * b \<Longrightarrow> sqrt a = (b::real)"
  by (simp add: real_sqrt_unique power2_eq_square)

lemma arena_fixed_fields:
  assumes "fixed_part S = fixed_part arena"
  shows "scan_max_range S = 10" "cube_width S = 1" "ray_tracing_epsilon S = 1 / 10000"
    "theta_discretization S = 4" "threshold S = 5"
  by (simp_all add: fixed_fields [OF assms] arena_fields)

text \<open>An opponent at \<open>(3, 2.005)\<close>, on the first beam between the sensor and the wall.\<close>

lemma near_x:
  assumes "fixed_part S = fixed_part arena"
  shows "opponent_range S 4 Infinite (401 / 200) (401 / 200) (799 / 200) (401 / 200) (199 / 100)
           3 (401 / 200) 0
         = (99 / 200, if flag_can_see_opponent S
                      then S\<lparr>can_see_opponent := True, flag_can_see_opponent := False\<rparr> else S)"
proof -
  have d: "sqrt ((401 / 200 - 3) ^ 2 + (401 / 200 - 401 / 200) ^ 2) = 199 / 200"
    "sqrt ((799 / 200 - 3) ^ 2 + (401 / 200 - 401 / 200) ^ 2) = 199 / 200"
    by (rule sqrt_rat; simp add: power2_eq_square)+
  show ?thesis
    by (simp add: opponent_range_def Let_def corner_heading_0 beam_misses_def axis_beam_def
      arena_fixed_fields [OF assms] d)
qed

lemma near_y:
  assumes "fixed_part S = fixed_part arena"
  shows "opponent_range S 1 (Finite 0) (401 / 200) (401 / 200) (401 / 200) (799 / 200) (199 / 100)
           3 (401 / 200) 0 = (199 / 100, S)"
  by (simp add: opponent_range_def Let_def corner_heading_0 beam_misses_def axis_beam_def
      arena_fixed_fields [OF assms])

text \<open>An opponent at \<open>(0.5, 0.5)\<close>, which neither beam meets.\<close>

lemma far_x:
  assumes "fixed_part S = fixed_part arena"
  shows "opponent_range S 4 Infinite (401 / 200) (401 / 200) (799 / 200) (401 / 200) (199 / 100)
           (1 / 2) (1 / 2) 0 = (199 / 100, S)"
  by (simp add: opponent_range_def Let_def corner_heading_0 beam_misses_def axis_beam_def
      arena_fixed_fields [OF assms])

lemma far_y:
  assumes "fixed_part S = fixed_part arena"
  shows "opponent_range S 1 (Finite 0) (401 / 200) (401 / 200) (401 / 200) (799 / 200) (199 / 100)
           (1 / 2) (1 / 2) 0 = (199 / 100, S)"
  by (simp add: opponent_range_def Let_def corner_heading_0 beam_misses_def axis_beam_def
      arena_fixed_fields [OF assms])

text \<open>An opponent at \<open>(2.255, 2.005)\<close>: the sensor is inside its square.\<close>

lemma inside_x:
  assumes "fixed_part S = fixed_part arena"
  shows "opponent_range S 4 Infinite (401 / 200) (401 / 200) (799 / 200) (401 / 200) (199 / 100)
           (451 / 200) (401 / 200) 0
         = (- (1 / 4), if flag_can_see_opponent S
                      then S\<lparr>can_see_opponent := True, flag_can_see_opponent := False\<rparr> else S)"
proof -
  have d: "sqrt ((401 / 200 - 451 / 200) ^ 2 + (401 / 200 - 401 / 200) ^ 2) = 1 / 4"
    "sqrt ((799 / 200 - 451 / 200) ^ 2 + (401 / 200 - 401 / 200) ^ 2) = 87 / 50"
    by (rule sqrt_rat; simp add: power2_eq_square)+
  show ?thesis
    by (simp add: opponent_range_def Let_def corner_heading_0 beam_misses_def axis_beam_def
      arena_fixed_fields [OF assms] d)
qed

lemma inside_y:
  assumes "fixed_part S = fixed_part arena"
  shows "opponent_range S 1 (Finite 0) (401 / 200) (401 / 200) (401 / 200) (799 / 200) (199 / 100)
           (451 / 200) (401 / 200) 0 = (199 / 100, S)"
proof -
  have d: "sqrt ((401 / 200 - 451 / 200) ^ 2 + (401 / 200 - 401 / 200) ^ 2) = 1 / 4"
    by (rule sqrt_rat; simp add: power2_eq_square)
  have "(199 / 100 :: real) \<le> sqrt ((1 / 4)\<^sup>2 + (199 / 100)\<^sup>2)"
    by (rule real_le_rsqrt) simp
  then have e: "\<not> sqrt ((1 / 4)\<^sup>2 + (199 / 100)\<^sup>2) * 100 < (199 :: real)"
    by linarith
  show ?thesis
    using e
    by (simp add: opponent_range_def Let_def corner_heading_0 beam_misses_def axis_beam_def
      arena_fixed_fields [OF assms] d)
qed

text \<open>An opponent at \<open>(2.005, 3.2)\<close>, on the second beam between the sensor and the wall.\<close>

lemma ahead_x:
  assumes "fixed_part S = fixed_part arena"
  shows "opponent_range S 4 Infinite (401 / 200) (401 / 200) (799 / 200) (401 / 200) (199 / 100)
           (401 / 200) (16 / 5) 0 = (199 / 100, S)"
  by (simp add: opponent_range_def Let_def corner_heading_0 beam_misses_def axis_beam_def
      arena_fixed_fields [OF assms])

lemma ahead_y:
  assumes "fixed_part S = fixed_part arena"
  shows "opponent_range S 1 (Finite 0) (401 / 200) (401 / 200) (401 / 200) (799 / 200) (199 / 100)
           (401 / 200) (16 / 5) 0
         = (139 / 200, if flag_can_see_opponent S
                      then S\<lparr>can_see_opponent := True, flag_can_see_opponent := False\<rparr> else S)"
proof -
  have d: "sqrt ((401 / 200 - 401 / 200) ^ 2 + (401 / 200 - 16 / 5) ^ 2) = 239 / 200"
    "sqrt ((401 / 200 - 401 / 200) ^ 2 + (799 / 200 - 16 / 5) ^ 2) = 159 / 200"
    "sqrt ((401 / 200 - 401 / 200) ^ 2 + (401 / 200 - 37 / 10) ^ 2) = 339 / 200"
    "sqrt ((401 / 200 - 401 / 200) ^ 2 + (401 / 200 - 27 / 10) ^ 2) = 139 / 200"
    by (rule sqrt_rat; simp add: power2_eq_square)+
  show ?thesis
    apply (simp add: opponent_range_def Let_def corner_heading_0 beam_misses_def axis_beam_def
      arena_fixed_fields [OF assms] d)
    apply (simp add: scan_to_square_def intersection_point_def between_eps_def Let_def
      arena_fixed_fields [OF assms] d)
    done
qed

subsection \<open>Two beams in the corridor\<close>

lemma corridor_tables:
  "sines corridor = [0, 1, 0, - 1, 0]"
  "cosines corridor = [1, 0, - 1, 0, 1]"
  "arctanes corridor = [Infinite, Finite 0, Infinite, Finite 0, Infinite]"
  by (simp_all add: corridor_def ScanSimulator2D_def Let_def upt5 slot4 arctanes_loop_eq
      cotangent_def sin_cos_3pi2 tan_def)

lemma corridor_fields:
  "num_beams corridor = 2" "field_of_view corridor = pi / 8" "scan_std_dev corridor = 0"
  "scan_max_range corridor = 10" "cube_width corridor = 1"
  "theta_discretization corridor = 4" "theta_index_increment corridor = 1 / 4"
  "threshold corridor = 5" "scan_output corridor = [0, 0]" "height corridor = 1"
  "width corridor = 16" "resolution corridor = 1"
  "pose_x (origin corridor) = 0" "pose_y (origin corridor) = 0"
  "origin_c corridor = 1" "origin_s corridor = 0" "dt corridor = corridor_dt"
  "flag_can_see_opponent corridor = False" "can_see_opponent corridor = False"
  by (simp_all add: corridor_def ScanSimulator2D_def Let_def blank_def numeral_2_eq_2)

lemma corridor_query: "distance_transform corridor = (\<lambda>x y. Inr (field_at corridor x y))"
  by (intro ext, rule distance_transform_field)
    (simp add: grid_fits_def corridor_fields corridor_dt_def)

lemma corridor_field:
  "field_at corridor x y =
     (if 0 \<le> x \<and> x < 16 \<and> 0 \<le> y \<and> y < 1 then corridor_dt ! nat (\<lfloor>y\<rfloor> * 16 + \<lfloor>x\<rfloor>) else 0)"
  by (simp add: field_at_def in_map_def x_rot_def y_rot_def corridor_fields)

lemma corridor_start: "start_index corridor corridor_sensor = 31 / 8"
  by (simp add: corridor_sensor_def start_index_def Let_def corridor_fields fmod_def
      trunc_real_def ceiling_def)

lemma corridor_indices: "table_index (31 / 8) = 4" "table_index (1 / 8) = 0"
  by (simp_all add: table_index_nonneg)

lemma corridor_wrap: "wrap_index 4 (33 / 8) = Some (1 / 8)" "wrap_index 4 (3 / 8) = Some (3 / 8)"
  by (simp_all add: wrap_index.simps)

lemma corridor_march:
  "ray_march (distance_transform corridor) 1 0 (201 / 200) (1 / 2)
     = Some (Inr (2999 / 200, 1 / 2, 1399 / 100))"
  by (simp add: ray_march_def ray_march_with_def step_back_def corridor_query corridor_field
      corridor_dt_def march.simps
      back_off.simps)

lemma corridor_opponent_range:
  assumes "fixed_part S = fixed_part corridor"
  shows "opponent_range S 4 Infinite (201 / 200) (1 / 2) (2999 / 200) (1 / 2) (1399 / 100) 8 (1 / 2) 0
           = (1299 / 200, S)"
    and "opponent_range S 0 Infinite (201 / 200) (1 / 2) (2999 / 200) (1 / 2) (1399 / 100) 8 (1 / 2) 0
           = (1299 / 200, S)"
proof -
  have d: "sqrt ((201 / 200 - 8) ^ 2 + (1 / 2 - 1 / 2) ^ 2) = 1399 / 200"
    "sqrt ((2999 / 200 - 8) ^ 2 + (1 / 2 - 1 / 2) ^ 2) = 1399 / 200"
    by (rule sqrt_rat; simp add: power2_eq_square)+
  show "opponent_range S 4 Infinite (201 / 200) (1 / 2) (2999 / 200) (1 / 2) (1399 / 100) 8 (1 / 2) 0
           = (1299 / 200, S)"
    and "opponent_range S 0 Infinite (201 / 200) (1 / 2) (2999 / 200) (1 / 2) (1399 / 100) 8 (1 / 2) 0
           = (1299 / 200, S)"
    by (simp_all add: opponent_range_def Let_def corner_heading_0 beam_misses_def axis_beam_def
      fixed_fields [OF assms] corridor_fields d)
qed

lemma corridor_trace_ray:
  assumes "fixed_part S = fixed_part corridor"
  shows "trace_ray S (201 / 200) (1 / 2) (31 / 8) 8 (1 / 2) 0 = Some (Inr (1299 / 200, S))"
    and "trace_ray S (201 / 200) (1 / 2) (1 / 8) 8 (1 / 2) 0 = Some (Inr (1299 / 200, S))"
  by (simp_all add: trace_ray_def Let_def corridor_indices in_tables_def
      fixed_distance_transform [OF assms] fixed_fields [OF assms] corridor_tables
      corridor_march corridor_opponent_range [OF assms])

lemma scan_corridor:
  "scan corridor corridor_sensor opponent_distant True =
     Some (Inr ([1299 / 200, 1299 / 200],
       corridor\<lparr>scan_output := [1299 / 200, 1299 / 200], flag_can_see_opponent := True\<rparr>))"
proof -
  let ?S = "corridor\<lparr>flag_can_see_opponent := True, can_see_opponent := False\<rparr>"
  have f: "fixed_part ?S = fixed_part corridor" by simp
  have two: "nat (num_beams ?S) = Suc (Suc 0)" by (simp add: corridor_fields)
  have si: "start_index ?S corridor_sensor = 31 / 8"
    using corridor_start by (simp only: start_index_def fixed_fields [OF f])
  have b: "scan_beams (Suc (Suc 0)) ?S corridor_sensor opponent_distant 0 (31 / 8) [0, 0]
      = Some (Inr ([1299 / 200, 1299 / 200], ?S))"
    by (simp add: corridor_sensor_def opponent_distant_def corridor_trace_ray [OF f]
        corridor_fields corridor_wrap)
  have "scan_into ?S corridor_sensor opponent_distant [0, 0]
      = Some (Inr ([1299 / 200, 1299 / 200], ?S))"
    unfolding scan_into_def two si by (rule b)
  then show ?thesis
    by (simp add: scan_def Let_def corridor_fields)
qed

lemma corridor_ray_meets:
  "ray_meets_opponent corridor (201 / 200) (1 / 2) (31 / 8) 8 (1 / 2) 0"
proof -
  have d: "sqrt ((201 / 200 - 8) ^ 2 + (1 / 2 - 1 / 2) ^ 2) = 1399 / 200"
    "sqrt ((2999 / 200 - 8) ^ 2 + (1 / 2 - 1 / 2) ^ 2) = 1399 / 200"
    by (rule sqrt_rat; simp add: power2_eq_square)+
  show ?thesis
    by (simp add: ray_meets_opponent_def Let_def corridor_indices in_tables_def corridor_tables
      corridor_march beam_meets_opponent_def beam_misses_def axis_beam_def corner_heading_0
      corridor_fields d)
qed

subsection \<open>Visibility\<close>

lemma fixed_start_index:
  assumes "fixed_part S1 = fixed_part S2"
  shows "start_index S1 pose = start_index S2 pose"
  unfolding start_index_def fixed_fields [OF assms] by (rule refl)

lemma scan_Inr:
  assumes "scan S pose opp flag = Some (Inr (out, S'))"
  obtains S2 where
    "scan_into (S\<lparr>flag_can_see_opponent := flag, can_see_opponent := False\<rparr>) pose opp
       (scan_output S) = Some (Inr (out, S2))"
    "S' = S2\<lparr>scan_output := out\<rparr>"
  using assms by (auto simp: scan_def Let_def split: option.splits sum.splits)

text \<open>
  Claim C5. After a scan with the visibility-tracking flag false the visibility query
  returns false, wherever the opponent is. After a scan with the flag true it returns true
  if some beam passes the intersection and ordering checks while the distance from the
  sensor to the opponent's centre is below the threshold, and false otherwise; so it is
  false when the opponent's centre is not within the threshold, even if a beam meets the
  opponent.
\<close>

theorem visibility_after_scan:
  assumes "scan S pose opponent_pose flag = Some (Inr (out, S'))"
  shows "see_opponent S' \<longleftrightarrow>
     flag
     \<and> sqrt ((pose_x pose - pose_x opponent_pose) ^ 2 + (pose_y pose - pose_y opponent_pose) ^ 2)
          < threshold S
     \<and> (\<exists>j<nat (num_beams S). \<exists>t. beam_theta S (start_index S pose) j = Some t
          \<and> ray_meets_opponent S (pose_x pose) (pose_y pose) t
               (pose_x opponent_pose) (pose_y opponent_pose) (pose_theta opponent_pose))"
proof -
  let ?S1 = "S\<lparr>flag_can_see_opponent := flag, can_see_opponent := False\<rparr>"
  from assms obtain S2 where
    s: "scan_into ?S1 pose opponent_pose (scan_output S) = Some (Inr (out, S2))"
    and S': "S' = S2\<lparr>scan_output := out\<rparr>"
    by (rule scan_Inr)
  have f: "fixed_part ?S1 = fixed_part S" by simp
  have "can_see_opponent S2 \<longleftrightarrow>
     can_see_opponent ?S1 \<or> (flag_can_see_opponent ?S1
     \<and> sqrt ((pose_x pose - pose_x opponent_pose) ^ 2 + (pose_y pose - pose_y opponent_pose) ^ 2)
          < threshold ?S1
     \<and> (\<exists>j<nat (num_beams ?S1). \<exists>t. beam_theta ?S1 (start_index ?S1 pose) j = Some t
          \<and> ray_meets_opponent ?S1 (pose_x pose) (pose_y pose) t
               (pose_x opponent_pose) (pose_y opponent_pose) (pose_theta opponent_pose)))"
    using s unfolding scan_into_def by (rule scan_beams_visibility(1))
  then show ?thesis
    unfolding fixed_beam_theta [OF f] fixed_ray_meets [OF f] fixed_start_index [OF f]
    by (simp add: S' see_opponent_def)
qed

lemma scan_arena_near:
  "scan arena sensor opponent_near flag =
     Some (Inr ([99 / 200, 199 / 100],
       arena\<lparr>scan_output := [99 / 200, 199 / 100], can_see_opponent := flag\<rparr>))"
  by (cases flag)
    (simp_all add: scan_def Let_def arena_fields scan_into_sensor near_x near_y opponent_near_def)

theorem visibility_after_scan_witness:
  "scan arena sensor opponent_near True =
     Some (Inr ([99 / 200, 199 / 100],
       arena\<lparr>scan_output := [99 / 200, 199 / 100], can_see_opponent := True\<rparr>))
   \<and> (\<exists>j<nat (num_beams arena). \<exists>t. beam_theta arena (start_index arena sensor) j = Some t
          \<and> ray_meets_opponent arena (pose_x sensor) (pose_y sensor) t
               (pose_x opponent_near) (pose_y opponent_near) (pose_theta opponent_near))
   \<and> scan arena sensor opponent_near False =
     Some (Inr ([99 / 200, 199 / 100],
       arena\<lparr>scan_output := [99 / 200, 199 / 100], can_see_opponent := False\<rparr>))
   \<and> \<not> see_opponent (arena\<lparr>scan_output := [99 / 200, 199 / 100], can_see_opponent := False\<rparr>)
   \<and> scan corridor corridor_sensor opponent_distant True =
     Some (Inr ([1299 / 200, 1299 / 200],
       corridor\<lparr>scan_output := [1299 / 200, 1299 / 200], flag_can_see_opponent := True\<rparr>))
   \<and> ray_meets_opponent corridor (201 / 200) (1 / 2) (31 / 8) 8 (1 / 2) 0
   \<and> threshold corridor \<le> sqrt ((201 / 200 - 8) ^ 2 + (1 / 2 - 1 / 2) ^ 2)
   \<and> \<not> see_opponent
         (corridor\<lparr>scan_output := [1299 / 200, 1299 / 200], flag_can_see_opponent := True\<rparr>)"
proof -
  have d: "sqrt ((201 / 200 - 8) ^ 2 + (1 / 2 - 1 / 2) ^ 2) = (1399 / 200 :: real)"
    by (rule sqrt_rat; simp add: power2_eq_square)
  have a: "\<exists>j<nat (num_beams arena). \<exists>t. beam_theta arena (start_index arena sensor) j = Some t
          \<and> ray_meets_opponent arena (pose_x sensor) (pose_y sensor) t
               (pose_x opponent_near) (pose_y opponent_near) (pose_theta opponent_near)"
    using visibility_after_scan [OF scan_arena_near [of True]]
    by (simp add: see_opponent_def)
  have b: "\<not> see_opponent
      (arena\<lparr>scan_output := [99 / 200, 199 / 100], can_see_opponent := False\<rparr>)"
    using visibility_after_scan [OF scan_arena_near [of False]] by simp
  have c: "\<not> see_opponent
      (corridor\<lparr>scan_output := [1299 / 200, 1299 / 200], flag_can_see_opponent := True\<rparr>)"
    using visibility_after_scan [OF scan_corridor]
    by (simp add: corridor_sensor_def opponent_distant_def d corridor_fields)
  have t: "threshold corridor \<le> sqrt ((201 / 200 - 8) ^ 2 + (1 / 2 - 1 / 2) ^ 2)"
    unfolding d by (simp add: corridor_fields)
  from a b c t scan_arena_near [of True] scan_arena_near [of False] scan_corridor
    corridor_ray_meets
  show ?thesis by simp
qed

lemma scan_into_forward:
  assumes "scan_into S pose opp data = Some (Inr (out, S'))" "can_see_opponent S"
  shows "can_see_opponent S'"
  using scan_beams_visibility(1) [OF assms(1) [unfolded scan_into_def]] assms(2) by simp

lemma trace_ray_forward:
  assumes "trace_ray S x y th oX oY oT = Some (Inr (r, S'))" "can_see_opponent S"
  shows "can_see_opponent S'"
  using assms(2) unfolding trace_ray_state [OF assms(1)] by simp

text \<open>The loop stopped after \<open>k\<close> of its \<open>n\<close> beams.\<close>

lemma scan_beams_prefix:
  assumes "scan_beams n S pose opp i th data = Some (Inr (out, S'))" "k \<le> n"
  shows "\<exists>out_k S_k. scan_beams k S pose opp i th data = Some (Inr (out_k, S_k))
           \<and> (can_see_opponent S \<longrightarrow> can_see_opponent S_k)
           \<and> (can_see_opponent S_k \<longrightarrow> can_see_opponent S')"
  using assms
proof (induction n arbitrary: k S i th data)
  case 0
  then show ?case by simp
next
  case (Suc n)
  show ?case
  proof (cases k)
    case 0
    have "can_see_opponent S \<longrightarrow> can_see_opponent S'"
      using scan_beams_visibility(1) [OF Suc.prems(1)] by simp
    with 0 show ?thesis by simp
  next
    case k: (Suc k')
    from Suc.prems(1) obtain r S1 S2 r' th' where
      t: "trace_ray S (pose_x pose) (pose_y pose) th (pose_x opp) (pose_y opp) (pose_theta opp)
         = Some (Inr (r, S1))"
      and len: "i < length data"
      and S2: "S2 = (if scan_std_dev S1 > 0
             then S1\<lparr>noise_generator := snd (noise_dist S1 (noise_generator S1))\<rparr> else S1)"
      and r': "r' = (if scan_std_dev S1 > 0 then r + fst (noise_dist S1 (noise_generator S1)) else r)"
      and w: "wrap_index (real_of_int (theta_discretization S)) (th + theta_index_increment S) = Some th'"
      and rest: "scan_beams n S2 pose opp (Suc i) th' (data[i := r']) = Some (Inr (out, S'))"
      and f2: "fixed_part S2 = fixed_part S"
      by (rule scan_beams_Suc_Inr)
    have noise: "(if scan_std_dev S1 > 0
                    then (case noise_dist S1 (noise_generator S1) of
                            (z, g) \<Rightarrow> (r + z, S1\<lparr>noise_generator := g\<rparr>))
                    else (r, S1)) = (r', S2)"
      by (simp add: S2 r' split: prod.splits)
    have w2: "wrap_index (real_of_int (theta_discretization S2)) (th + theta_index_increment S2)
                = Some th'"
      using w by (simp add: fixed_fields [OF f2])
    have step: "scan_beams (Suc k') S pose opp i th data
                  = scan_beams k' S2 pose opp (Suc i) th' (data[i := r'])"
      using len by (simp add: t noise w2)
    have "k' \<le> n" using Suc.prems(2) k by simp
    from Suc.IH [OF rest this] obtain out_k S_k where
      p: "scan_beams k' S2 pose opp (Suc i) th' (data[i := r']) = Some (Inr (out_k, S_k))"
        "can_see_opponent S2 \<longrightarrow> can_see_opponent S_k"
        "can_see_opponent S_k \<longrightarrow> can_see_opponent S'"
      by blast
    have "can_see_opponent S \<longrightarrow> can_see_opponent S2"
      using trace_ray_forward [OF t] by (simp add: S2)
    with p show ?thesis unfolding k step by blast
  qed
qed

text \<open>
  From the first call of the flag overload on, the flag member and the result are never
  both true.
\<close>

lemma scan_beams_consistent:
  assumes "scan_beams n S pose opp i th data = Some (Inr (out, S'))"
    and "\<not> (flag_can_see_opponent S \<and> can_see_opponent S)"
  shows "\<not> (flag_can_see_opponent S' \<and> can_see_opponent S')"
  using scan_beams_visibility(1,2) [OF assms(1)] assms(2) by blast

lemma scan_consistent:
  assumes "scan S pose opp flag = Some (Inr (out, S'))"
  shows "\<not> (flag_can_see_opponent S' \<and> can_see_opponent S')"
    and "can_see_opponent S' \<longrightarrow> flag \<and> \<not> flag_can_see_opponent S'"
proof -
  let ?A = "S\<lparr>flag_can_see_opponent := flag, can_see_opponent := False\<rparr>"
  from assms obtain S2 where
    s: "scan_into ?A pose opp (scan_output S) = Some (Inr (out, S2))"
    and S': "S' = S2\<lparr>scan_output := out\<rparr>"
    by (rule scan_Inr)
  note v = scan_beams_visibility(1,2) [OF s [unfolded scan_into_def]]
  from v show "\<not> (flag_can_see_opponent S' \<and> can_see_opponent S')"
    by (auto simp: S')
  from v show "can_see_opponent S' \<longrightarrow> flag \<and> \<not> flag_can_see_opponent S'"
    by (auto simp: S')
qed

lemma scanned_consistent:
  assumes "scanned S"
  shows "\<not> (flag_can_see_opponent S \<and> can_see_opponent S)"
  using assms
proof (induction rule: scanned.induct)
  case (scan_returned S pose opponent_pose flag out S')
  then show ?case by (rule scan_consistent(1))
next
  case (scan_into_returned S pose opponent_pose scan_data out S')
  from scan_beams_consistent [OF scan_into_returned(2) [unfolded scan_into_def]
      scan_into_returned(3)]
  show ?case .
next
  case (set_map_returned S distance_2d occupancy height' width' resolution' origin' free_threshold)
  then show ?case by (simp add: set_map_def)
next
  case (values_replaced S "values")
  then show ?case by simp
qed

text \<open>
  Claim C8. The overload of \<open>scan\<close> that takes the flag sets the Visibility Result to false
  before its loop over the beams, whatever the flag and whatever earlier calls left; so
  the result is true after the call only if tracking was requested and a beam of this call
  raised it, which clears the flag member. During the loop, through either overload, the
  result is only written forward: each beam leaves a true result true, and if the result
  is true after \<open>k\<close> beams it is true after any \<open>n \<ge> k\<close>. The overload that writes into a
  buffer has no flag parameter and writes neither member before its loop: it tracks when
  the flag member is true, and with the flag member false it leaves the result as it finds
  it. In every state of the object from its first call of the other overload on, the flag
  member is true only when the result is false, so that a call of this overload that
  tracks starts from the result false as well.
\<close>

theorem visibility_reset_and_forward:
  "scan S pose opponent_pose flag =
     (case scan_into (S\<lparr>flag_can_see_opponent := flag, can_see_opponent := False\<rparr>)
             pose opponent_pose (scan_output S) of
        None \<Rightarrow> None
      | Some (Inl e) \<Rightarrow> Some (Inl e)
      | Some (Inr (scan_data, S2)) \<Rightarrow> Some (Inr (scan_data, S2\<lparr>scan_output := scan_data\<rparr>)))
   \<and> scan (S\<lparr>flag_can_see_opponent := a, can_see_opponent := b\<rparr>) pose opponent_pose flag
       = scan S pose opponent_pose flag
   \<and> (\<forall>out S'. scan S pose opponent_pose flag = Some (Inr (out, S'))
        \<longrightarrow> can_see_opponent S' \<longrightarrow> flag \<and> \<not> flag_can_see_opponent S')
   \<and> (\<forall>r S'. trace_ray S x y theta_index opponent_X opponent_Y opponent_theta
                  = Some (Inr (r, S')) \<longrightarrow> can_see_opponent S \<longrightarrow> can_see_opponent S')
   \<and> (\<forall>k n out S'. k \<le> n
        \<longrightarrow> scan_beams n S pose opponent_pose i theta_index scan_data = Some (Inr (out, S'))
        \<longrightarrow> (\<exists>out_k S_k. scan_beams k S pose opponent_pose i theta_index scan_data
                            = Some (Inr (out_k, S_k))
               \<and> (can_see_opponent S \<longrightarrow> can_see_opponent S_k)
               \<and> (can_see_opponent S_k \<longrightarrow> can_see_opponent S')))
   \<and> (\<forall>out S'. scan_into S pose opponent_pose scan_data = Some (Inr (out, S'))
        \<longrightarrow> (can_see_opponent S \<longrightarrow> can_see_opponent S')
          \<and> (\<not> flag_can_see_opponent S \<longrightarrow> can_see_opponent S' = can_see_opponent S))
   \<and> (scanned S \<longrightarrow> flag_can_see_opponent S \<longrightarrow> \<not> can_see_opponent S)"
proof (intro conjI allI impI)
  show "scan S pose opponent_pose flag =
     (case scan_into (S\<lparr>flag_can_see_opponent := flag, can_see_opponent := False\<rparr>)
             pose opponent_pose (scan_output S) of
        None \<Rightarrow> None
      | Some (Inl e) \<Rightarrow> Some (Inl e)
      | Some (Inr (scan_data, S2)) \<Rightarrow> Some (Inr (scan_data, S2\<lparr>scan_output := scan_data\<rparr>)))"
    by (simp add: scan_def Let_def)
  show "scan (S\<lparr>flag_can_see_opponent := a, can_see_opponent := b\<rparr>) pose opponent_pose flag
     = scan S pose opponent_pose flag"
    by (simp add: scan_def)
next
  fix out S'
  assume s: "scan S pose opponent_pose flag = Some (Inr (out, S'))" and c: "can_see_opponent S'"
  from scan_consistent(2) [OF s] c show "flag" "\<not> flag_can_see_opponent S'" by simp_all
next
  fix r S'
  assume "trace_ray S x y theta_index opponent_X opponent_Y opponent_theta = Some (Inr (r, S'))"
    "can_see_opponent S"
  then show "can_see_opponent S'" by (rule trace_ray_forward)
next
  fix k n out S'
  assume "k \<le> n"
    "scan_beams n S pose opponent_pose i theta_index scan_data = Some (Inr (out, S'))"
  from scan_beams_prefix [OF this(2,1)]
  show "\<exists>out_k S_k. scan_beams k S pose opponent_pose i theta_index scan_data
                            = Some (Inr (out_k, S_k))
               \<and> (can_see_opponent S \<longrightarrow> can_see_opponent S_k)
               \<and> (can_see_opponent S_k \<longrightarrow> can_see_opponent S')" .
next
  fix out S'
  assume s: "scan_into S pose opponent_pose scan_data = Some (Inr (out, S'))"
  show "can_see_opponent S'" if "can_see_opponent S"
    using s that by (rule scan_into_forward)
  show "can_see_opponent S' = can_see_opponent S" if "\<not> flag_can_see_opponent S"
    using scan_beams_visibility(1) [OF s [unfolded scan_into_def]] that by simp
next
  assume "scanned S" "flag_can_see_opponent S"
  with scanned_consistent [of S] show "\<not> can_see_opponent S" by simp
qed

lemma scan_arena_far:
  "scan (arena\<lparr>flag_can_see_opponent := True, can_see_opponent := True\<rparr>) sensor opponent_far
       True
     = Some (Inr ([199 / 100, 199 / 100],
         arena\<lparr>scan_output := [199 / 100, 199 / 100], flag_can_see_opponent := True\<rparr>))"
  by (simp add: scan_def Let_def arena_fields scan_into_sensor far_x far_y opponent_far_def)

theorem visibility_reset_and_forward_witness:
  "scan (arena\<lparr>flag_can_see_opponent := True, can_see_opponent := True\<rparr>) sensor opponent_far
       True
     = Some (Inr ([199 / 100, 199 / 100],
         arena\<lparr>scan_output := [199 / 100, 199 / 100], flag_can_see_opponent := True\<rparr>))
   \<and> scanned (arena\<lparr>scan_output := [199 / 100, 199 / 100], flag_can_see_opponent := True\<rparr>)
   \<and> flag_can_see_opponent
       (arena\<lparr>scan_output := [199 / 100, 199 / 100], flag_can_see_opponent := True\<rparr>)
   \<and> \<not> can_see_opponent
       (arena\<lparr>scan_output := [199 / 100, 199 / 100], flag_can_see_opponent := True\<rparr>)
   \<and> scan_into (arena\<lparr>scan_output := [199 / 100, 199 / 100], flag_can_see_opponent := True\<rparr>)
       sensor opponent_near [0, 0]
     = Some (Inr ([99 / 200, 199 / 100],
         arena\<lparr>scan_output := [199 / 100, 199 / 100], can_see_opponent := True\<rparr>))
   \<and> (0 :: nat) \<le> 2
   \<and> scan_beams 0 (arena\<lparr>scan_output := [199 / 100, 199 / 100], flag_can_see_opponent := True\<rparr>)
       sensor opponent_near 0 (7 / 2) [0, 0]
     = Some (Inr ([0, 0],
         arena\<lparr>scan_output := [199 / 100, 199 / 100], flag_can_see_opponent := True\<rparr>))"
proof -
  let ?S = "arena\<lparr>scan_output := [199 / 100, 199 / 100], flag_can_see_opponent := True\<rparr>"
  have sc: "scanned ?S"
    using scan_arena_far by (rule scanned.scan_returned)
  have fl: "flag_can_see_opponent ?S" by simp
  have nc: "\<not> can_see_opponent ?S"
    using visibility_reset_and_forward [where S = ?S, THEN conjunct2, THEN conjunct2,
        THEN conjunct2, THEN conjunct2, THEN conjunct2, THEN conjunct2] sc fl
    by blast
  have f: "fixed_part ?S = fixed_part arena" by simp
  have e: "scan_into ?S sensor opponent_near [0, 0]
     = Some (Inr ([99 / 200, 199 / 100],
         arena\<lparr>scan_output := [199 / 100, 199 / 100], can_see_opponent := True\<rparr>))"
    by (simp add: scan_into_sensor [OF f] near_x near_y opponent_near_def Let_def arena_fields)
  from scan_arena_far sc fl nc e show ?thesis by simp
qed

subsection \<open>Scans without noise\<close>

lemma trace_ray_ranges:
  assumes "fixed_part S1 = fixed_part S2"
  shows "map_option (map_sum id fst) (trace_ray S1 x y th oX oY oT)
       = map_option (map_sum id fst) (trace_ray S2 x y th oX oY oT)"
proof -
  have g: "map_option (map_sum id fst) (trace_ray S x y th oX oY oT) =
      (let i = table_index th
       in if \<not> in_tables S i then Some (Inl Table_index_out_of_range)
          else (case ray_march (distance_transform S) (cosines S ! nat i) (sines S ! nat i) x y of
                  None \<Rightarrow> None
                | Some (Inl e) \<Rightarrow> Some (Inl e)
                | Some (Inr (x', y', tot)) \<Rightarrow>
                    Some (Inr (fst (opponent_range S i (arctanes S ! nat i) x y x' y' tot
                                      oX oY oT)))))" for S
    by (simp add: trace_ray_def Let_def split: option.splits sum.splits)
  show ?thesis
    unfolding g fixed_in_tables [OF assms] fixed_distance_transform [OF assms]
      fixed_opponent_range [OF assms] fixed_fields [OF assms]
    by (rule refl)
qed

lemma trace_ray_rel:
  assumes "fixed_part S1 = fixed_part S2"
  shows "(trace_ray S1 x y th oX oY oT = None \<and> trace_ray S2 x y th oX oY oT = None)
       \<or> (\<exists>e. trace_ray S1 x y th oX oY oT = Some (Inl e)
              \<and> trace_ray S2 x y th oX oY oT = Some (Inl e))
       \<or> (\<exists>r S1' S2'. trace_ray S1 x y th oX oY oT = Some (Inr (r, S1'))
              \<and> trace_ray S2 x y th oX oY oT = Some (Inr (r, S2'))
              \<and> fixed_part S1' = fixed_part S2')"
proof -
  note eq = trace_ray_ranges [OF assms, of x y th oX oY oT]
  show ?thesis
  proof (cases "trace_ray S1 x y th oX oY oT")
    case None
    with eq show ?thesis by simp
  next
    case (Some v)
    with eq obtain v' where
      t2: "trace_ray S2 x y th oX oY oT = Some v'" and vv: "map_sum id fst v = map_sum id fst v'"
      by (cases "trace_ray S2 x y th oX oY oT") auto
    show ?thesis
    proof (cases v)
      case (Inl e)
      with vv have "v' = Inl e" by (cases v') auto
      with Some Inl t2 show ?thesis by simp
    next
      case (Inr p)
      obtain r S1' where p: "p = (r, S1')" by (cases p)
      from Inr p vv obtain S2' where v': "v' = Inr (r, S2')" by (cases v') auto
      have "fixed_part S1' = fixed_part S1"
        using Some Inr p by (intro trace_ray_fixed(1)) simp
      moreover have "fixed_part S2' = fixed_part S2"
        using t2 v' by (intro trace_ray_fixed(1)) simp
      ultimately show ?thesis using Some Inr p t2 v' assms by simp
    qed
  qed
qed

lemma scan_beams_without_noise:
  assumes "fixed_part S1 = fixed_part S2" "scan_std_dev S1 \<le> 0"
    and "length d1 = length d2" "take i d1 = take i d2" "length d1 \<le> i + n"
  shows "ranges_of (scan_beams n S1 pose opp i th d1)
       = ranges_of (scan_beams n S2 pose opp i th d2)"
  using assms
proof (induction n arbitrary: S1 S2 i th d1 d2)
  case 0
  then show ?case by (simp add: ranges_of_def)
next
  case (Suc n)
  let ?t1 = "trace_ray S1 (pose_x pose) (pose_y pose) th (pose_x opp) (pose_y opp) (pose_theta opp)"
  let ?t2 = "trace_ray S2 (pose_x pose) (pose_y pose) th (pose_x opp) (pose_y opp) (pose_theta opp)"
  have "(?t1 = None \<and> ?t2 = None)
      \<or> (\<exists>e. ?t1 = Some (Inl e) \<and> ?t2 = Some (Inl e))
      \<or> (\<exists>r S1' S2'. ?t1 = Some (Inr (r, S1')) \<and> ?t2 = Some (Inr (r, S2'))
              \<and> fixed_part S1' = fixed_part S2')"
    by (rule trace_ray_rel [OF Suc.prems(1)])
  then consider "?t1 = None" "?t2 = None"
    | e where "?t1 = Some (Inl e)" "?t2 = Some (Inl e)"
    | r S1' S2' where "?t1 = Some (Inr (r, S1'))" "?t2 = Some (Inr (r, S2'))"
        "fixed_part S1' = fixed_part S2'"
    by (elim disjE exE conjE) blast+
  then show ?case
  proof cases
    case 1
    then show ?thesis by (simp add: ranges_of_def)
  next
    case 2
    then show ?thesis by (simp add: ranges_of_def)
  next
    case 3
    have f1: "fixed_part S1' = fixed_part S1" using 3(1) by (rule trace_ray_fixed(1))
    have sd1: "scan_std_dev S1' \<le> 0" using Suc.prems(2) by (simp add: fixed_fields [OF f1])
    have sd2: "scan_std_dev S2' \<le> 0" using sd1 by (simp add: fixed_fields [OF 3(3)])
    have w: "theta_discretization S2' = theta_discretization S1'"
      "theta_index_increment S2' = theta_index_increment S1'"
      by (simp_all add: fixed_fields [OF 3(3)])
    show ?thesis
    proof (cases "i < length d1")
      case False
      then show ?thesis using 3 Suc.prems(3) by (simp add: ranges_of_def)
    next
      case True
      have tk: "take (Suc i) (d1[i := r]) = take (Suc i) (d2[i := r])"
        using True Suc.prems(3,4) by (simp add: take_Suc_conv_app_nth)
      show ?thesis
      proof (cases "wrap_index (real_of_int (theta_discretization S1'))
                      (th + theta_index_increment S1')")
        case None
        then show ?thesis using 3 True Suc.prems(3) sd1 sd2 w by (simp add: ranges_of_def)
      next
        case (Some th')
        have "ranges_of (scan_beams n S1' pose opp (Suc i) th' (d1[i := r]))
            = ranges_of (scan_beams n S2' pose opp (Suc i) th' (d2[i := r]))"
          using Suc.prems(3,5) by (intro Suc.IH 3(3) sd1 tk) simp_all
        then show ?thesis using 3 True Suc.prems(3) sd1 sd2 w Some by simp
      qed
    qed
  qed
qed

lemma scan_beams_generator:
  assumes "scan_beams n S pose opp i th data = Some (Inr (out, S'))" "scan_std_dev S \<le> 0"
  shows "noise_generator S' = noise_generator S"
  using assms
proof (induction n arbitrary: S i th data)
  case 0
  then show ?case by simp
next
  case (Suc n)
  from Suc.prems(1) obtain r S1 S2 r' th' where
    t: "trace_ray S (pose_x pose) (pose_y pose) th (pose_x opp) (pose_y opp) (pose_theta opp)
       = Some (Inr (r, S1))"
    and S2: "S2 = (if scan_std_dev S1 > 0
           then S1\<lparr>noise_generator := snd (noise_dist S1 (noise_generator S1))\<rparr> else S1)"
    and rest: "scan_beams n S2 pose opp (Suc i) th' (data[i := r']) = Some (Inr (out, S'))"
    and f2: "fixed_part S2 = fixed_part S"
    by (rule scan_beams_Suc_Inr)
  have sd2: "scan_std_dev S2 \<le> 0" using Suc.prems(2) by (simp add: fixed_fields [OF f2])
  have "scan_std_dev S1 \<le> 0"
    using Suc.prems(2) by (simp add: fixed_fields [OF trace_ray_fixed(1) [OF t]])
  then have "S2 = S1" by (simp add: S2)
  then have "noise_generator S2 = noise_generator S" using trace_ray_fixed(3) [OF t] by simp
  with Suc.IH [OF rest sd2] show ?case by simp
qed

lemma ranges_of_scan:
  "ranges_of (scan S pose opp flag)
     = ranges_of (scan_into (S\<lparr>flag_can_see_opponent := flag, can_see_opponent := False\<rparr>)
                    pose opp (scan_output S))"
  by (simp add: scan_def ranges_of_def Let_def split: option.splits sum.splits)

text \<open>
  Claim C2. When the configured noise standard deviation is \<open>0\<close> the noise step is skipped:
  the random generator is left as it was, and two scans with the same sensor pose, the same
  opponent pose and the same configuration and map give the same ranges, whatever the
  generators, the distributions, the visibility members and the old contents of the output
  buffers of the two objects are, and with either flag.
\<close>

theorem scan_deterministic_without_noise:
  assumes "fixed_part S1 = fixed_part S2" "scan_std_dev S1 = 0"
    and "length (scan_output S1) = nat (num_beams S1)"
    and "length (scan_output S2) = nat (num_beams S2)"
  shows "ranges_of (scan S1 pose opponent_pose flag1) = ranges_of (scan S2 pose opponent_pose flag2)
       \<and> (\<forall>out S'. scan S1 pose opponent_pose flag1 = Some (Inr (out, S'))
             \<longrightarrow> noise_generator S' = noise_generator S1)"
proof
  let ?A = "S1\<lparr>flag_can_see_opponent := flag1, can_see_opponent := False\<rparr>"
  let ?B = "S2\<lparr>flag_can_see_opponent := flag2, can_see_opponent := False\<rparr>"
  have f: "fixed_part ?A = fixed_part ?B" using assms(1) by simp
  have n: "num_beams S2 = num_beams S1" by (simp add: fixed_fields [OF assms(1)])
  have "ranges_of (scan_into ?A pose opponent_pose (scan_output S1))
      = ranges_of (scan_into ?B pose opponent_pose (scan_output S2))"
    unfolding scan_into_def fixed_start_index [OF f]
    using assms(2-4) n by (simp, intro scan_beams_without_noise f) simp_all
  then show "ranges_of (scan S1 pose opponent_pose flag1)
           = ranges_of (scan S2 pose opponent_pose flag2)"
    by (simp only: ranges_of_scan)
  show "\<forall>out S'. scan S1 pose opponent_pose flag1 = Some (Inr (out, S'))
             \<longrightarrow> noise_generator S' = noise_generator S1"
  proof (intro allI impI)
    fix out S'
    assume "scan S1 pose opponent_pose flag1 = Some (Inr (out, S'))"
    then obtain S2' where
      s: "scan_into ?A pose opponent_pose (scan_output S1) = Some (Inr (out, S2'))"
      and S': "S' = S2'\<lparr>scan_output := out\<rparr>"
      by (rule scan_Inr)
    from s have "noise_generator S2' = noise_generator ?A"
      unfolding scan_into_def using assms(2) by (intro scan_beams_generator) simp_all
    then show "noise_generator S' = noise_generator S1" by (simp add: S')
  qed
qed

theorem scan_deterministic_without_noise_witness:
  "ranges_of (scan arena sensor opponent_near True)
     = ranges_of (scan (arena\<lparr>noise_generator := 7, can_see_opponent := True,
                            scan_output := [3, 4]\<rparr>) sensor opponent_near False)
   \<and> ranges_of (scan arena sensor opponent_near True) = Some (Inr [99 / 200, 199 / 100])
   \<and> scan_std_dev arena = 0"
  using scan_deterministic_without_noise [where ?S1.0 = arena
      and ?S2.0 = "arena\<lparr>noise_generator := 7, can_see_opponent := True, scan_output := [3, 4]\<rparr>"
      and pose = sensor and opponent_pose = opponent_near and ?flag1.0 = True and ?flag2.0 = False,
      THEN conjunct1]
  by (simp add: arena_fields scan_arena_near ranges_of_def)

subsection \<open>What the loops return\<close>

text \<open>Partial correctness of the two loops of the marcher, as induction rules.\<close>

lemma back_off_induct [consumes 1, case_names step]:
  assumes r: "back_off rt q c s x y e d = Some r"
    and step: "\<And>x y e d r.
           (\<And>d'. d = 0 \<Longrightarrow> q (rt x c) (rt y s) = Inr d' \<Longrightarrow>
                 back_off rt q c s (rt x c) (rt y s) (e + 0.01) d' = Some r \<Longrightarrow>
                 P (rt x c) (rt y s) (e + 0.01) d' r) \<Longrightarrow>
           back_off rt q c s x y e d = Some r \<Longrightarrow> P x y e d r"
  shows "P x y e d r"
proof -
  let ?Q = "\<lambda>rt' q' c' s' x y e d r.
      rt' = rt \<longrightarrow> q' = q \<longrightarrow> c' = c \<longrightarrow> s' = s
        \<longrightarrow> P x y e d r \<and> back_off rt q c s x y e d = Some r"
  have "?Q rt q c s x y e d r"
  proof (rule back_off.raw_induct [where xa = "(((((((rt, q), c), s), x), y), e), d)" and ya = r
        and P = ?Q, unfolded prod.case])
    show "back_off rt q c s x y e d = Some r" by (rule r)
  next
    fix bo :: "(real \<Rightarrow> real \<Rightarrow> real) \<Rightarrow> (real \<Rightarrow> real \<Rightarrow> fault + real) \<Rightarrow> real \<Rightarrow> real \<Rightarrow> real
        \<Rightarrow> real \<Rightarrow> real \<Rightarrow> real \<Rightarrow> (fault + real \<times> real \<times> real) option"
    fix rt' :: "real \<Rightarrow> real \<Rightarrow> real" and q' :: "real \<Rightarrow> real \<Rightarrow> fault + real"
      and c' s' x y e d :: real and r :: "fault + real \<times> real \<times> real"
    assume IH: "\<And>a c s x y e d b r. bo a c s x y e d b = Some r \<Longrightarrow> ?Q a c s x y e d b r"
    assume body: "(if d = 0
      then case q' (rt' x c') (rt' y s') of
           Inl e \<Rightarrow> Some (Inl e)
           | Inr d' \<Rightarrow> bo rt' q' c' s' (rt' x c') (rt' y s') (e + 0.01) d'
      else Some (Inr (x, y, e))) = Some r"
    show "?Q rt' q' c' s' x y e d r"
    proof (intro impI)
      assume eq: "rt' = rt" "q' = q" "c' = c" "s' = s"
      have ret: "back_off rt q c s x y e d = Some r"
      proof (cases "d = 0")
        case False
        with body show ?thesis by (subst back_off.simps) simp
      next
        case True
        show ?thesis
        proof (cases "q (rt x c) (rt y s)")
          case (Inl f)
          with body True eq show ?thesis by (subst back_off.simps) simp
        next
          case (Inr d')
          with body True eq have "bo rt q c s (rt x c) (rt y s) (e + 0.01) d' = Some r"
            by simp
          from IH [OF this] have "back_off rt q c s (rt x c) (rt y s) (e + 0.01) d' = Some r"
            by simp
          with Inr True show ?thesis by (subst back_off.simps) simp
        qed
      qed
      have "P x y e d r"
      proof (rule step [OF _ ret])
        fix d'
        assume "d = 0" "q (rt x c) (rt y s) = Inr d'"
        with body eq have "bo rt q c s (rt x c) (rt y s) (e + 0.01) d' = Some r"
          by simp
        from IH [OF this] show "P (rt x c) (rt y s) (e + 0.01) d' r" by simp
      qed
      with ret show "P x y e d r \<and> back_off rt q c s x y e d = Some r" by simp
    qed
  qed
  then show ?thesis by simp
qed

lemma march_induct [consumes 1, case_names step]:
  assumes r: "march rt q c s x y d tot = Some r"
    and step: "\<And>x y d tot r.
           (\<And>d'. d \<noteq> 0 \<Longrightarrow> q (x + d * c) (y + d * s) = Inr d' \<Longrightarrow> d' \<noteq> 0 \<Longrightarrow>
                 march rt q c s (x + d * c) (y + d * s) d' (tot + d') = Some r \<Longrightarrow>
                 P (x + d * c) (y + d * s) d' (tot + d') r) \<Longrightarrow>
           march rt q c s x y d tot = Some r \<Longrightarrow> P x y d tot r"
  shows "P x y d tot r"
proof -
  let ?Q = "\<lambda>rt' q' c' s' x y d tot r.
      rt' = rt \<longrightarrow> q' = q \<longrightarrow> c' = c \<longrightarrow> s' = s
        \<longrightarrow> P x y d tot r \<and> march rt q c s x y d tot = Some r"
  have "?Q rt q c s x y d tot r"
  proof (rule march.raw_induct [where xa = "(((((((rt, q), c), s), x), y), d), tot)" and ya = r
        and P = ?Q, unfolded prod.case])
    show "march rt q c s x y d tot = Some r" by (rule r)
  next
    fix m :: "(real \<Rightarrow> real \<Rightarrow> real) \<Rightarrow> (real \<Rightarrow> real \<Rightarrow> fault + real) \<Rightarrow> real \<Rightarrow> real \<Rightarrow> real
        \<Rightarrow> real \<Rightarrow> real \<Rightarrow> real \<Rightarrow> (fault + real \<times> real \<times> real) option"
    fix rt' :: "real \<Rightarrow> real \<Rightarrow> real" and q' :: "real \<Rightarrow> real \<Rightarrow> fault + real"
      and c' s' x y d tot :: real and r :: "fault + real \<times> real \<times> real"
    assume IH: "\<And>a c s x y d tot b r. m a c s x y d tot b = Some r \<Longrightarrow> ?Q a c s x y d tot b r"
    assume body: "(if d \<noteq> 0
      then case q' (x + d * c') (y + d * s') of
             Inl e \<Rightarrow> Some (Inl e)
           | Inr d' \<Rightarrow>
               if d' = 0
               then case back_off rt' q' c' s' (x + d * c') (y + d * s') 0 d' of
                      None \<Rightarrow> None
                    | Some (Inl e) \<Rightarrow> Some (Inl e)
                    | Some (Inr (x', y', error)) \<Rightarrow> Some (Inr (x', y', tot + d' - error))
               else m rt' q' c' s' (x + d * c') (y + d * s') d' (tot + d')
      else Some (Inr (x, y, tot))) = Some r"
    show "?Q rt' q' c' s' x y d tot r"
    proof (intro impI)
      assume eq: "rt' = rt" "q' = q" "c' = c" "s' = s"
      have rec: "march rt q c s (x + d * c) (y + d * s) d' (tot + d') = Some r
            \<and> P (x + d * c) (y + d * s) d' (tot + d') r"
        if "d \<noteq> 0" "q (x + d * c) (y + d * s) = Inr d'" "d' \<noteq> 0" for d'
      proof -
        from body eq that have "m rt q c s (x + d * c) (y + d * s) d' (tot + d') = Some r"
          by simp
        from IH [OF this] show ?thesis by simp
      qed
      have ret: "march rt q c s x y d tot = Some r"
      proof (cases "d = 0")
        case True
        with body show ?thesis by (subst march.simps) simp
      next
        case False
        show ?thesis
        proof (cases "q (x + d * c) (y + d * s)")
          case (Inl f)
          with body False eq show ?thesis by (subst march.simps) simp
        next
          case (Inr d')
          show ?thesis
          proof (cases "d' = 0")
            case True
            with body False eq Inr show ?thesis by (subst march.simps) simp
          next
            case d': False
            from rec [OF False Inr d'] Inr False d' show ?thesis
              by (subst march.simps) simp
          qed
        qed
      qed
      have "P x y d tot r"
        by (rule step [OF _ ret]) (use rec in blast)
      with ret show "P x y d tot r \<and> march rt q c s x y d tot = Some r" by simp
    qed
  qed
  then show ?thesis by simp
qed

text \<open>A fault of the marcher is a fault of a query.\<close>

lemma back_off_fault:
  assumes "back_off rt q c s x y e d = Some (Inl f)"
  shows "\<exists>x' y'. q x' y' = Inl f"
proof -
  have "r = Inl f \<longrightarrow> (\<exists>x' y'. q x' y' = Inl f)" if "back_off rt q c s x y e d = Some r" for r
    using that
  proof (induction rule: back_off_induct)
    case (step x y e d r)
    show ?case
    proof
      assume r: "r = Inl f"
      from step(2) r have b: "back_off rt q c s x y e d = Some (Inl f)" by simp
      show "\<exists>x' y'. q x' y' = Inl f"
      proof (cases "d = 0")
        case False
        with b show ?thesis by (subst (asm) back_off.simps) simp
      next
        case True
        show ?thesis
        proof (cases "q (rt x c) (rt y s)")
          case (Inl f')
          with b True have "f' = f" by (subst (asm) back_off.simps) simp
          with Inl show ?thesis by blast
        next
          case (Inr d')
          with b True have "back_off rt q c s (rt x c) (rt y s) (e + 0.01) d' = Some r"
            unfolding r by (subst (asm) back_off.simps) simp
          from step(1) [OF True Inr this] r show ?thesis by simp
        qed
      qed
    qed
  qed
  with assms show ?thesis by blast
qed

lemma march_fault:
  assumes "march rt q c s x y d tot = Some (Inl f)"
  shows "\<exists>x' y'. q x' y' = Inl f"
proof -
  have "r = Inl f \<longrightarrow> (\<exists>x' y'. q x' y' = Inl f)" if "march rt q c s x y d tot = Some r" for r
    using that
  proof (induction rule: march_induct)
    case (step x y d tot r)
    show ?case
    proof
      assume r: "r = Inl f"
      from step(2) r have b: "march rt q c s x y d tot = Some (Inl f)" by simp
      show "\<exists>x' y'. q x' y' = Inl f"
      proof (cases "d = 0")
        case True
        with b show ?thesis by (subst (asm) march.simps) simp
      next
        case False
        show ?thesis
        proof (cases "q (x + d * c) (y + d * s)")
          case (Inl f')
          with b False have "f' = f" by (subst (asm) march.simps) simp
          with Inl show ?thesis by blast
        next
          case (Inr d')
          show ?thesis
          proof (cases "d' = 0")
            case True
            with b False Inr have "back_off rt q c s (x + d * c) (y + d * s) 0 0 = Some (Inl f)"
              by (subst (asm) march.simps)
                (auto split: option.splits sum.splits)
            then show ?thesis by (rule back_off_fault)
          next
            case d': False
            with b False Inr have "march rt q c s (x + d * c) (y + d * s) d' (tot + d') = Some r"
              unfolding r by (subst (asm) march.simps) simp
            from step(1) [OF False Inr d' this] r show ?thesis by simp
          qed
        qed
      qed
    qed
  qed
  with assms show ?thesis by blast
qed

lemma trace_ray_table_fault:
  assumes "trace_ray S x y th oX oY oT = Some (Inl Table_index_out_of_range)"
  shows "\<not> in_tables S (table_index th)"
proof
  assume it: "in_tables S (table_index th)"
  let ?c = "cosines S ! nat (table_index th)" and ?s = "sines S ! nat (table_index th)"
  from assms it have "ray_march (distance_transform S) ?c ?s x y = Some (Inl Table_index_out_of_range)"
    by (auto simp: trace_ray_def Let_def split: option.splits sum.splits)
  then have "\<exists>x' y'. distance_transform S x' y' = Inl Table_index_out_of_range"
    by (auto simp: ray_march_def ray_march_with_def split: sum.splits dest: march_fault)
  then show False
    by (auto simp: distance_transform_def Let_def split: if_splits)
qed

subsection \<open>Where the marcher arrives\<close>

lemma min_positive:
  fixes xs :: "real list"
  assumes "\<forall>v\<in>set xs. 0 \<le> v"
  shows "\<exists>m>0. \<forall>v\<in>set xs. v = 0 \<or> m \<le> v"
  using assms
proof (induction xs)
  case Nil
  show ?case by (intro exI [of _ 1]) simp
next
  case (Cons v xs)
  then obtain m where m: "0 < m" "\<forall>v\<in>set xs. v = 0 \<or> m \<le> v" by auto
  show ?case
  proof (cases "v = 0")
    case True
    with m show ?thesis by auto
  next
    case False
    with Cons.prems have "0 < v" by auto
    with m show ?thesis by (intro exI [of _ "min m v"]) auto
  qed
qed

lemma field_at_in_dt:
  assumes "grid_fits S" "field_at S x y \<noteq> 0"
  shows "in_map S x y" "field_at S x y \<in> set (dt S)"
proof -
  from assms have w: "int (width S) < 2 ^ 31" and wh: "int (width S) * int (height S) < 2 ^ 31"
    and len: "length (dt S) = width S * height S"
    by (simp_all add: grid_fits_def)
  show m: "in_map S x y" using assms(2) by (auto simp: field_at_def split: if_splits)
  note i = inside_map [OF w wh m]
  have "nat (\<lfloor>y_rot S x y / resolution S\<rfloor> * int (width S) + \<lfloor>x_rot S x y / resolution S\<rfloor>)
          < length (dt S)"
    using i(3,4) len by (simp add: nat_less_iff)
  then show "field_at S x y \<in> set (dt S)"
    using m by (simp add: field_at_def)
qed


lemma rot_step:
  "x_rot S (x + d * c) (y + d * s) = x_rot S x y + d * (c * origin_c S + s * origin_s S)"
  "y_rot S (x + d * c) (y + d * s) = y_rot S x y + d * (- c * origin_s S + s * origin_c S)"
  by (simp_all add: x_rot_def y_rot_def algebra_simps)

lemma in_map_bound:
  assumes "in_map S x y"
  shows "x_rot S x y * a + y_rot S x y * b
           \<le> \<bar>a\<bar> * (real (width S) * resolution S) + \<bar>b\<bar> * (real (height S) * resolution S)"
proof -
  from assms have xr: "0 \<le> x_rot S x y" "x_rot S x y \<le> real (width S) * resolution S"
    and yr: "0 \<le> y_rot S x y" "y_rot S x y \<le> real (height S) * resolution S"
    by (simp_all add: in_map_def)
  have "x_rot S x y * a \<le> x_rot S x y * \<bar>a\<bar>" using xr(1) by (intro mult_left_mono) simp_all
  also have "\<dots> \<le> (real (width S) * resolution S) * \<bar>a\<bar>"
    using xr(2) by (intro mult_right_mono) simp_all
  finally have 1: "x_rot S x y * a \<le> \<bar>a\<bar> * (real (width S) * resolution S)"
    by (simp add: mult.commute)
  have "y_rot S x y * b \<le> y_rot S x y * \<bar>b\<bar>" using yr(1) by (intro mult_left_mono) simp_all
  also have "\<dots> \<le> (real (height S) * resolution S) * \<bar>b\<bar>"
    using yr(2) by (intro mult_right_mono) simp_all
  finally have 2: "y_rot S x y * b \<le> \<bar>b\<bar> * (real (height S) * resolution S)"
    by (simp add: mult.commute)
  from 1 2 show ?thesis by linarith
qed


text \<open>Every beam leaves the map: far enough along it the query is \<open>0\<close>.\<close>

lemma rays_reach_zero:
  assumes "c \<noteq> 0 \<or> s \<noteq> 0" "origin_c S \<noteq> 0 \<or> origin_s S \<noteq> 0"
  shows "\<exists>t\<ge>0. field_at S (x + t * c) (y + t * s) = 0"
proof -
  define a where "a = c * origin_c S + s * origin_s S"
  define b where "b = - c * origin_s S + s * origin_c S"
  define B where "B = \<bar>a\<bar> * (real (width S) * resolution S) + \<bar>b\<bar> * (real (height S) * resolution S)"
  define u where "u = x_rot S x y * a + y_rot S x y * b"
  have "a\<^sup>2 + b\<^sup>2 = (c\<^sup>2 + s\<^sup>2) * ((origin_c S)\<^sup>2 + (origin_s S)\<^sup>2)"
    by (simp add: a_def b_def power2_eq_square algebra_simps)
  moreover have "0 < c\<^sup>2 + s\<^sup>2" using assms(1) by (auto simp: sum_power2_gt_zero_iff)
  moreover have "0 < (origin_c S)\<^sup>2 + (origin_s S)\<^sup>2"
    using assms(2) by (auto simp: sum_power2_gt_zero_iff)
  ultimately have g: "0 < a\<^sup>2 + b\<^sup>2" by simp
  define t where "t = max 0 ((B - u) / (a\<^sup>2 + b\<^sup>2) + 1)"
  have t0: "0 \<le> t" by (simp add: t_def)
  have "(B - u) / (a\<^sup>2 + b\<^sup>2) < t" by (simp add: t_def)
  then have "B - u < t * (a\<^sup>2 + b\<^sup>2)" using g by (simp add: pos_divide_less_eq)
  moreover have "x_rot S (x + t * c) (y + t * s) * a + y_rot S (x + t * c) (y + t * s) * b
      = u + t * (a\<^sup>2 + b\<^sup>2)"
    unfolding rot_step u_def a_def b_def by (simp add: algebra_simps power2_eq_square)
  ultimately have "B < x_rot S (x + t * c) (y + t * s) * a + y_rot S (x + t * c) (y + t * s) * b"
    by linarith
  then have "\<not> in_map S (x + t * c) (y + t * s)"
    using in_map_bound [of S "x + t * c" "y + t * s" a b] by (auto simp: B_def)
  then have "field_at S (x + t * c) (y + t * s) = 0" by (simp add: field_at_def)
  with t0 show ?thesis by blast
qed


text \<open>The points the inner loop visits.\<close>

lemma back_point_Suc:
  "back_point rt c s x y (Suc n)
     = (rt (fst (back_point rt c s x y n)) c, rt (snd (back_point rt c s x y n)) s)"
  by (induction n arbitrary: x y) simp_all

lemma back_point_exact:
  "back_point step_back c s x y n = (x - real n * (0.01 * c), y - real n * (0.01 * s))"
  by (induction n arbitrary: x y) (simp_all add: step_back_def algebra_simps)

lemma back_off_finds:
  assumes "1 \<le> n" "field_at_point S (back_point rt c s x y n) \<noteq> 0"
  shows "\<exists>m\<ge>1. m \<le> n
           \<and> back_off rt (\<lambda>x y. Inr (field_at S x y)) c s x y e 0
               = Some (Inr (fst (back_point rt c s x y m), snd (back_point rt c s x y m),
                            e + 0.01 * real m))
           \<and> field_at_point S (back_point rt c s x y m) \<noteq> 0
           \<and> (\<forall>j. 1 \<le> j \<and> j < m \<longrightarrow> field_at_point S (back_point rt c s x y j) = 0)"
  using assms
proof (induction n arbitrary: x y e)
  case 0
  then show ?case by simp
next
  case (Suc n)
  let ?q = "\<lambda>x y. Inr (field_at S x y) :: fault + real"
  let ?x = "rt x c" and ?y = "rt y s"
  show ?case
  proof (cases "field_at S ?x ?y = 0")
    case False
    have "back_off rt ?q c s ?x ?y (e + 0.01) (field_at S ?x ?y) = Some (Inr (?x, ?y, e + 0.01))"
      using False by (subst back_off.simps) simp
    then have "back_off rt ?q c s x y e 0 = Some (Inr (?x, ?y, e + 0.01))"
      by (subst back_off.simps) simp
    with False show ?thesis
      by (intro exI [of _ 1]) (simp add: field_at_point_def)
  next
    case True
    have n: "1 \<le> n"
    proof (rule ccontr)
      assume "\<not> 1 \<le> n"
      then have "n = 0" by simp
      with Suc.prems(2) True show False by (simp add: field_at_point_def)
    qed
    from Suc.prems(2) have "field_at_point S (back_point rt c s ?x ?y n) \<noteq> 0" by simp
    from Suc.IH [OF n this, of "e + 0.01"] obtain m where
      m: "1 \<le> m" "m \<le> n"
        "back_off rt ?q c s ?x ?y (e + 0.01) 0
           = Some (Inr (fst (back_point rt c s ?x ?y m), snd (back_point rt c s ?x ?y m),
                        e + 0.01 + 0.01 * real m))"
        "field_at_point S (back_point rt c s ?x ?y m) \<noteq> 0"
        "\<forall>j. 1 \<le> j \<and> j < m \<longrightarrow> field_at_point S (back_point rt c s ?x ?y j) = 0"
      by blast
    have b: "back_off rt ?q c s x y e 0
           = Some (Inr (fst (back_point rt c s x y (Suc m)), snd (back_point rt c s x y (Suc m)),
                        e + 0.01 * real (Suc m)))"
      using True m(3) by (subst back_off.simps) (simp add: algebra_simps)
    have z: "field_at_point S (back_point rt c s x y j) = 0" if "1 \<le> j" "j < Suc m" for j
    proof (cases j)
      case 0
      with that show ?thesis by simp
    next
      case (Suc j')
      show ?thesis
      proof (cases "j' = 0")
        case True
        with Suc \<open>field_at S ?x ?y = 0\<close> show ?thesis by (simp add: field_at_point_def)
      next
        case False
        with that Suc m(5) show ?thesis by simp
      qed
    qed
    from m(1,2,4) b z show ?thesis
      by (intro exI [of _ "Suc m"]) simp
  qed
qed

lemma back_off_returned:
  assumes "back_off rt (\<lambda>x y. Inr (field_at S x y)) c s x y e 0 = Some r"
  shows "\<exists>n\<ge>1. field_at_point S (back_point rt c s x y n) \<noteq> 0"
proof -
  have "d = 0 \<longrightarrow> (\<exists>n\<ge>1. field_at_point S (back_point rt c s x y n) \<noteq> 0)"
    if "back_off rt (\<lambda>x y. Inr (field_at S x y)) c s x y e d = Some r" for d
    using that
  proof (induction rule: back_off_induct)
    case (step x y e d r)
    let ?x = "rt x c" and ?y = "rt y s"
    show ?case
    proof
      assume d: "d = 0"
      show "\<exists>n\<ge>1. field_at_point S (back_point rt c s x y n) \<noteq> 0"
      proof (cases "field_at S ?x ?y = 0")
        case False
        then have "field_at_point S (back_point rt c s x y 1) \<noteq> 0"
          by (simp add: field_at_point_def)
        then show ?thesis by (intro exI [of _ 1]) simp
      next
        case True
        from step(2) d
        have "back_off rt (\<lambda>x y. Inr (field_at S x y)) c s ?x ?y (e + 0.01) (field_at S ?x ?y)
                = Some r"
          by (subst (asm) back_off.simps) simp
        from step(1) [OF d refl this] True obtain n where
          n: "1 \<le> n" "field_at_point S (back_point rt c s ?x ?y n) \<noteq> 0"
          by auto
        then have "field_at_point S (back_point rt c s x y (Suc n)) \<noteq> 0" by simp
        then show ?thesis by (intro exI [of _ "Suc n"]) simp
      qed
    qed
  qed
  with assms show ?thesis by blast
qed

text \<open>
  Progress of the outer loop. In the frame of the grid a step of length \<open>d\<close> along the beam
  moves the point by \<open>d\<close> times \<open>(a, b)\<close>; the product of the point with \<open>(a, b)\<close> grows by
  \<open>d (a\<^sup>2 + b\<^sup>2)\<close> and is bounded inside the map. So the loop arrives at a point of distance
  \<open>0\<close>, and the marcher is the back-off loop from there.
\<close>

lemma march_arrives:
  fixes S :: ScanSimulator2D and c s m :: real
  defines "a \<equiv> c * origin_c S + s * origin_s S"
    and "b \<equiv> - c * origin_s S + s * origin_c S"
  defines "B \<equiv> \<bar>a\<bar> * (real (width S) * resolution S) + \<bar>b\<bar> * (real (height S) * resolution S)"
  defines "q \<equiv> \<lambda>x y. Inr (field_at S x y) :: fault + real"
  assumes grid: "grid_fits S" and m: "0 < m" "\<forall>v\<in>set (dt S). v = 0 \<or> m \<le> v"
    and g: "0 < a\<^sup>2 + b\<^sup>2"
    and nz: "field_at S x y \<noteq> 0"
    and k: "B - (x_rot S x y * a + y_rot S x y * b) < real k * (m * (a\<^sup>2 + b\<^sup>2))"
  shows "\<exists>T\<ge>tot.
           advance q c s x y (field_at S x y) tot
             = Some (Inr (x + (field_at S x y + T - tot) * c, y + (field_at S x y + T - tot) * s, T))
         \<and> field_at S (x + (field_at S x y + T - tot) * c) (y + (field_at S x y + T - tot) * s) = 0
         \<and> (\<forall>rt. march rt q c s x y (field_at S x y) tot
               = (case back_off rt q c s (x + (field_at S x y + T - tot) * c)
                         (y + (field_at S x y + T - tot) * s) 0 0 of
                    None \<Rightarrow> None
                  | Some (Inl e) \<Rightarrow> Some (Inl e)
                  | Some (Inr (x', y', err)) \<Rightarrow> Some (Inr (x', y', T - err))))"
  using nz k
proof (induction k arbitrary: x y tot)
  case 0
  from field_at_in_dt(1) [OF grid "0.prems"(1)] have "in_map S x y" .
  from in_map_bound [OF this, of a b] "0.prems"(2) show ?case by (simp add: B_def)
next
  case (Suc k)
  define d where "d = field_at S x y"
  define x' where "x' = x + d * c"
  define y' where "y' = y + d * s"
  define d' where "d' = field_at S x' y'"
  have dm: "m \<le> d"
    using field_at_in_dt(2) [OF grid Suc.prems(1)] m(2) Suc.prems(1) by (auto simp: d_def)
  have dnz: "d \<noteq> 0" using Suc.prems(1) by (simp add: d_def)
  show ?case
  proof (cases "d' = 0")
    case True
    have adv: "advance q c s x y d tot = Some (Inr (x', y', tot))"
      using dnz True
      by (subst advance.simps, subst advance.simps)
        (simp add: q_def x'_def [symmetric] y'_def [symmetric] d'_def [symmetric])
    have mar: "march rt q c s x y d tot
               = (case back_off rt q c s x' y' 0 0 of
                    None \<Rightarrow> None
                  | Some (Inl e) \<Rightarrow> Some (Inl e)
                  | Some (Inr (x'', y'', err)) \<Rightarrow> Some (Inr (x'', y'', tot - err)))" for rt
      using dnz True
      by (subst march.simps)
        (simp add: q_def x'_def [symmetric] y'_def [symmetric] d'_def [symmetric]
           split: option.splits sum.splits)
    have p: "x + (d + tot - tot) * c = x'" "y + (d + tot - tot) * s = y'"
      by (simp_all add: x'_def y'_def)
    show ?thesis
      unfolding d_def [symmetric]
      apply (intro exI [of _ tot])
      unfolding p
      using adv mar True
      by (simp add: d'_def)
  next
    case False
    have u: "x_rot S x' y' * a + y_rot S x' y' * b
               = x_rot S x y * a + y_rot S x y * b + d * (a\<^sup>2 + b\<^sup>2)"
      unfolding x'_def y'_def rot_step a_def b_def by (simp add: algebra_simps power2_eq_square)
    have "m * (a\<^sup>2 + b\<^sup>2) \<le> d * (a\<^sup>2 + b\<^sup>2)"
      using dm g by (intro mult_right_mono) simp_all
    then have k': "B - (x_rot S x' y' * a + y_rot S x' y' * b) < real k * (m * (a\<^sup>2 + b\<^sup>2))"
      using Suc.prems(2) unfolding u by (simp add: algebra_simps)
    have nz': "field_at S x' y' \<noteq> 0" using False by (simp add: d'_def)
    have d'pos: "0 \<le> d'"
      using field_at_in_dt(2) [OF grid nz'] m by (auto simp: d'_def)
    from Suc.IH [OF nz' k', of "tot + d'"] obtain T where
      T: "tot + d' \<le> T"
        "advance q c s x' y' d' (tot + d')
           = Some (Inr (x' + (d' + T - (tot + d')) * c, y' + (d' + T - (tot + d')) * s, T))"
        "field_at S (x' + (d' + T - (tot + d')) * c) (y' + (d' + T - (tot + d')) * s) = 0"
        "\<And>rt. march rt q c s x' y' d' (tot + d')
               = (case back_off rt q c s (x' + (d' + T - (tot + d')) * c)
                         (y' + (d' + T - (tot + d')) * s) 0 0 of
                    None \<Rightarrow> None
                  | Some (Inl e) \<Rightarrow> Some (Inl e)
                  | Some (Inr (x'', y'', err)) \<Rightarrow> Some (Inr (x'', y'', T - err)))"
      unfolding d'_def [symmetric] by blast
    have p: "x' + (d' + T - (tot + d')) * c = x + (d + T - tot) * c"
      "y' + (d' + T - (tot + d')) * s = y + (d + T - tot) * s"
      by (simp_all add: x'_def y'_def algebra_simps)
    have adv: "advance q c s x y d tot = advance q c s x' y' d' (tot + d')"
      using dnz
      by (subst advance.simps)
        (simp add: q_def x'_def [symmetric] y'_def [symmetric] d'_def [symmetric])
    have mar: "march rt q c s x y d tot = march rt q c s x' y' d' (tot + d')" for rt
      using dnz False
      by (subst march.simps)
        (simp add: q_def x'_def [symmetric] y'_def [symmetric] d'_def [symmetric])
    have "tot \<le> T" using T(1) d'pos by linarith
    with T(2,3,4) show ?thesis
      unfolding d_def [symmetric] adv mar p by blast
  qed
qed

lemma ray_march_arrives:
  fixes S :: ScanSimulator2D
  defines "q \<equiv> \<lambda>x y. Inr (field_at S x y) :: fault + real"
  assumes "grid_fits S" "\<forall>v\<in>set (dt S). 0 \<le> v"
    and "c \<noteq> 0 \<or> s \<noteq> 0" "origin_c S \<noteq> 0 \<or> origin_s S \<noteq> 0"
  shows "\<exists>T\<ge>0. reach q c s x y = Some (Inr (x + T * c, y + T * s, T))
         \<and> field_at S (x + T * c) (y + T * s) = 0
         \<and> (field_at S x y = 0 \<longleftrightarrow> T = 0)
         \<and> (\<forall>rt. ray_march_with rt q c s x y
               = (if field_at S x y = 0 then Some (Inr (x, y, 0))
                  else (case back_off rt q c s (x + T * c) (y + T * s) 0 0 of
                          None \<Rightarrow> None
                        | Some (Inl e) \<Rightarrow> Some (Inl e)
                        | Some (Inr (x', y', err)) \<Rightarrow> Some (Inr (x', y', T - err)))))"
proof (cases "field_at S x y = 0")
  case True
  have "reach q c s x y = Some (Inr (x, y, 0))"
    using True by (simp add: reach_def q_def advance.simps)
  moreover have "ray_march_with rt q c s x y = Some (Inr (x, y, 0))" for rt
    using True by (simp add: ray_march_with_def q_def march.simps)
  ultimately show ?thesis
    using True by (intro exI [of _ 0]) simp
next
  case False
  define a where "a = c * origin_c S + s * origin_s S"
  define b where "b = - c * origin_s S + s * origin_c S"
  define B where "B = \<bar>a\<bar> * (real (width S) * resolution S) + \<bar>b\<bar> * (real (height S) * resolution S)"
  have "a\<^sup>2 + b\<^sup>2 = (c\<^sup>2 + s\<^sup>2) * ((origin_c S)\<^sup>2 + (origin_s S)\<^sup>2)"
    by (simp add: a_def b_def power2_eq_square algebra_simps)
  moreover have "0 < c\<^sup>2 + s\<^sup>2" using assms(4) by (auto simp: sum_power2_gt_zero_iff)
  moreover have "0 < (origin_c S)\<^sup>2 + (origin_s S)\<^sup>2"
    using assms(5) by (auto simp: sum_power2_gt_zero_iff)
  ultimately have g: "0 < a\<^sup>2 + b\<^sup>2" by simp
  from min_positive [OF assms(3)] obtain m where m: "0 < m" "\<forall>v\<in>set (dt S). v = 0 \<or> m \<le> v"
    by blast
  have mg: "0 < m * (a\<^sup>2 + b\<^sup>2)" using m(1) g by simp
  obtain k :: nat where
    "(B - (x_rot S x y * a + y_rot S x y * b)) / (m * (a\<^sup>2 + b\<^sup>2)) < real k"
    using reals_Archimedean2 by blast
  then have k: "B - (x_rot S x y * a + y_rot S x y * b) < real k * (m * (a\<^sup>2 + b\<^sup>2))"
    using mg by (simp add: pos_divide_less_eq)
  define d where "d = field_at S x y"
  have dpos: "0 < d"
    using field_at_in_dt(2) [OF assms(2) False] assms(3) False by (auto simp: d_def)
  from march_arrives [OF assms(2) m g [unfolded a_def b_def] False
      k [unfolded B_def a_def b_def], of d]
  obtain T where T: "d \<le> T"
    "advance q c s x y d d = Some (Inr (x + T * c, y + T * s, T))"
    "field_at S (x + T * c) (y + T * s) = 0"
    "\<And>rt. march rt q c s x y d d
            = (case back_off rt q c s (x + T * c) (y + T * s) 0 0 of
                 None \<Rightarrow> None
               | Some (Inl e) \<Rightarrow> Some (Inl e)
               | Some (Inr (x', y', err)) \<Rightarrow> Some (Inr (x', y', T - err)))"
    unfolding d_def [symmetric] q_def [symmetric] by auto
  have "reach q c s x y = Some (Inr (x + T * c, y + T * s, T))"
    using T(2) by (simp add: reach_def q_def d_def)
  moreover have "ray_march_with rt q c s x y
               = (case back_off rt q c s (x + T * c) (y + T * s) 0 0 of
                    None \<Rightarrow> None
                  | Some (Inl e) \<Rightarrow> Some (Inl e)
                  | Some (Inr (x', y', err)) \<Rightarrow> Some (Inr (x', y', T - err)))" for rt
    using T(4) [of rt] by (simp add: ray_march_with_def q_def d_def)
  moreover have "0 < T" using T(1) dpos by linarith
  ultimately show ?thesis
    using False T(3) by (intro exI [of _ T]) simp
qed

subsection \<open>The table index of every beam\<close>

lemma wrap_index_below:
  assumes "0 < td" "t < td * real (Suc n)"
  shows "\<exists>t'. wrap_index td t = Some t' \<and> t' < td \<and> (0 \<le> t \<longrightarrow> 0 \<le> t')"
  using assms(2)
proof (induction n arbitrary: t)
  case 0
  then show ?case by (subst wrap_index.simps) simp
next
  case (Suc n)
  show ?case
  proof (cases "td \<le> t")
    case False
    then show ?thesis by (subst wrap_index.simps) simp
  next
    case True
    have "t - td < td * real (Suc n)" using Suc.prems by (simp add: algebra_simps)
    from Suc.IH [OF this] obtain t' where
      "wrap_index td (t - td) = Some t'" "t' < td" "0 \<le> t - td \<longrightarrow> 0 \<le> t'" by blast
    with True show ?thesis by (subst wrap_index.simps) simp
  qed
qed

lemma wrap_index_returns:
  assumes "0 < td"
  shows "\<exists>t'. wrap_index td t = Some t' \<and> t' < td \<and> (0 \<le> t \<longrightarrow> 0 \<le> t')"
proof -
  obtain n :: nat where "t / td < real n" using reals_Archimedean2 by blast
  then have "t < td * real n" using assms by (simp add: pos_divide_less_eq mult.commute)
  also have "\<dots> \<le> td * real (Suc n)" using assms by simp
  finally show ?thesis by (rule wrap_index_below [OF assms])
qed

lemma fmod_bounds:
  assumes "0 < b"
  shows "- b < fmod a b" "fmod a b < b"
proof -
  define q where "q = a / b"
  have a: "a = q * b" using assms by (simp add: q_def)
  have f: "fmod a b = (q - of_int (trunc_real q)) * b"
    by (simp add: fmod_def q_def [symmetric] a algebra_simps)
  have "- 1 < q - of_int (trunc_real q) \<and> q - of_int (trunc_real q) < 1"
    unfolding trunc_real_def by (auto; linarith)
  then have u: "- 1 < q - of_int (trunc_real q)" "q - of_int (trunc_real q) < 1"
    by simp_all
  have "- 1 * b < (q - of_int (trunc_real q)) * b"
    using u(1) assms by (rule mult_strict_right_mono)
  then show "- b < fmod a b" unfolding f by simp
  have "(q - of_int (trunc_real q)) * b < 1 * b"
    using u(2) assms by (rule mult_strict_right_mono)
  then show "fmod a b < b" unfolding f by simp
qed

lemma start_index_bounds:
  assumes "0 < theta_discretization S"
  shows "0 \<le> start_index S pose" "start_index S pose < real_of_int (theta_discretization S)"
proof -
  have b: "0 < real_of_int (theta_discretization S)" using assms by simp
  note fmod_bounds [OF b]
  then show "0 \<le> start_index S pose" "start_index S pose < real_of_int (theta_discretization S)"
    unfolding start_index_def Let_def by (auto split: if_splits; smt (verit))+
qed

lemma table_index_bounds:
  assumes "0 \<le> t" "t < real_of_int td" "td < 2 ^ 31"
  shows "0 \<le> table_index t" "table_index t \<le> td"
proof -
  have "t + 0.5 < real_of_int (td + 1)" using assms(2) by simp
  then have f: "\<lfloor>t + 0.5\<rfloor> < td + 1"
    by (simp only: floor_less_iff)
  have g: "0 \<le> \<lfloor>t + 0.5\<rfloor>" using assms(1) by simp
  have tr: "trunc_real (t + 0.5) = \<lfloor>t + 0.5\<rfloor>"
    using assms(1) by (simp add: trunc_real_def)
  have cond: "- (2 ^ 31) \<le> \<lfloor>t + 0.5\<rfloor> \<and> \<lfloor>t + 0.5\<rfloor> < 2 ^ 31"
    using f g assms(3) by linarith
  have "table_index t = \<lfloor>t + 0.5\<rfloor>"
    unfolding table_index_def int_of_double_def Let_def tr
    by (simp only: cond simp_thms if_True)
  with f g show "0 \<le> table_index t" "table_index t \<le> td" by linarith+
qed

lemma in_tables_beam:
  assumes "angle_cache_ok S" "0 \<le> t" "t < real_of_int (theta_discretization S)"
  shows "in_tables S (table_index t)" "0 \<le> table_index t"
    "table_index t \<le> theta_discretization S"
proof -
  from assms(1) have td: "theta_discretization S < 2 ^ 31" by (simp add: angle_cache_ok_def)
  note b = table_index_bounds [OF assms(2,3) td]
  show "0 \<le> table_index t" "table_index t \<le> theta_discretization S" by (rule b)+
  show "in_tables S (table_index t)"
    using assms(1) b by (simp add: in_tables_def angle_cache_ok_def nat_less_iff)
qed

lemma fixed_angle_cache_ok:
  assumes "fixed_part S1 = fixed_part S2"
  shows "angle_cache_ok S1 = angle_cache_ok S2"
  unfolding angle_cache_ok_def fixed_fields [OF assms] by (rule refl)

lemma constructed_angle_cache_ok:
  assumes "2 \<le> nb" "0 \<le> fov" "1 \<le> td" "td < 2 ^ 31 - 1"
  shows "angle_cache_ok (ScanSimulator2D nb fov sd mr cw eps td seed normal raw)"
  using assms by (simp add: angle_cache_ok_def ScanSimulator2D_def Let_def arctanes_loop_eq)

lemma beam_theta_bounds:
  assumes "angle_cache_ok S" "0 \<le> t" "t < real_of_int (theta_discretization S)"
  shows "\<exists>t'. beam_theta S t j = Some t' \<and> 0 \<le> t' \<and> t' < real_of_int (theta_discretization S)"
  using assms(2,3)
proof (induction j arbitrary: t)
  case 0
  then show ?case by simp
next
  case (Suc j)
  from assms(1) have td: "0 < real_of_int (theta_discretization S)"
    and inc: "0 \<le> theta_index_increment S"
    by (simp_all add: angle_cache_ok_def)
  from wrap_index_returns [OF td, of "t + theta_index_increment S"] obtain t' where
    w: "wrap_index (real_of_int (theta_discretization S)) (t + theta_index_increment S) = Some t'"
    and t': "t' < real_of_int (theta_discretization S)" "0 \<le> t'"
    using Suc.prems(1) inc by auto
  from Suc.IH [OF t'(2,1)] w show ?case by simp
qed

lemma scan_beams_no_table_fault:
  assumes "angle_cache_ok S" "0 \<le> t" "t < real_of_int (theta_discretization S)"
  shows "scan_beams n S pose opp i t data \<noteq> Some (Inl Table_index_out_of_range)"
  using assms
proof (induction n arbitrary: S i t data)
  case 0
  then show ?case by simp
next
  case (Suc n)
  let ?t = "trace_ray S (pose_x pose) (pose_y pose) t (pose_x opp) (pose_y opp) (pose_theta opp)"
  have nt: "?t \<noteq> Some (Inl Table_index_out_of_range)"
    using trace_ray_table_fault [of S _ _ t] in_tables_beam(1) [OF Suc.prems] by blast
  show ?case
  proof (cases ?t)
    case None
    then show ?thesis by simp
  next
    case (Some v)
    show ?thesis
    proof (cases v)
      case (Inl e)
      with Some nt show ?thesis by simp
    next
      case (Inr p)
      obtain r S1 where p: "p = (r, S1)" by (cases p)
      define S2 where "S2 = (if scan_std_dev S1 > 0
           then S1\<lparr>noise_generator := snd (noise_dist S1 (noise_generator S1))\<rparr> else S1)"
      define r' where "r' = (if scan_std_dev S1 > 0 then r + fst (noise_dist S1 (noise_generator S1)) else r)"
      have f1: "fixed_part S1 = fixed_part S"
        using Some Inr p by (intro trace_ray_fixed(1)) simp
      have f2: "fixed_part S2 = fixed_part S" using f1 by (simp add: S2_def)
      have noise: "(if scan_std_dev S1 > 0
                    then (case noise_dist S1 (noise_generator S1) of
                            (z, g) \<Rightarrow> (r + z, S1\<lparr>noise_generator := g\<rparr>))
                    else (r, S1)) = (r', S2)"
        by (simp add: S2_def r'_def split: prod.splits)
      have ok2: "angle_cache_ok S2" using Suc.prems(1) fixed_angle_cache_ok [OF f2] by simp
      from Suc.prems(1) have td: "0 < real_of_int (theta_discretization S2)"
        and inc: "0 \<le> theta_index_increment S2"
        by (simp_all add: angle_cache_ok_def fixed_fields [OF f2])
      from wrap_index_returns [OF td, of "t + theta_index_increment S2"] obtain t' where
        w: "wrap_index (real_of_int (theta_discretization S2)) (t + theta_index_increment S2) = Some t'"
        and t': "t' < real_of_int (theta_discretization S2)" "0 \<le> t'"
        using Suc.prems(2) inc by auto
      from Suc.IH [OF ok2 t'(2,1)] show ?thesis
        by (simp add: Some Inr p noise w)
    qed
  qed
qed

text \<open>
  The constructor and \<open>set_map\<close> write different members, so a simulator that was
  constructed and then given a map is a simulator constructed over storage that holds the
  map: the lemma below, stated for any storage, holds for any map.
\<close>

lemma set_map_constructed:
  "set_map distance_2d (ScanSimulator2D nb fov sd mr cw eps td seed normal raw)
       occupancy h w res org free
     = ScanSimulator2D nb fov sd mr cw eps td seed normal
         (set_map distance_2d raw occupancy h w res org free)"
  by (simp add: set_map_def ScanSimulator2D_def Let_def)

text \<open>
  Where the step per beam is not negative the indices stay in the tables. The simulator
  is a constructed one, with at least two beams, a field of view that is not negative and a
  positive \<open>theta_discretization\<close> such that \<open>theta_discretization + 1\<close> is an \<open>int\<close>;
  the heading is one for which the product of line 98 is a finite \<open>double\<close> (beyond that
  the machine's index is not a number). Then every index the loop of \<open>scan\<close> computes is
  in \<open>[0, theta_discretization)\<close>, its table slot is inside the three tables, and neither
  overload of \<open>scan\<close> reads outside them.
\<close>

lemma nonnegative_step_within_tables:
  assumes "2 \<le> nb" "0 \<le> fov" "1 \<le> td" "td < 2 ^ 31 - 1"
    and "\<bar>real_of_int td * (pose_theta pose - fov / 2)\<bar> < 2 ^ 1023"
  shows
    "(\<forall>j t. beam_theta (ScanSimulator2D nb fov sd mr cw eps td seed normal raw)
                 (start_index (ScanSimulator2D nb fov sd mr cw eps td seed normal raw) pose) j
               = Some t
             \<longrightarrow> 0 \<le> t \<and> t < real_of_int td
               \<and> 0 \<le> table_index t \<and> table_index t \<le> td
               \<and> in_tables (ScanSimulator2D nb fov sd mr cw eps td seed normal raw)
                     (table_index t))
     \<and> scan_into (ScanSimulator2D nb fov sd mr cw eps td seed normal raw) pose opponent_pose
          scan_data \<noteq> Some (Inl Table_index_out_of_range)
     \<and> scan (ScanSimulator2D nb fov sd mr cw eps td seed normal raw) pose opponent_pose flag
          \<noteq> Some (Inl Table_index_out_of_range)"
proof -
  define S where "S = ScanSimulator2D nb fov sd mr cw eps td seed normal raw"
  have ok: "angle_cache_ok S" unfolding S_def by (rule constructed_angle_cache_ok [OF assms(1-4)])
  have td: "theta_discretization S = td" by (simp add: S_def ScanSimulator2D_def Let_def)
  have pos: "0 < theta_discretization S" using assms(3) td by simp
  note st = start_index_bounds [OF pos, of pose]
  have beams: "0 \<le> t \<and> t < real_of_int td
             \<and> 0 \<le> table_index t \<and> table_index t \<le> td \<and> in_tables S (table_index t)"
    if "beam_theta S (start_index S pose) j = Some t" for j t
  proof -
    from beam_theta_bounds [OF ok st, of j] that have
      t: "0 \<le> t" "t < real_of_int (theta_discretization S)"
      by auto
    from in_tables_beam [OF ok t] t show ?thesis unfolding td by blast
  qed
  have into: "scan_into S' pose opponent_pose d \<noteq> Some (Inl Table_index_out_of_range)"
    if "fixed_part S' = fixed_part S" for S' d
  proof -
    have ok': "angle_cache_ok S'" using ok fixed_angle_cache_ok [OF that] by simp
    have pos': "0 < theta_discretization S'" using pos by (simp add: fixed_fields [OF that])
    show ?thesis
      unfolding scan_into_def
      by (rule scan_beams_no_table_fault [OF ok' start_index_bounds [OF pos']])
  qed
  have "scan S pose opponent_pose flag \<noteq> Some (Inl Table_index_out_of_range)"
    using into [of "S\<lparr>flag_can_see_opponent := flag, can_see_opponent := False\<rparr>" "scan_output S"]
    by (auto simp: scan_def Let_def split: option.splits sum.splits)
  with beams into [of S scan_data] show ?thesis unfolding S_def by blast
qed

text \<open>The arena with the field of view \<open>- pi\<close>, evaluated.\<close>

lemma arena_reversed_fields:
  "num_beams arena_reversed = 2" "field_of_view arena_reversed = - pi"
  "scan_std_dev arena_reversed = 0" "scan_max_range arena_reversed = 10"
  "cube_width arena_reversed = 1" "ray_tracing_epsilon arena_reversed = 1 / 10000"
  "theta_discretization arena_reversed = 4" "angle_increment arena_reversed = - pi"
  "theta_index_increment arena_reversed = - 2" "threshold arena_reversed = 5"
  "scan_output arena_reversed = [0, 0]"
  by (simp_all add: arena_reversed_def ScanSimulator2D_def Let_def blank_def numeral_2_eq_2)

lemma arena_reversed_tables:
  "sines arena_reversed = [0, 1, 0, - 1, 0]" "cosines arena_reversed = [1, 0, - 1, 0, 1]"
  "arctanes arena_reversed = [Infinite, Finite 0, Infinite, Finite 0, Infinite]"
  by (simp_all add: arena_reversed_def ScanSimulator2D_def Let_def upt5 slot4
      arctanes_loop_eq cotangent_def sin_cos_3pi2 tan_def)

lemma arena_reversed_query: "distance_transform arena_reversed = distance_transform arena"
  by (intro ext)
    (simp add: distance_transform_def xy_to_cell_def xy_to_row_col_def row_col_to_cell_def
      arena_reversed_def arena_def ScanSimulator2D_def Let_def)

lemma arena_reversed_first:
  "trace_ray arena_reversed (401 / 200) (401 / 200) 0 (1 / 2) (1 / 2) 0
     = Some (Inr (199 / 100, arena_reversed))"
  by (simp add: trace_ray_def Let_def table_index_0 in_tables_def arena_reversed_fields
      arena_reversed_tables arena_reversed_query march_x opponent_range_def corner_heading_0
      beam_misses_def axis_beam_def)

lemma table_index_minus_2: "table_index (- 2) = - 1"
  by (simp add: table_index_def int_of_double_def trunc_real_def Let_def ceiling_def)

lemma arena_reversed_second:
  "trace_ray arena_reversed (401 / 200) (401 / 200) (- 2) (1 / 2) (1 / 2) 0
     = Some (Inl Table_index_out_of_range)"
  by (simp add: trace_ray_def Let_def table_index_minus_2 in_tables_def)

text \<open>
  Claim C10 fails on the code. The start index is wrapped into \<open>[0, theta_discretization)\<close>
  for every heading, and the wrap of lines 121 and 122 brings an index that has grown
  beyond \<open>theta_discretization\<close> back below it; but it only subtracts. With a negative
  field of view the step per beam is negative, and nothing brings an index that has
  fallen below \<open>0\<close> back up, as line 104 does for the start index. In the arena with the
  field of view \<open>- pi\<close> and the heading \<open>- pi / 2\<close> the start index is \<open>0\<close>, the first beam
  is traced at table slot \<open>0\<close>, the step is \<open>- 2\<close>, and the second beam has the index \<open>- 2\<close>
  and the table slot \<open>- 1\<close>, one before each of the three tables.
\<close>

theorem negative_step_leaves_tables:
  "field_of_view arena_reversed = - pi \<and> theta_index_increment arena_reversed = - 2
   \<and> start_index arena_reversed sensor_turned = 0 \<and> table_index 0 = 0
   \<and> trace_ray arena_reversed (401 / 200) (401 / 200) 0 (1 / 2) (1 / 2) 0
       = Some (Inr (199 / 100, arena_reversed))
   \<and> beam_theta arena_reversed (start_index arena_reversed sensor_turned) 1 = Some (- 2)
   \<and> table_index (- 2) = - 1 \<and> \<not> in_tables arena_reversed (- 1)
   \<and> trace_ray arena_reversed (401 / 200) (401 / 200) (- 2) (1 / 2) (1 / 2) 0
       = Some (Inl Table_index_out_of_range)
   \<and> scan arena_reversed sensor_turned opponent_far False
       = Some (Inl Table_index_out_of_range)"
proof -
  have si: "start_index arena_reversed sensor_turned = 0"
    by (simp add: start_index_def Let_def sensor_turned_def arena_reversed_fields fmod_def
        trunc_real_def)
  have w: "wrap_index 4 (- 2) = Some (- 2)"
    by (simp add: wrap_index.simps)
  have bt: "beam_theta arena_reversed (start_index arena_reversed sensor_turned) 1 = Some (- 2)"
    by (simp add: si arena_reversed_fields w)
  have nt: "\<not> in_tables arena_reversed (- 1)" by (simp add: in_tables_def)
  let ?A = "arena_reversed\<lparr>flag_can_see_opponent := False, can_see_opponent := False\<rparr>"
  have A: "?A = arena_reversed"
    by (simp add: arena_reversed_def ScanSimulator2D_def Let_def blank_def)
  have two: "nat (num_beams arena_reversed) = Suc (Suc 0)"
    by (simp add: arena_reversed_fields)
  have b: "scan_beams (Suc (Suc 0)) arena_reversed sensor_turned opponent_far 0 0 [0, 0]
             = Some (Inl Table_index_out_of_range)"
    by (simp add: sensor_turned_def opponent_far_def arena_reversed_first arena_reversed_second
        arena_reversed_fields w)
  have "scan_into arena_reversed sensor_turned opponent_far [0, 0]
          = Some (Inl Table_index_out_of_range)"
    unfolding scan_into_def two si by (rule b)
  then have s: "scan arena_reversed sensor_turned opponent_far False
                  = Some (Inl Table_index_out_of_range)"
    by (simp add: scan_def Let_def A arena_reversed_fields)
  from si bt nt s arena_reversed_first arena_reversed_second table_index_minus_2 table_index_0
  show ?thesis by (simp add: arena_reversed_fields)
qed
subsection \<open>Bounds on the ranges\<close>

lemma foldl_le_init:
  fixes a :: real
  assumes "\<And>acc i. f acc i \<le> acc"
  shows "foldl f a xs \<le> a"
proof (induction xs arbitrary: a)
  case Nil
  show ?case by simp
next
  case (Cons i xs)
  have "foldl f (f a i) xs \<le> f a i" by (rule Cons.IH)
  also have "\<dots> \<le> a" by (rule assms)
  finally show ?case by simp
qed

lemma foldl_ge_bound:
  fixes a l :: real
  assumes "\<And>acc i. l \<le> acc \<Longrightarrow> l \<le> f acc i" "l \<le> a"
  shows "l \<le> foldl f a xs"
  using assms(2) by (induction xs arbitrary: a) (simp_all add: assms(1))

lemma scan_to_square_bounds:
  "scan_to_square S ox oy points array \<le> scan_max_range S"
  "min 0 (scan_max_range S) \<le> scan_to_square S ox oy points array"
proof -
  show "scan_to_square S ox oy points array \<le> scan_max_range S"
    unfolding scan_to_square_def by (rule foldl_le_init) (simp split: option.splits)
  have far: "min 0 (scan_max_range S) \<le> sqrt ((ox - ix)\<^sup>2 + (oy - iy)\<^sup>2)" for ix iy
  proof -
    have "0 \<le> sqrt ((ox - ix)\<^sup>2 + (oy - iy)\<^sup>2)" by simp
    then show ?thesis by linarith
  qed
  show "min 0 (scan_max_range S) \<le> scan_to_square S ox oy points array"
    unfolding scan_to_square_def
  proof (rule foldl_ge_bound)
    fix acc :: real and i :: nat
    assume "min 0 (scan_max_range S) \<le> acc"
    then show "min 0 (scan_max_range S) \<le>
      (case array ! i of
         None \<Rightarrow> acc
       | Some (iy, ix) \<Rightarrow>
           if between_eps (ray_tracing_epsilon S) (points ! i ! 0) (points ! i ! 1) iy
           then if between_eps (ray_tracing_epsilon S) (points ! i ! 2) (points ! i ! 3) ix
                then min acc (sqrt ((ox - ix)\<^sup>2 + (oy - iy)\<^sup>2))
                else acc
           else acc)"
      using far by (simp split: option.splits)
  qed simp
qed

text \<open>The range of a beam, branch by branch.\<close>

lemma opponent_range_branches:
  fixes S i k ox oy x y tot oX oY oT
  defines "r \<equiv> fst (opponent_range S i k ox oy x y tot oX oY oT)"
    and "d \<equiv> sqrt ((ox - oX) ^ 2 + (oy - oY) ^ 2)"
  shows "r \<le> scan_max_range S"
    and "if beam_meets_opponent S i k ox oy x y tot oX oY oT
         then (if axis_beam S i then r = min (d - cube_width S / 2) (scan_max_range S)
               else min 0 (scan_max_range S) \<le> r)
         else r = min tot (scan_max_range S)"
    and "min (min 0 (scan_max_range S)) (min tot (d - cube_width S / 2)) \<le> r"
proof -
  show u: "r \<le> scan_max_range S"
    unfolding r_def opponent_range_def Let_def by (simp add: scan_to_square_bounds(1))
  show b: "if beam_meets_opponent S i k ox oy x y tot oX oY oT
         then (if axis_beam S i then r = min (d - cube_width S / 2) (scan_max_range S)
               else min 0 (scan_max_range S) \<le> r)
         else r = min tot (scan_max_range S)"
    unfolding r_def d_def opponent_range_def beam_meets_opponent_def Let_def
    by (simp add: scan_to_square_bounds(2))
  show "min (min 0 (scan_max_range S)) (min tot (d - cube_width S / 2)) \<le> r"
    using b by (auto split: if_splits simp: min_le_iff_disj)
qed

text \<open>Without noise every slot of the output holds what \<open>trace_ray\<close> returns for its beam.\<close>

lemma scan_beams_entries:
  assumes "scan_beams n S pose opp i th data = Some (Inr (out, S'))" "scan_std_dev S \<le> 0"
  shows "length out = length data"
    and "\<forall>j<i. out ! j = data ! j"
    and "\<forall>j<n. \<exists>t S2. beam_theta S th j = Some t
           \<and> trace_ray S (pose_x pose) (pose_y pose) t (pose_x opp) (pose_y opp) (pose_theta opp)
               = Some (Inr (out ! (i + j), S2))"
  using assms unfolding atomize_conj
proof (induction n arbitrary: S i th data)
  case 0
  then show ?case by simp
next
  case (Suc n)
  let ?tr = "\<lambda>S t. trace_ray S (pose_x pose) (pose_y pose) t (pose_x opp) (pose_y opp)
      (pose_theta opp)"
  from Suc.prems(1) obtain r S1 S2 r' th' where
    t: "?tr S th = Some (Inr (r, S1))"
    and len: "i < length data"
    and r': "r' = (if scan_std_dev S1 > 0 then r + fst (noise_dist S1 (noise_generator S1)) else r)"
    and w: "wrap_index (real_of_int (theta_discretization S)) (th + theta_index_increment S) = Some th'"
    and rest: "scan_beams n S2 pose opp (Suc i) th' (data[i := r']) = Some (Inr (out, S'))"
    and f2: "fixed_part S2 = fixed_part S"
    by (rule scan_beams_Suc_Inr)
  have f1: "fixed_part S1 = fixed_part S" using t by (rule trace_ray_fixed(1))
  have "scan_std_dev S1 \<le> 0" using Suc.prems(2) by (simp add: fixed_fields [OF f1])
  then have rr: "r' = r" by (simp add: r')
  have sd2: "scan_std_dev S2 \<le> 0" using Suc.prems(2) by (simp add: fixed_fields [OF f2])
  from Suc.IH [OF rest sd2] have
    l: "length out = length (data[i := r'])"
    and keep: "\<forall>j<Suc i. out ! j = (data[i := r']) ! j"
    and later: "\<forall>j<n. \<exists>t S3. beam_theta S2 th' j = Some t
                 \<and> ?tr S2 t = Some (Inr (out ! (Suc i + j), S3))"
    by simp_all
  have first: "out ! i = r" using keep len rr by simp
  have beams: "\<exists>t S3. beam_theta S th j = Some t \<and> ?tr S t = Some (Inr (out ! (i + j), S3))"
    if "j < Suc n" for j
  proof (cases j)
    case 0
    with t first show ?thesis by simp
  next
    case (Suc j')
    with that later obtain t' S3 where
      b: "beam_theta S2 th' j' = Some t'" and tr: "?tr S2 t' = Some (Inr (out ! (Suc i + j'), S3))"
      by auto
    from b have b': "beam_theta S th j = Some t'"
      using w by (simp add: Suc fixed_beam_theta [OF f2])
    from trace_ray_rel [OF f2, of "pose_x pose" "pose_y pose" t' "pose_x opp" "pose_y opp"
        "pose_theta opp"] tr
    obtain S4 where "?tr S t' = Some (Inr (out ! (Suc i + j'), S4))" by auto
    with b' show ?thesis by (auto simp: Suc)
  qed
  from l keep beams show ?case by (auto simp: nth_list_update)
qed

text \<open>
  The total of the marcher: what the outer loop advanced, less \<open>0.01\<close> for each step of
  the back-off loop, which makes at least one.
\<close>

lemma ray_march_total:
  assumes "grid_fits S" "\<forall>v\<in>set (dt S). 0 \<le> v"
    and "c \<noteq> 0 \<or> s \<noteq> 0" "origin_c S \<noteq> 0 \<or> origin_s S \<noteq> 0"
    and r: "ray_march (distance_transform S) c s x y = Some (Inr (x', y', tot))"
  shows "if field_at S x y = 0 then tot = 0
         else \<exists>T>0. \<exists>n\<ge>1.
                reach (distance_transform S) c s x y = Some (Inr (x + T * c, y + T * s, T))
                \<and> (x', y') = back_point step_back c s (x + T * c) (y + T * s) n
                \<and> tot = T - 0.01 * real n"
proof -
  let ?q = "\<lambda>x y. Inr (field_at S x y) :: fault + real"
  have q: "distance_transform S = ?q"
    by (intro ext) (rule distance_transform_field [OF assms(1)])
  from ray_march_arrives [OF assms(1-4), of x y] obtain T where T: "0 \<le> T"
    "reach ?q c s x y = Some (Inr (x + T * c, y + T * s, T))"
    "field_at S x y = 0 \<longleftrightarrow> T = 0"
    "ray_march_with step_back ?q c s x y
               = (if field_at S x y = 0 then Some (Inr (x, y, 0))
                  else (case back_off step_back ?q c s (x + T * c) (y + T * s) 0 0 of
                          None \<Rightarrow> None
                        | Some (Inl e) \<Rightarrow> Some (Inl e)
                        | Some (Inr (x', y', err)) \<Rightarrow> Some (Inr (x', y', T - err))))"
    by blast
  show ?thesis
  proof (cases "field_at S x y = 0")
    case True
    with r T(4) show ?thesis by (simp add: ray_march_def q)
  next
    case False
    with r T(4) obtain err where
      b: "back_off step_back ?q c s (x + T * c) (y + T * s) 0 0 = Some (Inr (x', y', err))"
      and tot: "tot = T - err"
      by (auto simp: ray_march_def q split: option.splits sum.splits)
    from back_off_returned [OF b] obtain n where "1 \<le> n"
      "field_at_point S (back_point step_back c s (x + T * c) (y + T * s) n) \<noteq> 0" by blast
    from back_off_finds [OF this, of 0] b obtain m where m: "1 \<le> m"
      "(x', y') = back_point step_back c s (x + T * c) (y + T * s) m"
      "err = 0.01 * real m"
      by auto
    have "0 < T" using T(1,3) False by linarith
    with m tot T(2) False show ?thesis unfolding q by auto
  qed
qed

text \<open>
  Claim C1, as the code has it. With noise disabled every entry of the output of a scan,
  which has one slot for each beam, is at most \<open>scan_max_range\<close> and is the value
  \<open>trace_ray\<close> returns for its beam. That value is at most \<open>scan_max_range\<close>, and at least
  the least of \<open>0\<close>, \<open>scan_max_range\<close>, the marched \<open>total_distance\<close> and the distance
  from the sensor to the opponent's centre less \<open>cube_width / 2\<close>. Branch by branch: when
  the beam meets the opponent and runs along the x axis it is that distance less
  \<open>cube_width / 2\<close>, capped, which is negative for a sensor nearer than \<open>cube_width / 2\<close> to
  the centre; when the beam meets the opponent otherwise it is not negative unless
  \<open>scan_max_range\<close> is; and when the beam does not meet the opponent it is the marched
  \<open>total_distance\<close>, capped. On a grid that is finite and whose distances are not
  negative, \<open>total_distance\<close> is \<open>0\<close> when the start point has distance \<open>0\<close>; otherwise it
  is the distance \<open>T\<close> the outer loop advanced less \<open>0.01\<close> for each of the \<open>n \<ge> 1\<close> steps
  of the back-off loop, which is negative when the loop steps back further than the beam
  advanced.
\<close>

theorem ranges_at_most_max_range:
  "(scan_std_dev S = 0 \<longrightarrow> length (scan_output S) = nat (num_beams S) \<longrightarrow>
      (\<forall>out S'. scan S pose opponent_pose flag = Some (Inr (out, S')) \<longrightarrow>
         length out = nat (num_beams S)
         \<and> (\<forall>j<nat (num_beams S). out ! j \<le> scan_max_range S
              \<and> (\<exists>t S2. beam_theta S (start_index S pose) j = Some t
                   \<and> trace_ray S (pose_x pose) (pose_y pose) t (pose_x opponent_pose)
                        (pose_y opponent_pose) (pose_theta opponent_pose)
                      = Some (Inr (out ! j, S2))))))
   \<and> (\<forall>r S'. trace_ray S x y theta_index opponent_X opponent_Y opponent_theta
                 = Some (Inr (r, S')) \<longrightarrow>
        (\<exists>x' y' tot.
           ray_march (distance_transform S) (cosines S ! nat (table_index theta_index))
               (sines S ! nat (table_index theta_index)) x y = Some (Inr (x', y', tot))
           \<and> r \<le> scan_max_range S
           \<and> min (min 0 (scan_max_range S))
                 (min tot (sqrt ((x - opponent_X) ^ 2 + (y - opponent_Y) ^ 2) - cube_width S / 2))
               \<le> r
           \<and> (if beam_meets_opponent S (table_index theta_index)
                    (arctanes S ! nat (table_index theta_index)) x y x' y' tot
                    opponent_X opponent_Y opponent_theta
               then (if axis_beam S (table_index theta_index)
                     then r = min (sqrt ((x - opponent_X) ^ 2 + (y - opponent_Y) ^ 2)
                                     - cube_width S / 2) (scan_max_range S)
                     else min 0 (scan_max_range S) \<le> r)
               else r = min tot (scan_max_range S))))
   \<and> (grid_fits S \<longrightarrow> (\<forall>v\<in>set (dt S). 0 \<le> v) \<longrightarrow> c \<noteq> 0 \<or> s \<noteq> 0 \<longrightarrow>
        origin_c S \<noteq> 0 \<or> origin_s S \<noteq> 0 \<longrightarrow>
        (\<forall>x' y' tot. ray_march (distance_transform S) c s x y = Some (Inr (x', y', tot)) \<longrightarrow>
           (if field_at S x y = 0 then tot = 0
            else \<exists>T>0. \<exists>n\<ge>1.
                   reach (distance_transform S) c s x y = Some (Inr (x + T * c, y + T * s, T))
                   \<and> (x', y') = back_point step_back c s (x + T * c) (y + T * s) n
                   \<and> tot = T - 0.01 * real n)))"
proof (intro conjI impI allI)
  fix out S'
  assume sd: "scan_std_dev S = 0" and len: "length (scan_output S) = nat (num_beams S)"
    and s: "scan S pose opponent_pose flag = Some (Inr (out, S'))"
  let ?A = "S\<lparr>flag_can_see_opponent := flag, can_see_opponent := False\<rparr>"
  let ?tr = "\<lambda>S t. trace_ray S (pose_x pose) (pose_y pose) t (pose_x opponent_pose)
      (pose_y opponent_pose) (pose_theta opponent_pose)"
  have f: "fixed_part ?A = fixed_part S" by simp
  from s obtain S2 where
    "scan_into ?A pose opponent_pose (scan_output S) = Some (Inr (out, S2))"
    by (rule scan_Inr)
  then have b: "scan_beams (nat (num_beams S)) ?A pose opponent_pose 0 (start_index S pose)
            (scan_output S) = Some (Inr (out, S2))"
    by (simp add: scan_into_def fixed_start_index [OF f])
  have sdA: "scan_std_dev ?A \<le> 0" using sd by simp
  note e = scan_beams_entries [OF b sdA]
  show "length out = nat (num_beams S)" using e(1) len by simp
  fix j assume j: "j < nat (num_beams S)"
  with e(3) obtain t S3 where
    t: "beam_theta ?A (start_index S pose) j = Some t" "?tr ?A t = Some (Inr (out ! j, S3))"
    by auto
  from t(1) have bt: "beam_theta S (start_index S pose) j = Some t"
    by (simp add: fixed_beam_theta [OF f])
  from trace_ray_rel [OF f, of "pose_x pose" "pose_y pose" t "pose_x opponent_pose"
      "pose_y opponent_pose" "pose_theta opponent_pose"] t(2)
  obtain S4 where tr: "?tr S t = Some (Inr (out ! j, S4))" by auto
  from bt tr show "\<exists>t S2. beam_theta S (start_index S pose) j = Some t
                   \<and> ?tr S t = Some (Inr (out ! j, S2))" by blast
  let ?i = "table_index t"
  from tr have it: "in_tables S ?i" by (auto simp: trace_ray_def Let_def split: if_splits)
  from tr it obtain x' y' tot where
    m: "ray_march (distance_transform S) (cosines S ! nat ?i) (sines S ! nat ?i)
          (pose_x pose) (pose_y pose) = Some (Inr (x', y', tot))"
    by (auto simp: trace_ray_def Let_def split: option.splits sum.splits)
  from tr [unfolded trace_ray_cases [OF it m]]
  have "out ! j = fst (opponent_range S ?i (arctanes S ! nat ?i) (pose_x pose) (pose_y pose)
      x' y' tot (pose_x opponent_pose) (pose_y opponent_pose) (pose_theta opponent_pose))"
    by (metis Pair_inject option.inject prod.collapse sum.inject(2))
  then show "out ! j \<le> scan_max_range S" by (simp add: opponent_range_branches(1))
next
  fix r S'
  assume t: "trace_ray S x y theta_index opponent_X opponent_Y opponent_theta = Some (Inr (r, S'))"
  let ?i = "table_index theta_index"
  from t have it: "in_tables S ?i" by (auto simp: trace_ray_def Let_def split: if_splits)
  from t it obtain x' y' tot where
    m: "ray_march (distance_transform S) (cosines S ! nat ?i) (sines S ! nat ?i) x y
         = Some (Inr (x', y', tot))"
    by (auto simp: trace_ray_def Let_def split: option.splits sum.splits)
  from t [unfolded trace_ray_cases [OF it m]]
  have r: "r = fst (opponent_range S ?i (arctanes S ! nat ?i) x y x' y' tot
        opponent_X opponent_Y opponent_theta)"
    by (metis Pair_inject option.inject prod.collapse sum.inject(2))
  note b = opponent_range_branches [where S = S and i = ?i and k = "arctanes S ! nat ?i"
      and ox = x and oy = y and x = x' and y = y' and tot = tot and oX = opponent_X
      and oY = opponent_Y and oT = opponent_theta, folded r]
  from m b show "\<exists>x' y' tot.
           ray_march (distance_transform S) (cosines S ! nat ?i) (sines S ! nat ?i) x y
             = Some (Inr (x', y', tot))
           \<and> r \<le> scan_max_range S
           \<and> min (min 0 (scan_max_range S))
                 (min tot (sqrt ((x - opponent_X) ^ 2 + (y - opponent_Y) ^ 2) - cube_width S / 2))
               \<le> r
           \<and> (if beam_meets_opponent S ?i (arctanes S ! nat ?i) x y x' y' tot
                    opponent_X opponent_Y opponent_theta
               then (if axis_beam S ?i
                     then r = min (sqrt ((x - opponent_X) ^ 2 + (y - opponent_Y) ^ 2)
                                     - cube_width S / 2) (scan_max_range S)
                     else min 0 (scan_max_range S) \<le> r)
               else r = min tot (scan_max_range S))"
    by blast
next
  fix x' y' tot
  assume "grid_fits S" "\<forall>v\<in>set (dt S). 0 \<le> v" "c \<noteq> 0 \<or> s \<noteq> 0"
    "origin_c S \<noteq> 0 \<or> origin_s S \<noteq> 0"
    "ray_march (distance_transform S) c s x y = Some (Inr (x', y', tot))"
  then show "if field_at S x y = 0 then tot = 0
            else \<exists>T>0. \<exists>n\<ge>1.
                   reach (distance_transform S) c s x y = Some (Inr (x + T * c, y + T * s, T))
                   \<and> (x', y') = back_point step_back c s (x + T * c) (y + T * s) n
                   \<and> tot = T - 0.01 * real n"
    by (rule ray_march_total)
qed

text \<open>
  The sensor \<open>0.003\<close> before the wall. Its beam along \<open>+x\<close> moves \<open>0.025\<close>, into the
  occupied cell, and steps back three times, to \<open>0.005\<close> behind the sensor; its beam along
  \<open>+y\<close> leaves the map and steps back twice.
\<close>

lemma wall_fields:
  "height wall = 1" "width wall = 2" "resolution wall = 1 / 40"
  "pose_x (origin wall) = 0" "pose_y (origin wall) = 0"
  "origin_c wall = 1" "origin_s wall = 0" "dt wall = [1 / 40, 0]"
  "sines wall = [0, 1, 0, - 1, 0]" "cosines wall = [1, 0, - 1, 0, 1]"
  "arctanes wall = [Infinite, Finite 0, Infinite, Finite 0, Infinite]"
  "num_beams wall = 2" "field_of_view wall = pi / 2" "scan_std_dev wall = 0"
  "scan_max_range wall = 10" "cube_width wall = 1" "ray_tracing_epsilon wall = 1 / 10000"
  "theta_discretization wall = 4" "theta_index_increment wall = 1" "threshold wall = 5"
  "scan_output wall = [0, 0]"
  by (simp_all add: wall_def arena_fields arena_tables)

lemma wall_grid_fits: "grid_fits wall"
  by (simp add: grid_fits_def wall_fields)

lemma wall_query: "distance_transform wall = (\<lambda>x y. Inr (field_at wall x y))"
  by (intro ext) (rule distance_transform_field [OF wall_grid_fits])

lemma wall_field:
  "field_at wall x y =
     (if 0 \<le> x \<and> x < 1 / 20 \<and> 0 \<le> y \<and> y < 1 / 40
      then [1 / 40, 0] ! nat (\<lfloor>y * 40\<rfloor> * 2 + \<lfloor>x * 40\<rfloor>) else 0)"
  by (simp add: field_at_def in_map_def x_rot_def y_rot_def wall_fields)

lemma wall_march_x: "ray_march (distance_transform wall) 1 0 (11 / 500) (1 / 80)
   = Some (Inr (17 / 1000, 1 / 80, - (1 / 200)))"
  by (simp add: ray_march_def ray_march_with_def step_back_def wall_query wall_field
      march.simps back_off.simps)

lemma wall_march_y: "ray_march (distance_transform wall) 0 1 (11 / 500) (1 / 80)
   = Some (Inr (11 / 500, 7 / 400, 1 / 200))"
  by (simp add: ray_march_def ray_march_with_def step_back_def wall_query wall_field
      march.simps back_off.simps)

lemma wall_reach_x: "reach (distance_transform wall) 1 0 (11 / 500) (1 / 80)
   = Some (Inr (47 / 1000, 1 / 80, 1 / 40))"
  by (simp add: reach_def wall_query wall_field advance.simps)

lemma wall_trace_ray:
  assumes "fixed_part S = fixed_part wall"
  shows "trace_ray S (11 / 500) (1 / 80) (7 / 2) (401 / 200) (16 / 5) 0
           = Some (Inr (- (1 / 200), S))"
    and "trace_ray S (11 / 500) (1 / 80) (1 / 2) (401 / 200) (16 / 5) 0
           = Some (Inr (1 / 200, S))"
  by (simp_all add: trace_ray_def Let_def table_index_beams in_tables_def
      fixed_distance_transform [OF assms] fixed_fields [OF assms] wall_fields
      wall_march_x wall_march_y opponent_range_def corner_heading_0 beam_misses_def
      axis_beam_def)

lemma scan_wall:
  "scan wall wall_sensor opponent_ahead False
     = Some (Inr ([- (1 / 200), 1 / 200], wall\<lparr>scan_output := [- (1 / 200), 1 / 200]\<rparr>))"
proof -
  let ?A = "wall\<lparr>flag_can_see_opponent := False, can_see_opponent := False\<rparr>"
  have f: "fixed_part ?A = fixed_part wall" by simp
  have A: "?A = wall" by (simp add: wall_def arena_fields)
  have two: "nat (num_beams wall) = Suc (Suc 0)" by (simp add: wall_fields)
  have si: "start_index wall wall_sensor = 7 / 2"
    by (simp add: wall_sensor_def start_index_def Let_def wall_fields fmod_def trunc_real_def
        ceiling_def)
  have b: "scan_beams (Suc (Suc 0)) wall wall_sensor opponent_ahead 0 (7 / 2) [0, 0]
      = Some (Inr ([- (1 / 200), 1 / 200], wall))"
    by (simp add: wall_sensor_def opponent_ahead_def wall_trace_ray [OF refl] wall_fields
        wrap_beams)
  have "scan_into wall wall_sensor opponent_ahead [0, 0]
      = Some (Inr ([- (1 / 200), 1 / 200], wall))"
    unfolding scan_into_def two si by (rule b)
  then show ?thesis
    by (simp add: scan_def Let_def A wall_fields)
qed

lemma scan_arena_ahead:
  "scan arena sensor opponent_ahead False =
     Some (Inr ([199 / 100, 139 / 200], arena\<lparr>scan_output := [199 / 100, 139 / 200]\<rparr>))"
  by (simp add: scan_def Let_def arena_fields scan_into_sensor ahead_x ahead_y opponent_ahead_def)

theorem ranges_at_most_max_range_witness:
  "scan_std_dev arena = 0 \<and> length (scan_output arena) = nat (num_beams arena)
   \<and> scan arena sensor opponent_ahead False =
       Some (Inr ([199 / 100, 139 / 200], arena\<lparr>scan_output := [199 / 100, 139 / 200]\<rparr>))
   \<and> [199 / 100, 139 / 200 :: real] ! 1 \<le> scan_max_range arena
   \<and> trace_ray arena (401 / 200) (401 / 200) (7 / 2) 3 (401 / 200) 0
       = Some (Inr (99 / 200, arena))
   \<and> axis_beam arena (table_index (7 / 2))
   \<and> (99 / 200 :: real)
       = min (sqrt ((401 / 200 - 3) ^ 2 + (401 / 200 - 401 / 200) ^ 2) - cube_width arena / 2)
           (scan_max_range arena)
   \<and> grid_fits wall \<and> origin_c wall = 1
   \<and> ray_march (distance_transform wall) 1 0 (11 / 500) (1 / 80)
       = Some (Inr (17 / 1000, 1 / 80, - (1 / 200)))
   \<and> field_at wall (11 / 500) (1 / 80) = 1 / 40
   \<and> reach (distance_transform wall) 1 0 (11 / 500) (1 / 80)
       = Some (Inr (47 / 1000, 1 / 80, 1 / 40))
   \<and> (\<exists>n\<ge>1. (- (1 / 200) :: real) = 1 / 40 - 0.01 * real n)"
proof -
  have sd: "scan_std_dev arena = 0"
    and len: "length (scan_output arena) = nat (num_beams arena)"
    by (simp_all add: arena_fields)
  have a: "[199 / 100, 139 / 200 :: real] ! 1 \<le> scan_max_range arena"
    using ranges_at_most_max_range [where S = arena and pose = sensor
        and opponent_pose = opponent_ahead and flag = False, THEN conjunct1, rule_format,
        OF sd len scan_arena_ahead, THEN conjunct2, rule_format, of 1]
    by (simp add: arena_fields)
  have t: "trace_ray arena (401 / 200) (401 / 200) (7 / 2) 3 (401 / 200) 0
       = Some (Inr (99 / 200, arena))"
    by (simp add: trace_ray_x near_x arena_fields)
  have ax: "axis_beam arena (table_index (7 / 2))"
    by (simp add: axis_beam_def table_index_beams arena_fields)
  have d: "sqrt ((401 / 200 - 3) ^ 2 + (401 / 200 - 401 / 200) ^ 2) = (199 / 200 :: real)"
    "sqrt ((799 / 200 - 3) ^ 2 + (401 / 200 - 401 / 200) ^ 2) = (199 / 200 :: real)"
    by (rule sqrt_rat; simp add: power2_eq_square)+
  have meets: "beam_meets_opponent arena 4 Infinite (401 / 200) (401 / 200) (799 / 200)
      (401 / 200) (199 / 100) 3 (401 / 200) 0"
    by (simp add: beam_meets_opponent_def corner_heading_0 beam_misses_def axis_beam_def
        arena_fields d)
  from ranges_at_most_max_range [where S = arena and x = "401 / 200" and y = "401 / 200"
      and theta_index = "7 / 2" and opponent_X = 3 and opponent_Y = "401 / 200"
      and opponent_theta = 0, THEN conjunct2, THEN conjunct1, rule_format, OF t]
  obtain x' y' tot where
    m: "ray_march (distance_transform arena) (cosines arena ! nat (table_index (7 / 2)))
          (sines arena ! nat (table_index (7 / 2))) (401 / 200) (401 / 200)
        = Some (Inr (x', y', tot))"
    and br: "if beam_meets_opponent arena (table_index (7 / 2))
                  (arctanes arena ! nat (table_index (7 / 2))) (401 / 200) (401 / 200) x' y' tot
                  3 (401 / 200) 0
             then (if axis_beam arena (table_index (7 / 2))
                   then (99 / 200 :: real)
                      = min (sqrt ((401 / 200 - 3) ^ 2 + (401 / 200 - 401 / 200) ^ 2)
                               - cube_width arena / 2) (scan_max_range arena)
                   else min 0 (scan_max_range arena) \<le> 99 / 200)
             else 99 / 200 = min tot (scan_max_range arena)"
    by blast
  have k: "arctanes arena ! nat 4 = Infinite" by (simp add: arena_tables)
  from m have e: "x' = 799 / 200" "y' = 401 / 200" "tot = 199 / 100"
    by (simp_all add: table_index_beams arena_tables march_x)
  from br meets ax have b: "(99 / 200 :: real)
       = min (sqrt ((401 / 200 - 3) ^ 2 + (401 / 200 - 401 / 200) ^ 2) - cube_width arena / 2)
           (scan_max_range arena)"
    unfolding table_index_beams k e by (simp only: if_True)
  have h: "grid_fits wall" "\<forall>v\<in>set (dt wall). 0 \<le> v" "(1::real) \<noteq> 0 \<or> (0::real) \<noteq> 0"
    "origin_c wall \<noteq> 0 \<or> origin_s wall \<noteq> 0"
    by (simp_all add: wall_grid_fits wall_fields)
  have f: "field_at wall (11 / 500) (1 / 80) = 1 / 40"
    by (simp add: wall_field)
  from ranges_at_most_max_range [where S = wall and c = 1 and s = 0 and x = "11 / 500"
      and y = "1 / 80", THEN conjunct2, THEN conjunct2, rule_format,
      OF h(1) h(2) [rule_format] h(3) h(4) wall_march_x]
  have n: "\<exists>n\<ge>1. (- (1 / 200) :: real) = 1 / 40 - 0.01 * real n"
    using f by (auto simp: wall_reach_x)
  from sd len scan_arena_ahead a t ax b h(1) wall_fields(6) wall_march_x f wall_reach_x n
  show ?thesis by blast
qed

text \<open>
  Claim C1 as stated fails in two branches. In the branch of the beams along the x axis
  that meet the opponent: with the sensor \<open>0.25\<close> from the centre of an opponent of side
  \<open>1\<close>, that is inside its square, the first range of a scan without noise is
  \<open>0.25 - 0.5\<close>. In the marched branch: with the sensor \<open>0.003\<close> before an occupied cell of
  a grid of resolution \<open>0.025\<close>, the beam towards the cell advances \<open>0.025\<close> and steps back
  three times, and the first range of the scan is \<open>0.025 - 0.03\<close>.
\<close>

theorem negative_ranges_in_two_branches:
  "scan_std_dev arena = 0
   \<and> scan arena sensor opponent_inside False =
       Some (Inr ([- (1 / 4), 199 / 100], arena\<lparr>scan_output := [- (1 / 4), 199 / 100]\<rparr>))
   \<and> [- (1 / 4), 199 / 100 :: real] ! 0 < 0
   \<and> scan_std_dev wall = 0
   \<and> scan wall wall_sensor opponent_ahead False =
       Some (Inr ([- (1 / 200), 1 / 200], wall\<lparr>scan_output := [- (1 / 200), 1 / 200]\<rparr>))
   \<and> [- (1 / 200), 1 / 200 :: real] ! 0 < 0"
proof -
  have "scan arena sensor opponent_inside False =
       Some (Inr ([- (1 / 4), 199 / 100], arena\<lparr>scan_output := [- (1 / 4), 199 / 100]\<rparr>))"
    by (simp add: scan_def Let_def arena_fields scan_into_sensor inside_x inside_y
        opponent_inside_def)
  with scan_wall show ?thesis by (simp add: arena_fields wall_fields)
qed

subsection \<open>Termination of the marcher\<close>

text \<open>
  Claim C3, as the code has it. The grid is finite, its distances are not negative, and a
  query outside the map is \<open>0\<close>; the beam has a direction and the grid a heading. Then from
  every start point the outer loop of \<open>trace_ray\<close> arrives, after finitely many steps and
  a distance \<open>T\<close> along the beam, at a point where the query is \<open>0\<close>. The back-off loop
  started at a point returns exactly when one of the points it visits, stepping back, has a
  distance that is not \<open>0\<close>; this holds whatever the subtraction of the step back gives,
  exact or rounded. So the marcher returns when the start point has distance \<open>0\<close> (there
  is no loop then) or when the back-off loop, from the point at which the outer loop
  arrived, visits a point whose distance is not \<open>0\<close>; otherwise it does not return. With
  the exact step back the \<open>n\<close>-th point visited is \<open>n\<close> times \<open>0.01\<close> behind along the beam.
\<close>

theorem marcher_returns_unless_back_off_stuck:
  assumes "grid_fits S" "\<forall>v\<in>set (dt S). 0 \<le> v"
    and "c \<noteq> 0 \<or> s \<noteq> 0" "origin_c S \<noteq> 0 \<or> origin_s S \<noteq> 0"
  shows "(\<exists>t\<ge>0. distance_transform S (x + t * c) (y + t * s) = Inr 0)
       \<and> (\<exists>T\<ge>0. reach (distance_transform S) c s x y = Some (Inr (x + T * c, y + T * s, T))
             \<and> distance_transform S (x + T * c) (y + T * s) = Inr 0
             \<and> (\<forall>retreat.
                  if field_at S x y = 0
                     \<or> (\<exists>n\<ge>1. field_at_point S
                                 (back_point retreat c s (x + T * c) (y + T * s) n) \<noteq> 0)
                  then \<exists>r. ray_march_with retreat (distance_transform S) c s x y = Some (Inr r)
                  else ray_march_with retreat (distance_transform S) c s x y = None))
       \<and> (\<forall>retreat. (\<exists>r. back_off retreat (distance_transform S) c s px py e 0 = Some r)
                     \<longleftrightarrow> (\<exists>n\<ge>1. field_at_point S (back_point retreat c s px py n) \<noteq> 0))
       \<and> back_point step_back c s px py n = (px - real n * (0.01 * c), py - real n * (0.01 * s))"
proof (intro conjI)
  let ?q = "\<lambda>x y. Inr (field_at S x y) :: fault + real"
  have q: "distance_transform S = ?q"
    by (intro ext) (rule distance_transform_field [OF assms(1)])
  show "\<exists>t\<ge>0. distance_transform S (x + t * c) (y + t * s) = Inr 0"
    unfolding q using rays_reach_zero [OF assms(3,4), of x y] by simp
  have iff: "(\<exists>r. back_off rt ?q c s px py e 0 = Some r)
               \<longleftrightarrow> (\<exists>n\<ge>1. field_at_point S (back_point rt c s px py n) \<noteq> 0)" for rt px py e
    using back_off_returned [of rt S c s px py e] back_off_finds [of _ S rt c s px py e]
    by blast
  show "\<forall>retreat. (\<exists>r. back_off retreat (distance_transform S) c s px py e 0 = Some r)
                     \<longleftrightarrow> (\<exists>n\<ge>1. field_at_point S (back_point retreat c s px py n) \<noteq> 0)"
    unfolding q using iff by blast
  show "back_point step_back c s px py n = (px - real n * (0.01 * c), py - real n * (0.01 * s))"
    by (rule back_point_exact)
  from ray_march_arrives [OF assms, of x y] obtain T where T: "0 \<le> T"
    "reach ?q c s x y = Some (Inr (x + T * c, y + T * s, T))"
    "field_at S (x + T * c) (y + T * s) = 0"
    "\<And>rt. ray_march_with rt ?q c s x y
               = (if field_at S x y = 0 then Some (Inr (x, y, 0))
                  else (case back_off rt ?q c s (x + T * c) (y + T * s) 0 0 of
                          None \<Rightarrow> None
                        | Some (Inl e) \<Rightarrow> Some (Inl e)
                        | Some (Inr (x', y', err)) \<Rightarrow> Some (Inr (x', y', T - err))))"
    by blast
  have ret: "if field_at S x y = 0
                \<or> (\<exists>n\<ge>1. field_at_point S (back_point rt c s (x + T * c) (y + T * s) n) \<noteq> 0)
             then \<exists>r. ray_march_with rt ?q c s x y = Some (Inr r)
             else ray_march_with rt ?q c s x y = None" for rt
  proof (cases "field_at S x y = 0")
    case True
    then show ?thesis by (simp add: T(4))
  next
    case False
    show ?thesis
    proof (cases "\<exists>n\<ge>1. field_at_point S (back_point rt c s (x + T * c) (y + T * s) n) \<noteq> 0")
      case True
      then obtain n where "1 \<le> n"
        "field_at_point S (back_point rt c s (x + T * c) (y + T * s) n) \<noteq> 0" by blast
      from back_off_finds [OF this, of 0] obtain r where
        "back_off rt ?q c s (x + T * c) (y + T * s) 0 0 = Some (Inr r)" by blast
      with True False show ?thesis by (cases r) (simp add: T(4))
    next
      case none: False
      with iff [of rt "x + T * c" "y + T * s" 0]
      have "back_off rt ?q c s (x + T * c) (y + T * s) 0 0 = None" by auto
      with none False show ?thesis by (simp add: T(4))
    qed
  qed
  show "\<exists>T\<ge>0. reach (distance_transform S) c s x y = Some (Inr (x + T * c, y + T * s, T))
             \<and> distance_transform S (x + T * c) (y + T * s) = Inr 0
             \<and> (\<forall>retreat.
                  if field_at S x y = 0
                     \<or> (\<exists>n\<ge>1. field_at_point S
                                 (back_point retreat c s (x + T * c) (y + T * s) n) \<noteq> 0)
                  then \<exists>r. ray_march_with retreat (distance_transform S) c s x y = Some (Inr r)
                  else ray_march_with retreat (distance_transform S) c s x y = None)"
    unfolding q
  proof (intro exI [of _ T] conjI allI)
    show "0 \<le> T" by (rule T(1))
    show "reach ?q c s x y = Some (Inr (x + T * c, y + T * s, T))" by (rule T(2))
    show "Inr (field_at S (x + T * c) (y + T * s)) = (Inr 0 :: fault + real)"
      using T(3) by simp
    show "if field_at S x y = 0
             \<or> (\<exists>n\<ge>1. field_at_point S (back_point rt c s (x + T * c) (y + T * s) n) \<noteq> 0)
          then \<exists>r. ray_march_with rt ?q c s x y = Some (Inr r)
          else ray_march_with rt ?q c s x y = None" for rt
      by (rule ret)
  qed
qed

text \<open>
  Two beams in the arena. From \<open>(2.005, 2.005)\<close> along \<open>+x\<close> the exact step back leaves the
  wall at its first step. From \<open>(1.5, 1)\<close>, on the line between the bottom row of occupied
  cells and the row above it, with a sine of \<open>- 2\<^sup>-\<^sup>5\<^sup>2\<close> where the exact one is \<open>0\<close>, the first
  step of the outer loop ends just below that line; the rounded step back does not change
  \<open>y\<close>, every point it visits is in the bottom row or outside the map, and the marcher does
  not return.
\<close>

lemma reach_x: "reach (distance_transform arena) 1 0 (401 / 200) (401 / 200)
   = Some (Inr (801 / 200, 401 / 200, 2))"
  by (simp add: reach_def arena_query arena_field arena_dt_def advance.simps)

lemma arena_bottom_row: "0 \<le> y \<Longrightarrow> y < 1 \<Longrightarrow> field_at arena x y = 0"
proof (cases "0 \<le> x \<and> x < 5")
  case False
  then show ?thesis by (auto simp: arena_field)
next
  case True
  assume y: "0 \<le> y" "y < 1"
  then have fy: "\<lfloor>y\<rfloor> = 0" by (simp add: floor_eq_iff)
  define k where "k = \<lfloor>x\<rfloor>"
  from True have "0 \<le> k" "k < 5" by (simp_all add: k_def floor_less_iff)
  then have "k = 0 \<or> k = 1 \<or> k = 2 \<or> k = 3 \<or> k = 4" by arith
  then have "arena_dt ! nat k = 0" by (auto simp: arena_dt_def)
  with True y fy show ?thesis by (simp add: arena_field k_def)
qed

lemma rounded_back_point:
  assumes "\<bar>0.01 * s\<bar> * 2 ^ 54 < \<bar>y\<bar>"
  shows "snd (back_point rounded_step_back c s x y n) = y"
  using assms by (induction n arbitrary: x) (simp_all add: rounded_step_back_def)

lemma reach_border: "reach (distance_transform arena) 1 (- (1 / 2 ^ 52)) (3 / 2) 1
   = Some (Inr (3 / 2 + 1 * 1, 1 + 1 * - (1 / 2 ^ 52), 1))"
  by (simp add: reach_def arena_query arena_field arena_dt_def advance.simps floor_eq_iff)

lemma rounded_stays_in_bottom_row:
  "field_at_point arena (back_point rounded_step_back 1 (- (1 / 2 ^ 52))
     (3 / 2 + 1 * 1) (1 + 1 * - (1 / 2 ^ 52)) n) = 0"
proof -
  have "snd (back_point rounded_step_back 1 (- (1 / 2 ^ 52)) (3 / 2 + 1 * 1)
     (1 + 1 * - (1 / 2 ^ 52)) n) = 1 + 1 * - (1 / 2 ^ 52)"
    by (rule rounded_back_point) simp
  then show ?thesis
    by (simp add: field_at_point_def arena_bottom_row)
qed

theorem marcher_returns_unless_back_off_stuck_witness:
  "grid_fits arena \<and> origin_c arena = 1
   \<and> reach (distance_transform arena) 1 0 (401 / 200) (401 / 200)
       = Some (Inr (801 / 200, 401 / 200, 2))
   \<and> field_at_point arena (back_point step_back 1 0 (801 / 200) (401 / 200) 1) = 1
   \<and> ray_march_with step_back (distance_transform arena) 1 0 (401 / 200) (401 / 200)
       = Some (Inr (799 / 200, 401 / 200, 199 / 100))
   \<and> (\<exists>r. back_off step_back (distance_transform arena) 1 0 (801 / 200) (401 / 200) 0 0 = Some r)
   \<and> field_at arena (3 / 2) 1 = 1
   \<and> reach (distance_transform arena) 1 (- (1 / 2 ^ 52)) (3 / 2) 1
       = Some (Inr (3 / 2 + 1 * 1, 1 + 1 * - (1 / 2 ^ 52), 1))
   \<and> ray_march_with rounded_step_back (distance_transform arena) 1 (- (1 / 2 ^ 52)) (3 / 2) 1
       = None"
proof -
  have h: "grid_fits arena" "\<forall>v\<in>set (dt arena). 0 \<le> v" "(1::real) \<noteq> 0 \<or> (0::real) \<noteq> 0"
    "origin_c arena \<noteq> 0 \<or> origin_s arena \<noteq> 0"
    by (simp_all add: arena_grid_fits arena_fields arena_dt_def)
  note iff = marcher_returns_unless_back_off_stuck [OF h, THEN conjunct2, THEN conjunct2,
      THEN conjunct1, rule_format, of _ "801 / 200" "401 / 200" 0]
  have f: "field_at_point arena (back_point step_back 1 0 (801 / 200) (401 / 200) 1) = 1"
    by (simp add: field_at_point_def step_back_def arena_field arena_dt_def)
  then have "\<exists>n\<ge>1. field_at_point arena (back_point step_back 1 0 (801 / 200) (401 / 200) n) \<noteq> 0"
    by (intro exI [of _ 1]) simp
  then have a: "\<exists>r. back_off step_back (distance_transform arena) 1 0 (801 / 200) (401 / 200) 0 0
                  = Some r"
    using iff [of step_back] by blast
  have m: "ray_march_with step_back (distance_transform arena) 1 0 (401 / 200) (401 / 200)
       = Some (Inr (799 / 200, 401 / 200, 199 / 100))"
    using march_x by (simp add: ray_march_def)
  have h': "(1::real) \<noteq> 0 \<or> - (1 / 2 ^ 52) \<noteq> (0::real)" by simp
  have s: "field_at arena (3 / 2) 1 = 1" by (simp add: arena_field arena_dt_def)
  from marcher_returns_unless_back_off_stuck [OF h(1,2) h' h(4), THEN conjunct2, THEN conjunct1,
      of "3 / 2" 1]
  obtain T where
    T: "reach (distance_transform arena) 1 (- (1 / 2 ^ 52)) (3 / 2) 1
          = Some (Inr (3 / 2 + T * 1, 1 + T * - (1 / 2 ^ 52), T))"
    and r: "if field_at arena (3 / 2) 1 = 0
               \<or> (\<exists>n\<ge>1. field_at_point arena
                          (back_point rounded_step_back 1 (- (1 / 2 ^ 52))
                             (3 / 2 + T * 1) (1 + T * - (1 / 2 ^ 52)) n) \<noteq> 0)
            then \<exists>r. ray_march_with rounded_step_back (distance_transform arena) 1
                         (- (1 / 2 ^ 52)) (3 / 2) 1 = Some (Inr r)
            else ray_march_with rounded_step_back (distance_transform arena) 1
                         (- (1 / 2 ^ 52)) (3 / 2) 1 = None"
    by blast
  from T have "T = 1" unfolding reach_border by simp
  with r s rounded_stays_in_bottom_row
  have b: "ray_march_with rounded_step_back (distance_transform arena) 1 (- (1 / 2 ^ 52)) (3 / 2) 1
             = None"
    by simp
  from h(1) arena_fields(17) reach_x f m a s reach_border b show ?thesis by blast
qed

text \<open>The strip, evaluated.\<close>

lemma strip_fields:
  "height strip = 1" "width strip = 3" "resolution strip = 1 / 250"
  "pose_x (origin strip) = 0" "pose_y (origin strip) = 0"
  "origin_c strip = 1" "origin_s strip = 0" "dt strip = [0, 1 / 250, 0]"
  "sines strip = [0, 1, 0, - 1, 0]" "cosines strip = [1, 0, - 1, 0, 1]"
  "arctanes strip = [Infinite, Finite 0, Infinite, Finite 0, Infinite]"
  by (simp_all add: strip_def arena_fields arena_tables)

lemma strip_grid_fits: "grid_fits strip"
  by (simp add: grid_fits_def strip_fields)

lemma strip_query: "distance_transform strip = (\<lambda>x y. Inr (field_at strip x y))"
  by (intro ext) (rule distance_transform_field [OF strip_grid_fits])

lemma strip_field:
  "field_at strip x y =
     (if 0 \<le> x \<and> x < 3 / 250 \<and> 0 \<le> y \<and> y < 1 / 250
      then [0, 1 / 250, 0] ! nat (\<lfloor>y * 250\<rfloor> * 3 + \<lfloor>x * 250\<rfloor>) else 0)"
  by (simp add: field_at_def in_map_def x_rot_def y_rot_def strip_fields)

lemma strip_left_zero: "x < 1 / 250 \<Longrightarrow> field_at strip x y = 0"
proof (cases "0 \<le> x \<and> x < 3 / 250 \<and> 0 \<le> y \<and> y < 1 / 250")
  case False
  then show ?thesis by (auto simp: strip_field)
next
  case True
  assume "x < 1 / 250"
  with True have "\<lfloor>x * 250\<rfloor> = 0" "\<lfloor>y * 250\<rfloor> = 0"
    by (simp_all add: floor_eq_iff)
  with True show ?thesis by (simp add: strip_field)
qed

lemma strip_back_off_diverges:
  assumes "x < 14 / 1000"
  shows "back_off step_back (distance_transform strip) 1 0 x y e 0 = None"
proof (rule ccontr)
  assume "back_off step_back (distance_transform strip) 1 0 x y e 0 \<noteq> None"
  then obtain r where "back_off step_back (\<lambda>x y. Inr (field_at strip x y)) 1 0 x y e 0 = Some r"
    unfolding strip_query by blast
  from back_off_returned [OF this] obtain n where
    n: "1 \<le> n" "field_at strip (x - real n * (0.01 * 1)) (y - real n * (0.01 * 0)) \<noteq> 0"
    by (auto simp: field_at_point_def back_point_exact)
  have "real n \<ge> 1" using n(1) by simp
  then have "x - real n * (0.01 * 1) < 1 / 250" using assms by simp
  from strip_left_zero [OF this] n(2) show False by simp
qed

text \<open>
  Claim C3 as stated fails for the back-off loop. In the strip, whose cells are narrower
  than the step \<open>0.01\<close>, the beam along \<open>+x\<close> from \<open>(0.007, 0.002)\<close> in the free cell moves
  \<open>0.004\<close> into the occupied cell on the right, where the query is \<open>0\<close>; the first step back
  lands in the occupied cell on the left, across the free cell, and every further step
  lands outside the map. The query stays \<open>0\<close> and the loop does not end.
\<close>

theorem back_off_loops_in_strip:
  "distance_transform strip (7 / 1000) (1 / 500) = Inr (1 / 250)
   \<and> distance_transform strip (11 / 1000) (1 / 500) = Inr 0
   \<and> distance_transform strip (1 / 1000) (1 / 500) = Inr 0
   \<and> ray_march (distance_transform strip) 1 0 (7 / 1000) (1 / 500) = None
   \<and> trace_ray strip (7 / 1000) (1 / 500) 0 0 0 0 = None"
proof -
  have q: "distance_transform strip (7 / 1000) (1 / 500) = Inr (1 / 250)"
    "distance_transform strip (11 / 1000) (1 / 500) = Inr 0"
    "distance_transform strip (1 / 1000) (1 / 500) = Inr 0"
    by (simp_all add: strip_query strip_field)
  have b: "back_off step_back (distance_transform strip) 1 0 (11 / 1000) (1 / 500) 0 0 = None"
    by (rule strip_back_off_diverges) simp
  have m: "ray_march (distance_transform strip) 1 0 (7 / 1000) (1 / 500) = None"
    unfolding ray_march_def ray_march_with_def q
    by (subst march.simps) (simp add: q b)
  have t: "trace_ray strip (7 / 1000) (1 / 500) 0 0 0 0 = None"
    by (simp add: trace_ray_def Let_def table_index_nonneg in_tables_def strip_fields m)
  from q m t show ?thesis by simp
qed

end
